(* ===== verification/Prelude.thy ===== *)
theory Prelude
  imports Main "HOL-Library.Word"
begin

text \<open>
  Shared vocabulary of the development: Python bytes as lists of 8-bit words,
  the exceptions the code can raise as a datatype, results as sums with the
  exception on the left, a bind on those results, Python's slicing and
  \<open>range\<close> with a step, and the generic list lemmas the component theories
  use (chunking a list into segments of a fixed length).
\<close>

unbundle bit_operations_syntax

named_theorems res_simps \<open>rewrite rules for chains of fallible steps\<close>

type_synonym byte = "8 word"
type_synonym bytes = "byte list"

text \<open>
  The exceptions raised in \<open>src/Erasurecode/app.py\<close>, by the code itself
  (\<open>ValueError\<close> with its message), by the Python runtime (\<open>ZeroDivisionError\<close>
  for \<open>% 0\<close>, \<open>IndexError\<close> for \<open>xs[0]\<close> on an empty list,
  \<open>FileNotFoundError\<close>), by Flask (\<open>KeyError\<close> for a missing form field, \<open>TypeError\<close>
  for a view that returns \<open>None\<close>) and by sympy's matrix type (\<open>ShapeError\<close>,
  \<open>NonSquareMatrixError\<close>, \<open>NonInvertibleMatrixError\<close>, a subclass of
  \<open>ValueError\<close>); and those of \<open>src/Erasurecode/datamatching.py\<close>: OpenCV's
  \<open>cv2.error\<close>, \<open>NameError\<close> for the unset global \<open>original_features\<close>,
  \<open>IsADirectoryError\<close> for a save to a directory path; and jinja2's
  \<open>TemplateNotFound\<close> from Flask's \<open>render_template\<close>.
\<close>

datatype error =
    ZeroDivisionError
  | IndexError
  | ValueError string
  | ShapeError
  | NonSquareMatrixError
  | NonInvertibleMatrixError
  | FileNotFoundError string
  | KeyError string
  | TypeError string
  | CvError string
  | NameError string
  | IsADirectoryError string
  | TemplateNotFound string

type_synonym 'a res = "error + 'a"

definition bind_res :: "'a res \<Rightarrow> ('a \<Rightarrow> 'b res) \<Rightarrow> 'b res" where
  "bind_res r f = (case r of Inl e \<Rightarrow> Inl e | Inr x \<Rightarrow> f x)"

lemma bind_res_Inl [simp, res_simps]: "bind_res (Inl e) f = Inl e"
  by (simp add: bind_res_def)

lemma bind_res_Inr [simp, res_simps]: "bind_res (Inr x) f = f x"
  by (simp add: bind_res_def)

lemma bind_res_Inr_right [simp, res_simps]: "bind_res x Inr = x"
  by (cases x) simp_all

lemma bind_res_assoc [res_simps]: "bind_res (bind_res x f) g = bind_res x (\<lambda>y. bind_res (f y) g)"
  by (cases x) simp_all

lemma bind_res_eq_Inr [res_simps]:
  "bind_res r f = Inr y \<longleftrightarrow> (\<exists>x. r = Inr x \<and> f x = Inr y)"
  by (cases r) simp_all

text \<open>Python's \<open>xs[0]\<close>: an empty list raises \<open>IndexError\<close>.\<close>

definition py_index0 :: "'a list \<Rightarrow> 'a res" where
  "py_index0 xs = (case xs of [] \<Rightarrow> Inl IndexError | x # _ \<Rightarrow> Inr x)"

lemma py_index0_Cons [simp]: "py_index0 (x # xs) = Inr x"
  by (simp add: py_index0_def)

lemma py_index0_Nil [simp]: "py_index0 [] = Inl IndexError"
  by (simp add: py_index0_def)

text \<open>
  Python's \<open>bytes(xs)\<close> on a list of integers: every value must lie in
  \<open>range(0, 256)\<close>, otherwise \<open>ValueError\<close>.
\<close>

definition py_bytes :: "int list \<Rightarrow> bytes res" where
  "py_bytes xs =
     (if list_all (\<lambda>x. 0 \<le> x \<and> x < 256) xs then Inr (map word_of_int xs)
      else Inl (ValueError ''bytes must be in range(0, 256)''))"

lemma py_bytes_uint [simp]: "py_bytes (map uint bs) = Inr bs"
proof -
  have "list_all (\<lambda>x. 0 \<le> x \<and> x < 256) (map uint (bs :: bytes))"
    using uint_lt2p [where 'a = 8] by (simp add: list_all_iff)
  then show ?thesis by (simp add: py_bytes_def comp_def)
qed

text \<open>Python's slice \<open>xs[i:j]\<close> for \<open>0 \<le> i\<close>, \<open>0 \<le> j\<close>: clipped at the end.\<close>

definition py_slice :: "'a list \<Rightarrow> nat \<Rightarrow> nat \<Rightarrow> 'a list" where
  "py_slice xs i j = take (j - i) (drop i xs)"

text \<open>
  Python's \<open>range(start, stop, step)\<close> for a positive step; the loops of
  the code only use it with a step that is known to be positive (a zero step
  raises before the loop is reached).
\<close>

function range_step :: "nat \<Rightarrow> nat \<Rightarrow> nat \<Rightarrow> nat list" where
  "range_step i n s = (if s = 0 \<or> n \<le> i then [] else i # range_step (i + s) n s)"
  by pat_completeness auto
termination
  by (relation "measure (\<lambda>(i, n, s). n - i)") auto

declare range_step.simps [simp del]

subsection \<open>Chunks of a fixed length\<close>

text \<open>
  The reference decomposition of a list into consecutive segments of length
  \<open>k\<close> (the last one shorter if \<open>k\<close> does not divide the length).
\<close>

function chunks :: "nat \<Rightarrow> 'a list \<Rightarrow> 'a list list" where
  "chunks k xs = (if k = 0 \<or> xs = [] then [] else take k xs # chunks k (drop k xs))"
  by pat_completeness auto
termination
  by (relation "measure (\<lambda>(k, xs). length xs)") auto

declare chunks.simps [simp del]

lemma chunks_Nil [simp]: "chunks k [] = []"
  by (simp add: chunks.simps)

lemma chunks_nonempty:
  "0 < k \<Longrightarrow> xs \<noteq> [] \<Longrightarrow> chunks k xs = take k xs # chunks k (drop k xs)"
  by (simp add: chunks.simps)

lemma concat_chunks: "0 < k \<Longrightarrow> concat (chunks k xs) = xs"
proof (induction k xs rule: chunks.induct)
  case (1 k xs)
  then show ?case
    by (cases "xs = []") (simp_all add: chunks_nonempty)
qed

lemma chunks_length:
  "k dvd length xs \<Longrightarrow> ys \<in> set (chunks k xs) \<Longrightarrow> length ys = k"
proof (induction k xs rule: chunks.induct)
  case (1 k xs)
  show ?case
  proof (cases "k = 0 \<or> xs = []")
    case True
    with "1.prems" show ?thesis by (auto simp: chunks.simps)
  next
    case False
    then have "k \<le> length xs" using "1.prems"(1) by (auto dest: dvd_imp_le)
    moreover have "k dvd length (drop k xs)"
      using "1.prems"(1) False by (simp add: dvd_diff_nat)
    ultimately show ?thesis
      using "1.IH" "1.prems"(2) False by (auto simp: chunks_nonempty)
  qed
qed

lemma length_chunks: "k dvd length xs \<Longrightarrow> length (chunks k xs) = length xs div k"
proof (induction k xs rule: chunks.induct)
  case (1 k xs)
  show ?case
  proof (cases "k = 0 \<or> xs = []")
    case True
    then show ?thesis by (auto simp: chunks.simps)
  next
    case False
    then have le: "k \<le> length xs" using "1.prems" by (auto dest: dvd_imp_le)
    have "k dvd length (drop k xs)"
      using "1.prems" False by (simp add: dvd_diff_nat)
    with "1.IH" False have "length (chunks k (drop k xs)) = (length xs - k) div k"
      by simp
    with le False show ?thesis
      by (simp add: chunks_nonempty le_div_geq)
  qed
qed

lemma chunks_append:
  "length xs = k \<Longrightarrow> 0 < k \<Longrightarrow> chunks k (xs @ ys) = xs # chunks k ys"
  by (subst chunks.simps) auto

lemma chunks_append_dvd:
  "k dvd length xs \<Longrightarrow> 0 < k \<Longrightarrow> chunks k (xs @ ys) = chunks k xs @ chunks k ys"
proof (induction k xs rule: chunks.induct)
  case (1 k xs)
  show ?case
  proof (cases "xs = []")
    case True
    then show ?thesis by simp
  next
    case False
    then have "k \<le> length xs" using "1.prems" by (auto dest: dvd_imp_le)
    moreover have "k dvd length (drop k xs)"
      using "1.prems" by (simp add: dvd_diff_nat)
    ultimately show ?thesis
      using "1.IH" "1.prems" False by (simp add: chunks_nonempty)
  qed
qed

text \<open>
  The loop \<open>for i in range(0, len(data), k): data[i:i + k]\<close> visits exactly
  the chunks.
\<close>

lemma map_slice_range_step_gen:
  "0 < k \<Longrightarrow> n = length xs \<Longrightarrow>
   map (\<lambda>i. py_slice xs i (i + k)) (range_step j n k) = chunks k (drop j xs)"
proof (induction j n k rule: range_step.induct)
  case (1 j n k)
  show ?case
  proof (cases "n \<le> j")
    case True
    with "1.prems" show ?thesis by (simp add: range_step.simps)
  next
    case False
    with "1.prems" have "drop j xs \<noteq> []" by simp
    with False "1.IH" "1.prems" show ?thesis
      by (simp add: range_step.simps [of j] chunks_nonempty py_slice_def add.commute)
  qed
qed

lemma map_slice_range_step:
  "0 < k \<Longrightarrow> map (\<lambda>i. py_slice xs i (i + k)) (range_step 0 (length xs) k) = chunks k xs"
  using map_slice_range_step_gen [of k "length xs" xs 0] by simp

lemma list_all2_eq_map: "list_all2 (\<lambda>x y. y = f x) xs ys \<Longrightarrow> ys = map f xs"
  by (induction xs arbitrary: ys) (auto simp: list_all2_Cons1)

lemma chunks_1: "chunks 1 xs = map (\<lambda>x. [x]) xs"
  by (induction xs) (simp_all add: chunks_nonempty)

end
