(* ===== verification/Sympy_Matrix.thy ===== *)
theory Sympy_Matrix
  imports Prelude
begin

text \<open>
  The part of sympy's \<open>Matrix\<close> type that \<open>src/Erasurecode/app.py\<close> uses,
  over Python's unbounded integers: construction from a list of rows, the
  product, \<open>row_join\<close>, \<open>zeros\<close> and \<open>tolist\<close>; the determinant and \<open>inv_mod\<close>
  are in the theory \<open>Sympy_Inverse\<close>. A matrix keeps its shape beside its entries, since sympy has
  matrices with rows and no columns (and the other way round). The
  definitions follow sympy's documented behaviour, including the exceptions
  (\<open>ShapeError\<close>). The
  well-formedness invariant \<open>mat_wf\<close> (entries agree with the shape) holds for
  every matrix an operation returns.
\<close>

record matrix =
  mrows :: nat
  mcols :: nat
  mentries :: "int list list"

definition mat_wf :: "matrix \<Rightarrow> bool" where
  "mat_wf A \<longleftrightarrow> length (mentries A) = mrows A \<and> list_all (\<lambda>r. length r = mcols A) (mentries A)"

text \<open>\<open>Matrix(rows)\<close> (sympy's \<open>_handle_creation_inputs\<close> for a list of lists):
  empty rows are skipped, so \<open>Matrix([])\<close>, \<open>Matrix([[]])\<close> and \<open>Matrix([[], []])\<close>
  are all 0 by 0; the remaining rows must have one length, or \<open>ValueError\<close> is
  raised.\<close>

definition Matrix :: "int list list \<Rightarrow> matrix res" where
  "Matrix rs =
     (let rows = filter (\<lambda>r. r \<noteq> []) rs in
      case rows of
        [] \<Rightarrow> Inr \<lparr>mrows = 0, mcols = 0, mentries = []\<rparr>
      | r # _ \<Rightarrow>
          if list_all (\<lambda>x. length x = length r) rows
          then Inr \<lparr>mrows = length rows, mcols = length r, mentries = rows\<rparr>
          else Inl (ValueError ''mismatched dimensions''))"

definition zeros :: "nat \<Rightarrow> nat \<Rightarrow> matrix" where
  "zeros r c = \<lparr>mrows = r, mcols = c, mentries = replicate r (replicate c 0)\<rparr>"

text \<open>
  A row vector times a matrix given by its rows and its number of columns, over
  any semiring: over \<open>int\<close> it is sympy's product, over \<open>8 word\<close> the
  fixed-width product that reduces every step modulo 256.
\<close>

definition vec_mat :: "'a::semiring_0 list \<Rightarrow> 'a list list \<Rightarrow> nat \<Rightarrow> 'a list" where
  "vec_mat v M c = map (\<lambda>j. sum_list (map2 (\<lambda>a row. a * row ! j) v M)) [0..<c]"

definition mat_mul :: "matrix \<Rightarrow> matrix \<Rightarrow> matrix res" where
  "mat_mul A B =
     (if mcols A \<noteq> mrows B then Inl ShapeError
      else Inr \<lparr>mrows = mrows A, mcols = mcols B,
                mentries = map (\<lambda>r. vec_mat r (mentries B) (mcols B)) (mentries A)\<rparr>)"

definition tolist :: "matrix \<Rightarrow> int list list" where
  "tolist A = mentries A"

text \<open>
  \<open>A.row_join(B)\<close>: rows of equal number are concatenated; a matrix with no
  columns is first reshaped to \<open>B\<close>'s number of rows; otherwise \<open>ShapeError\<close>.
\<close>

definition join_rows :: "matrix \<Rightarrow> matrix \<Rightarrow> matrix" where
  "join_rows A B = \<lparr>mrows = mrows A, mcols = mcols A + mcols B,
                    mentries = map2 (@) (mentries A) (mentries B)\<rparr>"

definition row_join :: "matrix \<Rightarrow> matrix \<Rightarrow> matrix res" where
  "row_join A B =
     (if mcols A = 0 \<and> mrows A \<noteq> mrows B
      then Inr (join_rows \<lparr>mrows = mrows B, mcols = 0, mentries = replicate (mrows B) []\<rparr> B)
      else if mrows A \<noteq> mrows B then Inl ShapeError
      else Inr (join_rows A B))"

subsection \<open>Shapes: every operation returns a well-formed matrix\<close>

lemma Matrix_wf: "Matrix rs = Inr A \<Longrightarrow> mat_wf A"
proof (cases "filter (\<lambda>r. r \<noteq> []) rs")
  case (Cons r rows)
  have "x \<in> set (r # rows) \<Longrightarrow> x \<in> set (filter (\<lambda>r. r \<noteq> []) rs)" for x
    using Cons by simp
  then show "Matrix rs = Inr A \<Longrightarrow> mat_wf A"
    using Cons by (auto simp: Matrix_def Let_def mat_wf_def list_all_iff split: if_splits)
qed (auto simp: Matrix_def mat_wf_def)

lemma Matrix_ok:
  "list_all (\<lambda>x. length x = c) rs \<Longrightarrow> rs \<noteq> [] \<Longrightarrow> 0 < c \<Longrightarrow>
   Matrix rs = Inr \<lparr>mrows = length rs, mcols = c, mentries = rs\<rparr>"
proof -
  assume rows: "list_all (\<lambda>x. length x = c) rs" and ne: "rs \<noteq> []" and c: "0 < c"
  then have "filter (\<lambda>r. r \<noteq> []) rs = rs"
    by (auto simp: list_all_iff filter_id_conv)
  with rows ne show ?thesis
    by (cases rs) (auto simp: Matrix_def list_all_iff)
qed

lemma Matrix_shape:
  "Matrix (r # rs) = Inr A \<Longrightarrow> r \<noteq> [] \<Longrightarrow> list_all (\<lambda>x. length x = length r) rs \<Longrightarrow>
   mrows A = Suc (length rs) \<and> mcols A = length r \<and> mentries A = r # rs"
  using Matrix_ok [of "length r" "r # rs"] by auto

lemma Matrix_empty_rows: "list_all (\<lambda>x. x = []) rs \<Longrightarrow> Matrix rs = Inr \<lparr>mrows = 0, mcols = 0, mentries = []\<rparr>"
  by (simp add: Matrix_def list_all_iff filter_empty_conv)

lemma zeros_wf [simp]: "mat_wf (zeros r c)"
  by (simp add: zeros_def mat_wf_def list_all_iff)

lemma length_vec_mat [simp]: "length (vec_mat v M c) = c"
  by (simp add: vec_mat_def)

lemma of_int_dot_col:
  "list_all (\<lambda>r. j < length r) M \<Longrightarrow>
   (of_int (sum_list (map2 (\<lambda>a row. a * row ! j) v M)) :: 'a::ring_1)
     = sum_list (map2 (\<lambda>a row. a * row ! j) (map of_int v) (map (map of_int) M))"
proof (induction v arbitrary: M)
  case Nil
  then show ?case by simp
next
  case (Cons a v)
  then show ?case by (cases M) simp_all
qed

text \<open>Reducing after the unbounded product is reducing at every step.\<close>

lemma of_int_vec_mat:
  "list_all (\<lambda>r. c \<le> length r) M \<Longrightarrow>
   map of_int (vec_mat v M c) = (vec_mat (map of_int v) (map (map of_int) M) c :: 'a::ring_1 list)"
  by (auto simp: vec_mat_def list_all_iff intro!: of_int_dot_col)
     (meson order_less_le_trans)

lemma mat_mul_wf:
  "mat_wf A \<Longrightarrow> mat_mul A B = Inr C \<Longrightarrow>
   mat_wf C \<and> mrows C = mrows A \<and> mcols C = mcols B"
  by (auto simp: mat_mul_def mat_wf_def list_all_iff split: if_splits)

lemma join_rows_wf:
  "mat_wf A \<Longrightarrow> mat_wf B \<Longrightarrow> mrows A = mrows B \<Longrightarrow> mat_wf (join_rows A B)"
  by (auto simp: join_rows_def mat_wf_def list_all_iff set_zip)

lemma row_join_wf:
  assumes "mat_wf A" "mat_wf B" "row_join A B = Inr C"
  shows "mat_wf C \<and> mrows C = mrows B \<and> mcols C = mcols A + mcols B"
proof (cases "mcols A = 0 \<and> mrows A \<noteq> mrows B")
  case True
  let ?Z = "\<lparr>mrows = mrows B, mcols = 0, mentries = replicate (mrows B) []\<rparr>"
  have "mat_wf ?Z"
    by (simp add: mat_wf_def list_all_iff)
  then have "mat_wf (join_rows ?Z B)"
    using assms(2) by (rule join_rows_wf) simp
  with True assms(3) show ?thesis
    by (auto simp: row_join_def join_rows_def)
next
  case False
  with assms(3) have eq: "mrows A = mrows B" and C: "C = join_rows A B"
    by (auto simp: row_join_def split: if_splits)
  from assms(1,2) eq have "mat_wf (join_rows A B)"
    by (rule join_rows_wf)
  with eq C show ?thesis
    by (simp add: join_rows_def)
qed

subsection \<open>Zero blocks\<close>

lemma dot_col_append:
  "list_all (\<lambda>r. length r = c) M \<Longrightarrow> length Z = length M \<Longrightarrow>
   sum_list (map2 (\<lambda>a row. a * row ! j) v (map2 (@) M Z)) =
   (if j < c then sum_list (map2 (\<lambda>a row. a * row ! j) v M)
    else sum_list (map2 (\<lambda>a row. a * row ! (j - c)) v (Z :: 'a::semiring_0 list list)))"
proof (induction v arbitrary: M Z)
  case Nil
  then show ?case by simp
next
  case (Cons a v)
  then show ?case by (cases M; cases Z) (auto simp: nth_append)
qed

lemma dot_col_zeros:
  "j < k \<Longrightarrow> sum_list (map2 (\<lambda>a row. a * row ! j) v (replicate n (replicate k (0 :: 'a::semiring_0)))) = 0"
proof (induction v arbitrary: n)
  case Nil
  then show ?case by simp
next
  case (Cons a v)
  then show ?case by (cases n) auto
qed

text \<open>Joining \<open>k\<close> zero columns to a matrix appends \<open>k\<close> zeros to every product row.\<close>

lemma vec_mat_join_zeros:
  assumes "list_all (\<lambda>r. length r = c) M"
  shows "vec_mat v (map2 (@) M (replicate (length M) (replicate k 0))) (c + k)
         = vec_mat v M c @ replicate k (0 :: 'a::semiring_0)"
proof -
  have lo: "map (\<lambda>j. sum_list (map2 (\<lambda>a row. a * row ! j) v (map2 (@) M (replicate (length M) (replicate k 0))))) [0..<c]
            = map (\<lambda>j. sum_list (map2 (\<lambda>a row. a * row ! j) v M)) [0..<c]"
    using assms by (intro map_cong) (simp_all add: dot_col_append)
  have hi: "map (\<lambda>j. sum_list (map2 (\<lambda>a row. a * row ! j) v (map2 (@) M (replicate (length M) (replicate k 0))))) [c..<c + k]
            = map (\<lambda>j. 0 :: 'a) [c..<c + k]"
    using assms by (intro map_cong) (simp_all add: dot_col_append dot_col_zeros less_diff_conv2)
  show ?thesis
    unfolding vec_mat_def upt_add_eq_append [OF le0] map_append lo hi
    by (simp add: map_replicate_const)
qed


subsection \<open>Associativity of the product\<close>

lemma sum_list_map2:
  "length v = n \<Longrightarrow> length M = n \<Longrightarrow> sum_list (map2 f v M) = (\<Sum>j<n. f (v ! j) (M ! j))"
proof -
  assume n: "length v = n" "length M = n"
  have "map2 f v M = map (\<lambda>j. f (v ! j) (M ! j)) [0..<n]"
    using n by (intro nth_equalityI) simp_all
  then show ?thesis
    by (simp add: interv_sum_list_conv_sum_set_nat atLeast0LessThan)
qed

lemma vec_mat_assoc:
  fixes v :: "'a::semiring_0 list"
  assumes lv: "length M = length v" and lN: "length N = c"
    and rows: "list_all (\<lambda>r. length r = c) M"
  shows "vec_mat (vec_mat v M c) N d = vec_mat v (map (\<lambda>r. vec_mat r N d) M) d"
  unfolding vec_mat_def
proof (intro map_cong refl)
  fix l assume "l \<in> set [0..<d]"
  then have l: "l < d" by simp
  let ?n = "length v"
  let ?g = "\<lambda>r. map (\<lambda>j. sum_list (map2 (\<lambda>a row. a * row ! j) r N)) [0..<d]"
  have row: "length (M ! i) = c" if "i < ?n" for i
    using rows that lv by (simp add: list_all_length)
  have "sum_list (map2 (\<lambda>a row. a * row ! l) (map (\<lambda>j. sum_list (map2 (\<lambda>a row. a * row ! j) v M)) [0..<c]) N)
        = (\<Sum>j<c. (\<Sum>i<?n. v ! i * M ! i ! j) * N ! j ! l)"
    using lv lN by (simp add: sum_list_map2 [of _ c N] sum_list_map2 [of v ?n M])
  also have "\<dots> = (\<Sum>i<?n. v ! i * (\<Sum>j<c. M ! i ! j * N ! j ! l))"
    by (simp add: sum_distrib_left sum_distrib_right mult.assoc sum.swap [of _ "{..<c}"])
  also have "\<dots> = (\<Sum>i<?n. v ! i * map ?g M ! i ! l)"
  proof (intro sum.cong refl)
    fix i assume "i \<in> {..<?n}"
    then have i: "i < ?n" by simp
    show "v ! i * (\<Sum>j<c. M ! i ! j * N ! j ! l) = v ! i * map ?g M ! i ! l"
      using i l lv row [OF i] lN by (simp add: sum_list_map2 [of "M ! i" c N])
  qed
  also have "\<dots> = sum_list (map2 (\<lambda>a row. a * row ! l) v (map ?g M))"
    using lv by (simp add: sum_list_map2 [of v ?n "map ?g M"])
  finally show "sum_list (map2 (\<lambda>a row. a * row ! l) (map (\<lambda>j. sum_list (map2 (\<lambda>a row. a * row ! j) v M)) [0..<c]) N)
      = sum_list (map2 (\<lambda>a row. a * row ! l) v (map ?g M))" .
qed

end
