(* ===== verification/Sympy_Inverse.thy ===== *)
theory Sympy_Inverse
  imports Sympy_Matrix
begin

text \<open>
  The inverse modulo \<open>m\<close> of a sympy \<open>Matrix\<close>, \<open>A.inv_mod(m)\<close>, which
  \<open>decode\<close> of \<open>src/Erasurecode/app.py\<close> (line 50) calls with \<open>m = 256\<close>:
  the determinant (Laplace expansion along the first row), minors, cofactors,
  the adjugate, \<open>mod_inverse\<close> and \<open>inv_mod\<close> itself, which raises
  \<open>NonSquareMatrixError\<close> or \<open>NonInvertibleMatrixError\<close> and otherwise
  returns the adjugate times the inverse of the determinant, reduced modulo
  \<open>m\<close>. The lemmas develop the determinant from its definition (a row swap
  negates it, equal rows make it 0, it can be expanded along any row and is
  invariant under transposition) up to \<open>A adj(A) = adj(A) A = det(A) I\<close>,
  from which \<open>inv_mod\<close> returns a two-sided inverse modulo \<open>m\<close> whenever it
  returns; modulo 256 it returns exactly when the determinant is odd.
\<close>

subsection \<open>Operations\<close>

definition drop_nth :: "nat \<Rightarrow> 'a list \<Rightarrow> 'a list" where
  "drop_nth j xs = take j xs @ drop (Suc j) xs"

text \<open>Laplace expansion along the first row; the empty matrix has determinant 1.\<close>

function det :: "int list list \<Rightarrow> int" where
  "det [] = 1"
| "det (r # rs) = sum_list (map (\<lambda>j. (-1) ^ j * r ! j * det (map (drop_nth j) rs)) [0..<length r])"
  by pat_completeness auto
termination
  by (relation "measure length") auto

definition minor :: "nat \<Rightarrow> nat \<Rightarrow> int list list \<Rightarrow> int list list" where
  "minor i j rs = map (drop_nth j) (drop_nth i rs)"

definition cofactor :: "nat \<Rightarrow> nat \<Rightarrow> int list list \<Rightarrow> int" where
  "cofactor i j rs = (-1) ^ (i + j) * det (minor i j rs)"

definition adjugate :: "nat \<Rightarrow> int list list \<Rightarrow> int list list" where
  "adjugate n rs = map (\<lambda>i. map (\<lambda>j. cofactor j i rs) [0..<n]) [0..<n]"

text \<open>sympy's \<open>mod_inverse(a, m)\<close>: the residue \<open>x\<close> in \<open>[0, m)\<close> with \<open>a * x = 1 (mod m)\<close>.\<close>

definition mod_inverse :: "int \<Rightarrow> int \<Rightarrow> int option" where
  "mod_inverse a m = find (\<lambda>x. (a * x) mod m = 1) [0..m - 1]"

definition inv_mod :: "matrix \<Rightarrow> int \<Rightarrow> matrix res" where
  "inv_mod A m =
     (if mrows A \<noteq> mcols A then Inl NonSquareMatrixError
      else case mod_inverse (det (mentries A)) m of
        None \<Rightarrow> Inl NonInvertibleMatrixError
      | Some d \<Rightarrow>
          Inr \<lparr>mrows = mcols A, mcols = mcols A,
               mentries = map (map (\<lambda>x. d * x mod m)) (adjugate (mcols A) (mentries A))\<rparr>)"

text \<open>Auxiliary notions of the proofs: square lists of rows, the swap of two
  adjacent rows, the sign and the double deletion of a two-step expansion, the
  expansion along the first column, the transpose and the identity matrix.\<close>

definition sqm :: "int list list \<Rightarrow> bool" where
  "sqm rs = list_all (\<lambda>r. length r = length rs) rs"

definition swap_rows :: "nat \<Rightarrow> 'a list \<Rightarrow> 'a list" where
  "swap_rows p xs = xs[p := xs ! Suc p, Suc p := xs ! p]"

definition sgn2 :: "nat \<Rightarrow> nat \<Rightarrow> int" where
  "sgn2 j l = (-1) ^ (j + (if l < j then l else l - 1))"

definition del2 :: "nat \<Rightarrow> nat \<Rightarrow> 'a list \<Rightarrow> 'a list" where
  "del2 j l xs = drop_nth (min j l) (drop_nth (max j l) xs)"

definition eye :: "nat \<Rightarrow> int list list" where
  "eye n = map (\<lambda>i. map (\<lambda>j. if i = j then 1 else 0) [0..<n]) [0..<n]"

definition transpose_rows :: "'a list list \<Rightarrow> 'a list list" where
  "transpose_rows rs = map (\<lambda>j. map (\<lambda>r. r ! j) rs) [0..<length rs]"

definition det_col0 :: "int list list \<Rightarrow> int" where
  "det_col0 rs = (\<Sum>i<length rs. (-1) ^ i * rs ! i ! 0 * det (map tl (drop_nth i rs)))"

subsection \<open>Lists with one element deleted, square matrices, transposition\<close>

lemma length_drop_nth [simp]: "j < length xs \<Longrightarrow> length (drop_nth j xs) = length xs - 1"
  by (simp add: drop_nth_def)

lemma nth_drop_nth:
  "j < length xs \<Longrightarrow> l < length xs - 1 \<Longrightarrow> drop_nth j xs ! l = xs ! (if l < j then l else Suc l)"
  by (auto simp: drop_nth_def nth_append min_def)

lemma drop_nth_0 [simp]: "drop_nth 0 = tl"
  by (simp add: fun_eq_iff drop_nth_def drop_Suc)

lemma drop_nth_Cons_Suc [simp]: "drop_nth (Suc i) (r # xs) = r # drop_nth i xs"
  by (simp add: drop_nth_def)

lemma drop_nth_Suc_nth_0: "x \<noteq> [] \<Longrightarrow> drop_nth (Suc j) x ! 0 = x ! 0"
  by (cases x) (simp_all add: drop_nth_def)

lemma drop_nth_drop_nth:
  assumes "j \<le> l" "Suc l < length xs"
  shows "drop_nth l (drop_nth j xs) = drop_nth j (drop_nth (Suc l) xs)"
proof (rule nth_equalityI)
  show "length (drop_nth l (drop_nth j xs)) = length (drop_nth j (drop_nth (Suc l) xs))"
    using assms by simp
next
  fix i assume "i < length (drop_nth l (drop_nth j xs))"
  with assms show "drop_nth l (drop_nth j xs) ! i = drop_nth j (drop_nth (Suc l) xs) ! i"
    by (simp add: nth_drop_nth)
qed

lemma drop_nth_update [simp]: "drop_nth i (xs[i := a]) = drop_nth i xs"
  by (simp add: drop_nth_def)

lemma drop_nth_map: "drop_nth i (map f xs) = map f (drop_nth i xs)"
  by (simp add: drop_nth_def take_map drop_map)

lemma tl_drop_nth_Suc: "tl (drop_nth (Suc j) x) = drop_nth j (tl x)"
  by (cases x) (simp_all add: drop_nth_def)

lemma set_drop_nth: "set (drop_nth i xs) \<subseteq> set xs"
  by (auto simp: drop_nth_def dest: in_set_takeD in_set_dropD)

lemma sum_skip:
  assumes "j < n"
  shows "(\<Sum>l<n - 1. h (if l < j then l else Suc l)) = (\<Sum>l<n. if l = j then 0 else h l)"
  using assms
proof (induction n)
  case 0
  then show ?case by simp
next
  case (Suc n)
  show ?case
  proof (cases "j = n")
    case True
    then show ?thesis by simp
  next
    case False
    with Suc.prems have j: "j < n" by simp
    then obtain n' where n: "n = Suc n'" by (cases n) auto
    have "(\<Sum>l<Suc n - 1. h (if l < j then l else Suc l)) = (\<Sum>l<n - 1. h (if l < j then l else Suc l)) + h n"
      using j n by simp
    also have "\<dots> = (\<Sum>l<n. if l = j then 0 else h l) + h n"
      using Suc.IH [OF j] by simp
    finally show ?thesis
      using False by simp
  qed
qed

lemma sum_mod_mult:
  "(\<Sum>j\<in>A. a j * (b j mod m)) mod m = (\<Sum>j\<in>A. a j * b j) mod (m :: int)"
proof -
  have "(\<Sum>j\<in>A. a j * (b j mod m)) mod m = (\<Sum>j\<in>A. a j * (b j mod m) mod m) mod m"
    by (simp add: mod_sum_eq)
  also have "\<dots> = (\<Sum>j\<in>A. a j * b j mod m) mod m"
    by (simp add: mod_mult_right_eq)
  also have "\<dots> = (\<Sum>j\<in>A. a j * b j) mod m"
    by (simp add: mod_sum_eq)
  finally show ?thesis .
qed

lemma del2_commute: "del2 j l = del2 l j"
  by (simp add: del2_def fun_eq_iff min.commute max.commute)

lemma sgn2_commute: "l \<noteq> j \<Longrightarrow> sgn2 l j = - sgn2 j l"
proof -
  have neg: "0 < k \<Longrightarrow> (-1::int) ^ (k - 1) = - ((-1) ^ k)" for k
    by (cases k) auto
  assume "l \<noteq> j"
  then consider "l < j" | "j < l" by linarith
  then show ?thesis
  proof cases
    case 1
    then have "sgn2 l j = (-1) ^ (l + j - 1)" by (simp add: sgn2_def)
    also have "\<dots> = - ((-1) ^ (j + l))" using 1 neg [of "l + j"] by (simp add: add.commute)
    finally show ?thesis using 1 by (simp add: sgn2_def)
  next
    case 2
    then have "sgn2 j l = (-1) ^ (j + l - 1)" by (simp add: sgn2_def)
    also have "\<dots> = - ((-1) ^ (l + j))" using 2 neg [of "j + l"] by (simp add: add.commute)
    finally show ?thesis using 2 by (simp add: sgn2_def)
  qed
qed

lemma sqm_Cons: "sqm (r # rs) \<longleftrightarrow> length r = Suc (length rs) \<and> list_all (\<lambda>x. length x = Suc (length rs)) rs"
  by (simp add: sqm_def)

lemma swap_rows_Cons_Suc [simp]: "swap_rows (Suc p) (r # rs) = r # swap_rows p rs"
  by (simp add: swap_rows_def)

lemma swap_rows_0 [simp]: "swap_rows 0 (r0 # r1 # rs) = r1 # r0 # rs"
  by (simp add: swap_rows_def)

lemma length_swap_rows [simp]: "length (swap_rows p xs) = length xs"
  by (simp add: swap_rows_def)

lemma map_swap_rows: "Suc p < length xs \<Longrightarrow> map f (swap_rows p xs) = swap_rows p (map f xs)"
  by (simp add: swap_rows_def map_update)

lemma sqm_swap_rows: "sqm rs \<Longrightarrow> Suc p < length rs \<Longrightarrow> sqm (swap_rows p rs)"
  by (auto simp: sqm_def list_all_iff swap_rows_def dest!: set_update_subset_insert [THEN subsetD])

lemma swap_rows_nth:
  "Suc p < length xs \<Longrightarrow> l < length xs \<Longrightarrow>
   swap_rows p xs ! l = xs ! (if l = p then Suc p else if l = Suc p then p else l)"
  by (simp add: swap_rows_def nth_list_update)

lemma sqm_update: "sqm rs \<Longrightarrow> k < length rs \<Longrightarrow> sqm (rs[i := rs ! k])"
  by (auto simp: sqm_def list_all_iff dest!: set_update_subset_insert [THEN subsetD])

lemma sqm_minor:
  assumes "sqm rs" "i < length rs" "j < length rs"
  shows "sqm (minor i j rs)"
  using assms set_drop_nth [of i rs] by (auto simp: sqm_def list_all_iff minor_def)

lemma mat_wf_sqm: "mat_wf A \<Longrightarrow> mrows A = mcols A \<Longrightarrow> sqm (mentries A)"
  by (simp add: mat_wf_def sqm_def)

lemma length_transpose_rows [simp]: "length (transpose_rows rs) = length rs"
  by (simp add: transpose_rows_def)

lemma transpose_rows_nth [simp]: "i < length rs \<Longrightarrow> j < length rs \<Longrightarrow> transpose_rows rs ! i ! j = rs ! j ! i"
  by (simp add: transpose_rows_def)

lemma sqm_trans: "sqm (transpose_rows rs)"
  by (simp add: sqm_def transpose_rows_def list_all_iff)

subsection \<open>The determinant: row swaps, equal rows, expansion along any row, transposition\<close>

lemma det_Cons_sum:
  "det (r # rs) = (\<Sum>j<length r. (-1) ^ j * r ! j * det (map (drop_nth j) rs))"
  by (simp add: interv_sum_list_conv_sum_set_nat atLeast0LessThan)

lemma det_Cons_Cons:
  assumes sq: "sqm (r0 # r1 # rs)"
  shows "det (r0 # r1 # rs) =
    (\<Sum>j<length r0. \<Sum>l<length r0. if l = j then 0
       else sgn2 j l * r0 ! j * r1 ! l * det (map (del2 j l) rs))"
proof -
  let ?n = "length r0"
  have len: "length r0 = ?n" "length r1 = ?n" "\<And>x. x \<in> set rs \<Longrightarrow> length x = ?n"
    using sq by (auto simp: sqm_def list_all_iff)
  have inner: "det (drop_nth j r1 # map (drop_nth j) rs) =
      (\<Sum>l<?n. if l = j then 0 else (-1) ^ (if l < j then l else l - 1) * r1 ! l * det (map (del2 j l) rs))"
    if j: "j < ?n" for j
  proof -
    have "det (drop_nth j r1 # map (drop_nth j) rs) =
        (\<Sum>l<?n - 1. (-1) ^ l * drop_nth j r1 ! l * det (map (drop_nth l) (map (drop_nth j) rs)))"
      using j len by (simp add: det_Cons_sum del: det.simps)
    also have "\<dots> = (\<Sum>l<?n - 1. (\<lambda>l'. (-1) ^ (if l' < j then l' else l' - 1) * r1 ! l' * det (map (del2 j l') rs))
                          (if l < j then l else Suc l))"
    proof (rule sum.cong [OF refl])
      fix l assume "l \<in> {..<?n - 1}"
      then have l: "l < ?n - 1" by simp
      have rows: "map (drop_nth l) (map (drop_nth j) rs) = map (del2 j (if l < j then l else Suc l)) rs"
      proof (cases "l < j")
        case True
        then show ?thesis by (simp add: del2_def)
      next
        case False
        have "drop_nth l (drop_nth j x) = drop_nth j (drop_nth (Suc l) x)" if "x \<in> set rs" for x
          using drop_nth_drop_nth [of j l x] False l len(3) [OF that] by simp
        then show ?thesis using False by (simp add: del2_def)
      qed
      show "(-1) ^ l * drop_nth j r1 ! l * det (map (drop_nth l) (map (drop_nth j) rs)) =
          (\<lambda>l'. (-1) ^ (if l' < j then l' else l' - 1) * r1 ! l' * det (map (del2 j l') rs)) (if l < j then l else Suc l)"
        using j l len by (simp only: rows) (simp add: nth_drop_nth)
    qed
    also have "\<dots> = (\<Sum>l<?n. if l = j then 0 else (-1) ^ (if l < j then l else l - 1) * r1 ! l * det (map (del2 j l) rs))"
      using sum_skip [OF j] .
    finally show ?thesis .
  qed
  have "det (r0 # r1 # rs) = (\<Sum>j<?n. (-1) ^ j * r0 ! j * det (drop_nth j r1 # map (drop_nth j) rs))"
    by (simp add: det_Cons_sum del: det.simps)
  also have "\<dots> = (\<Sum>j<?n. \<Sum>l<?n. if l = j then 0
       else sgn2 j l * r0 ! j * r1 ! l * det (map (del2 j l) rs))"
  proof (rule sum.cong [OF refl])
    fix j assume "j \<in> {..<?n}"
    then have j: "j < ?n" by simp
    have "(-1) ^ j * r0 ! j * det (drop_nth j r1 # map (drop_nth j) rs) =
        (\<Sum>l<?n. (-1) ^ j * r0 ! j * (if l = j then 0 else (-1) ^ (if l < j then l else l - 1) * r1 ! l * det (map (del2 j l) rs)))"
      by (simp only: inner [OF j] sum_distrib_left)
    also have "\<dots> = (\<Sum>l<?n. if l = j then 0 else sgn2 j l * r0 ! j * r1 ! l * det (map (del2 j l) rs))"
      by (rule sum.cong [OF refl]) (simp add: sgn2_def power_add)
    finally show "(-1) ^ j * r0 ! j * det (drop_nth j r1 # map (drop_nth j) rs) =
        (\<Sum>l<?n. if l = j then 0 else sgn2 j l * r0 ! j * r1 ! l * det (map (del2 j l) rs))" .
  qed
  finally show ?thesis .
qed

lemma det_swap01:
  assumes sq: "sqm (r0 # r1 # rs)"
  shows "det (r1 # r0 # rs) = - det (r0 # r1 # rs)"
proof -
  let ?n = "length r0"
  let ?t = "\<lambda>a b j l. if l = j then 0 else sgn2 j l * a ! j * b ! l * det (map (del2 j l) rs)"
  have sq': "sqm (r1 # r0 # rs)" and len: "length r1 = ?n"
    using sq by (auto simp: sqm_def)
  have "det (r1 # r0 # rs) = (\<Sum>j<?n. \<Sum>l<?n. ?t r1 r0 j l)"
    using det_Cons_Cons [OF sq'] len by (simp del: det.simps)
  also have "\<dots> = (\<Sum>l<?n. \<Sum>j<?n. ?t r1 r0 j l)"
    by (rule sum.swap)
  also have "\<dots> = (\<Sum>l<?n. \<Sum>j<?n. - ?t r0 r1 l j)"
  proof (intro sum.cong refl)
    fix l j
    show "?t r1 r0 j l = - ?t r0 r1 l j"
      by (cases "l = j") (simp_all add: sgn2_commute [of l j] del2_commute [of l j] del: det.simps)
  qed
  also have "\<dots> = - det (r0 # r1 # rs)"
    using det_Cons_Cons [OF sq] by (simp add: sum_negf del: det.simps)
  finally show ?thesis .
qed

lemma det_swap_rows:
  "sqm rs \<Longrightarrow> Suc p < length rs \<Longrightarrow> det (swap_rows p rs) = - det rs"
proof (induction p arbitrary: rs)
  case 0
  then obtain r0 r1 rs' where rs: "rs = r0 # r1 # rs'"
    by (cases rs; cases "tl rs") auto
  show ?case
    unfolding rs swap_rows_0 by (rule det_swap01) (use 0 rs in simp)
next
  case (Suc p)
  then obtain r rs' where rs: "rs = r # rs'" by (cases rs) auto
  have len: "length r = Suc (length rs')" and rows: "list_all (\<lambda>x. length x = Suc (length rs')) rs'"
    using Suc.prems rs by (auto simp: sqm_Cons)
  have p: "Suc p < length rs'" using Suc.prems rs by simp
  have ih: "det (swap_rows p (map (drop_nth j) rs')) = - det (map (drop_nth j) rs')" if j: "j < length r" for j
  proof (rule Suc.IH)
    show "sqm (map (drop_nth j) rs')"
      using rows j len by (simp add: sqm_def list_all_iff)
  qed (use p in simp)
  have "det (swap_rows (Suc p) rs) = (\<Sum>j<length r. (-1) ^ j * r ! j * det (swap_rows p (map (drop_nth j) rs')))"
    using p by (simp add: rs det_Cons_sum map_swap_rows del: det.simps)
  also have "\<dots> = (\<Sum>j<length r. - ((-1) ^ j * r ! j * det (map (drop_nth j) rs')))"
    by (rule sum.cong [OF refl]) (simp add: ih del: det.simps)
  also have "\<dots> = - det rs"
    by (simp add: rs det_Cons_sum sum_negf del: det.simps)
  finally show ?case .
qed

lemma det_equal_rows:
  "sqm rs \<Longrightarrow> i < k \<Longrightarrow> k < length rs \<Longrightarrow> rs ! i = rs ! k \<Longrightarrow> det rs = 0"
proof (induction k arbitrary: rs)
  case 0
  then show ?case by simp
next
  case (Suc k)
  have sw: "det (swap_rows k rs) = - det rs"
    using det_swap_rows Suc.prems by blast
  show ?case
  proof (cases "i = k")
    case True
    then have "swap_rows k rs = rs"
      using Suc.prems by (simp add: swap_rows_def) (metis list_update_id)
    then show ?thesis using sw by simp
  next
    case False
    have "det (swap_rows k rs) = 0"
    proof (rule Suc.IH)
      show "sqm (swap_rows k rs)" using Suc.prems by (simp add: sqm_swap_rows)
      show "swap_rows k rs ! i = swap_rows k rs ! k"
        using Suc.prems False by (simp add: swap_rows_nth)
    qed (use Suc.prems False in simp_all)
    then show ?thesis using sw by simp
  qed
qed

lemma drop_nth_swap_rows:
  assumes "Suc i < length xs"
  shows "drop_nth i (swap_rows i xs) = drop_nth (Suc i) xs"
proof (rule nth_equalityI)
  show "length (drop_nth i (swap_rows i xs)) = length (drop_nth (Suc i) xs)"
    using assms by simp
next
  fix l assume "l < length (drop_nth i (swap_rows i xs))"
  with assms show "drop_nth i (swap_rows i xs) ! l = drop_nth (Suc i) xs ! l"
    by (auto simp: nth_drop_nth swap_rows_nth le_less_Suc_eq)
qed

lemma det_row_expansion:
  "sqm rs \<Longrightarrow> i < length rs \<Longrightarrow>
   det rs = (\<Sum>j<length rs. (-1) ^ (i + j) * rs ! i ! j * det (minor i j rs))"
proof (induction i arbitrary: rs)
  case 0
  then obtain r rs' where rs: "rs = r # rs'" by (cases rs) auto
  have "length r = length rs" using 0 rs by (simp add: sqm_Cons)
  then show ?case
    by (simp add: rs det_Cons_sum minor_def del: det.simps)
next
  case (Suc i)
  let ?rs = "swap_rows i rs"
  have sw: "det ?rs = - det rs"
    using det_swap_rows Suc.prems by blast
  have "det ?rs = (\<Sum>j<length rs. (-1) ^ (i + j) * ?rs ! i ! j * det (minor i j ?rs))"
    using Suc.IH [of ?rs] Suc.prems by (simp add: sqm_swap_rows del: det.simps)
  also have "\<dots> = (\<Sum>j<length rs. - ((-1) ^ (Suc i + j) * rs ! Suc i ! j * det (minor (Suc i) j rs)))"
    using Suc.prems by (intro sum.cong refl) (simp add: swap_rows_nth minor_def drop_nth_swap_rows del: det.simps)
  finally show ?case
    using sw by (simp add: sum_negf del: det.simps)
qed

lemma det_col0_step:
  assumes sq: "sqm (r # rs')"
    and IH: "\<And>M. sqm M \<Longrightarrow> length M < Suc (length rs') \<Longrightarrow> M \<noteq> [] \<Longrightarrow> det M = det_col0 M"
  shows "det (r # rs') = det_col0 (r # rs')"
proof -
  let ?n = "length rs'"
  let ?D = "\<lambda>i j. det (map (\<lambda>x. drop_nth j (tl x)) (drop_nth i rs'))"
  have lr: "length r = Suc ?n" and rows: "\<And>x. x \<in> set rs' \<Longrightarrow> length x = Suc ?n"
    using sq by (auto simp: sqm_Cons list_all_iff)
  have minor_j: "det (map (drop_nth (Suc j)) rs') = (\<Sum>i<?n. (-1) ^ i * rs' ! i ! 0 * ?D i j)"
    if j: "j < ?n" for j
  proof -
    have "sqm (map (drop_nth (Suc j)) rs')"
      using j rows by (simp add: sqm_def list_all_iff)
    then have "det (map (drop_nth (Suc j)) rs') = det_col0 (map (drop_nth (Suc j)) rs')"
      using IH j by (cases rs') (simp_all del: det.simps)
    also have "\<dots> = (\<Sum>i<?n. (-1) ^ i * rs' ! i ! 0 * ?D i j)"
      unfolding det_col0_def length_map
    proof (intro sum.cong refl)
      fix i assume "i \<in> {..<?n}"
      then have i: "i < ?n" by simp
      have "length (rs' ! i) = Suc ?n" using i rows by simp
      then have ne: "rs' ! i \<noteq> []" by auto
      show "(-1) ^ i * map (drop_nth (Suc j)) rs' ! i ! 0 * det (map tl (drop_nth i (map (drop_nth (Suc j)) rs')))
               = (-1) ^ i * rs' ! i ! 0 * ?D i j"
        using i j by (simp add: drop_nth_Suc_nth_0 [OF ne] drop_nth_map tl_drop_nth_Suc o_def del: det.simps)
    qed
    finally show ?thesis .
  qed
  have row_i: "det (tl r # map tl (drop_nth i rs')) = (\<Sum>j<?n. (-1) ^ j * r ! Suc j * ?D i j)" for i
    using lr by (simp add: det_Cons_sum nth_tl drop_nth_map o_def del: det.simps)
  have "det (r # rs') = r ! 0 * det (map tl rs') + (\<Sum>j<?n. (-1) ^ Suc j * r ! Suc j * det (map (drop_nth (Suc j)) rs'))"
    by (simp only: det_Cons_sum lr sum.lessThan_Suc_shift) (simp del: det.simps)
  also have "\<dots> = r ! 0 * det (map tl rs') + (\<Sum>j<?n. \<Sum>i<?n. (-1) ^ Suc j * r ! Suc j * ((-1) ^ i * rs' ! i ! 0 * ?D i j))"
    by (simp add: minor_j sum_distrib_left del: det.simps)
  also have "\<dots> = r ! 0 * det (map tl rs') + (\<Sum>i<?n. \<Sum>j<?n. (-1) ^ Suc i * rs' ! i ! 0 * ((-1) ^ j * r ! Suc j * ?D i j))"
    by (subst sum.swap) (simp add: power_add mult_ac del: det.simps)
  also have "\<dots> = det_col0 (r # rs')"
    unfolding det_col0_def length_Cons sum.lessThan_Suc_shift
    by (simp add: row_i sum_distrib_left del: det.simps)
  finally show ?thesis .
qed

lemma det_trans_step:
  assumes sq: "sqm rs" and ne: "rs \<noteq> []"
    and IH: "\<And>M. sqm M \<Longrightarrow> length M < length rs \<Longrightarrow> det (transpose_rows M) = det M"
  shows "det (transpose_rows rs) = det_col0 rs"
proof -
  obtain n where n: "length rs = Suc n" using ne by (cases rs) auto
  have rows: "\<And>x. x \<in> set rs \<Longrightarrow> length x = Suc n"
    using sq n by (simp add: sqm_def list_all_iff)
  have tr: "transpose_rows rs = map (\<lambda>r. r ! 0) rs # map (\<lambda>j. map (\<lambda>r. r ! Suc j) rs) [0..<n]"
    using n by (simp add: transpose_rows_def upt_conv_Cons map_Suc_upt [symmetric] del: upt_Suc)
  have minor_i: "map (drop_nth i) (map (\<lambda>j. map (\<lambda>r. r ! Suc j) rs) [0..<n]) = transpose_rows (map tl (drop_nth i rs))"
    if i: "i < Suc n" for i
  proof (rule nth_equalityI)
    fix c assume "c < length (map (drop_nth i) (map (\<lambda>j. map (\<lambda>r. r ! Suc j) rs) [0..<n]))"
    then have c: "c < n" by simp
    have "map (\<lambda>r. r ! Suc c) (drop_nth i rs) = map (\<lambda>r. tl r ! c) (drop_nth i rs)"
      using c rows set_drop_nth [of i rs] by (intro map_cong refl) (auto simp: nth_tl)
    then show "map (drop_nth i) (map (\<lambda>j. map (\<lambda>r. r ! Suc j) rs) [0..<n]) ! c = transpose_rows (map tl (drop_nth i rs)) ! c"
      using c i n by (simp add: transpose_rows_def drop_nth_map)
  qed (use i n in \<open>simp add: transpose_rows_def\<close>)
  have ih: "det (transpose_rows (map tl (drop_nth i rs))) = det (map tl (drop_nth i rs))" if i: "i < Suc n" for i
  proof (rule IH)
    show "sqm (map tl (drop_nth i rs))"
      using i rows n set_drop_nth [of i rs] by (auto simp: sqm_def list_all_iff)
  qed (use i n in simp)
  have "det (transpose_rows rs) = (\<Sum>i<length (map (\<lambda>r. r ! 0) rs). (-1) ^ i * map (\<lambda>r. r ! 0) rs ! i
          * det (map (drop_nth i) (map (\<lambda>j. map (\<lambda>r. r ! Suc j) rs) [0..<n])))"
    unfolding tr by (rule det_Cons_sum)
  also have "\<dots> = det_col0 rs"
    unfolding det_col0_def length_map
  proof (intro sum.cong refl)
    fix i assume "i \<in> {..<length rs}"
    then have i: "i < Suc n" using n by simp
    show "(-1) ^ i * map (\<lambda>r. r ! 0) rs ! i * det (map (drop_nth i) (map (\<lambda>j. map (\<lambda>r. r ! Suc j) rs) [0..<n]))
        = (-1) ^ i * rs ! i ! 0 * det (map tl (drop_nth i rs))"
      using i n by (simp only: minor_i [OF i] ih [OF i] nth_map)
  qed
  finally show ?thesis .
qed

lemma det_col0_trans:
  "sqm rs \<Longrightarrow> (rs \<noteq> [] \<longrightarrow> det rs = det_col0 rs) \<and> det (transpose_rows rs) = det rs"
proof (induction "length rs" arbitrary: rs rule: less_induct)
  case less
  show ?case
  proof (cases rs)
    case Nil
    then show ?thesis by (simp add: transpose_rows_def)
  next
    case (Cons r rs')
    have col: "det rs = det_col0 rs"
      unfolding Cons using less.prems Cons
      by (intro det_col0_step) (use less.hyps in \<open>simp_all del: det.simps\<close>)
    have "det (transpose_rows rs) = det_col0 rs"
      using less.prems Cons by (intro det_trans_step) (use less.hyps in \<open>simp_all del: det.simps\<close>)
    with col show ?thesis by simp
  qed
qed

lemma det_trans: "sqm rs \<Longrightarrow> det (transpose_rows rs) = det rs"
  using det_col0_trans by blast

lemma minor_trans:
  assumes sq: "sqm rs" and i: "i < length rs" and j: "j < length rs"
  shows "minor i j (transpose_rows rs) = transpose_rows (minor j i rs)"
proof (rule nth_equalityI)
  show "length (minor i j (transpose_rows rs)) = length (transpose_rows (minor j i rs))"
    using i j by (simp add: minor_def)
next
  fix a assume "a < length (minor i j (transpose_rows rs))"
  then have a: "a < length rs - 1" using i by (simp add: minor_def)
  let ?c = "if a < i then a else Suc a"
  have rows: "\<And>r. r \<in> set (drop_nth j rs) \<Longrightarrow> length r = length rs"
    using sq set_drop_nth [of j rs] by (auto simp: sqm_def list_all_iff)
  have "minor i j (transpose_rows rs) ! a = map (\<lambda>r. r ! ?c) (drop_nth j rs)"
    using a i j by (simp add: minor_def nth_drop_nth transpose_rows_def drop_nth_map)
  also have "\<dots> = map (\<lambda>r. drop_nth i r ! a) (drop_nth j rs)"
    using a i rows by (intro map_cong refl) (simp add: nth_drop_nth)
  also have "\<dots> = transpose_rows (minor j i rs) ! a"
    using a i j by (simp add: minor_def transpose_rows_def)
  finally show "minor i j (transpose_rows rs) ! a = transpose_rows (minor j i rs) ! a" .
qed

lemma det_zero_row: "det (replicate n 0 # rs) = 0"
proof -
  have "(\<Sum>j\<leftarrow>[0..<n]. (-1) ^ j * replicate n 0 ! j * det (map (drop_nth j) rs))
        = (\<Sum>j\<leftarrow>[0..<n]. (0 :: int))"
    by (rule arg_cong [where f = sum_list], rule map_cong) simp_all
  then show ?thesis by simp
qed

subsection \<open>Cofactors: the adjugate is a two-sided inverse up to the determinant\<close>

lemma cofactor_sum:
  assumes sq: "sqm rs" and k: "k < length rs" and i: "i < length rs"
  shows "(\<Sum>j<length rs. rs ! k ! j * cofactor i j rs) = (if k = i then det rs else 0)"
proof (cases "k = i")
  case True
  then show ?thesis
    using det_row_expansion [OF sq i]
    by (simp add: cofactor_def mult.left_commute mult.assoc del: det.simps)
next
  case False
  let ?rs = "rs[i := rs ! k]"
  have sq': "sqm ?rs" using sq k by (rule sqm_update)
  have "det ?rs = 0"
  proof (cases "i < k")
    case True
    then show ?thesis
      using det_equal_rows [OF sq', of i k] k by simp
  next
    case False
    with \<open>k \<noteq> i\<close> have "k < i" by simp
    then show ?thesis
      using det_equal_rows [OF sq', of k i] i by simp
  qed
  moreover have "det ?rs = (\<Sum>j<length rs. rs ! k ! j * cofactor i j rs)"
    using det_row_expansion [OF sq', of i] i
    by (simp add: cofactor_def minor_def mult.left_commute mult.assoc del: det.simps)
  ultimately show ?thesis
    using False by simp
qed

lemma cofactor_trans:
  "sqm rs \<Longrightarrow> i < length rs \<Longrightarrow> j < length rs \<Longrightarrow> cofactor i j (transpose_rows rs) = cofactor j i rs"
  by (simp add: cofactor_def minor_trans det_trans sqm_minor add.commute del: det.simps)

lemma cofactor_sum_col:
  assumes sq: "sqm rs" and k: "k < length rs" and i: "i < length rs"
  shows "(\<Sum>j<length rs. cofactor j i rs * rs ! j ! k) = (if k = i then det rs else 0)"
proof -
  have "(\<Sum>j<length rs. cofactor j i rs * rs ! j ! k) = (\<Sum>j<length (transpose_rows rs). transpose_rows rs ! k ! j * cofactor i j (transpose_rows rs))"
    using sq k i by (intro sum.cong) (simp_all add: cofactor_trans mult.commute)
  also have "\<dots> = (if k = i then det rs else 0)"
    using cofactor_sum [OF sqm_trans, of k rs i] k i det_trans [OF sq] by simp
  finally show ?thesis .
qed

lemma vec_mat_adjugate_mod:
  assumes sq: "sqm rs" and k: "k < length rs"
  shows "map (\<lambda>x. x mod m) (vec_mat (rs ! k) (map (map (\<lambda>x. e * x mod m)) (adjugate (length rs) rs)) (length rs))
       = map (\<lambda>i. (if k = i then e * det rs else 0) mod m) [0..<length rs]"
proof -
  let ?n = "length rs"
  have row: "length (rs ! k) = ?n" using sq k by (simp add: sqm_def list_all_length)
  have "(\<Sum>j<?n. rs ! k ! j * (map (map (\<lambda>x. e * x mod m)) (adjugate ?n rs) ! j ! i)) mod m
        = (if k = i then e * det rs else 0) mod m" if i: "i < ?n" for i
  proof -
    have "(\<Sum>j<?n. rs ! k ! j * (map (map (\<lambda>x. e * x mod m)) (adjugate ?n rs) ! j ! i)) mod m
          = (\<Sum>j<?n. rs ! k ! j * (e * cofactor i j rs mod m)) mod m"
      using i by (simp add: adjugate_def)
    also have "\<dots> = (e * (\<Sum>j<?n. rs ! k ! j * cofactor i j rs)) mod m"
      by (simp add: sum_mod_mult sum_distrib_left mult.left_commute)
    finally show ?thesis
      using cofactor_sum [OF sq k i] by simp
  qed
  moreover have "length (map (map (\<lambda>x. e * x mod m)) (adjugate ?n rs)) = ?n"
    by (simp add: adjugate_def)
  ultimately show ?thesis
    unfolding vec_mat_def map_map o_def
    by (intro map_cong refl) (simp add: sum_list_map2 [OF row] del: det.simps)
qed

lemma adjugate_vec_mat_mod:
  assumes sq: "sqm rs" and i: "i < length rs"
  shows "map (\<lambda>x. x mod m) (vec_mat (map (map (\<lambda>x. e * x mod m)) (adjugate (length rs) rs) ! i) rs (length rs))
       = map (\<lambda>k. (if k = i then e * det rs else 0) mod m) [0..<length rs]"
proof -
  let ?n = "length rs"
  have row: "length (map (map (\<lambda>x. e * x mod m)) (adjugate ?n rs) ! i) = ?n"
    using i by (simp add: adjugate_def)
  have "(\<Sum>j<?n. (map (map (\<lambda>x. e * x mod m)) (adjugate ?n rs) ! i ! j) * rs ! j ! k) mod m
        = (if k = i then e * det rs else 0) mod m" if k: "k < ?n" for k
  proof -
    have "(\<Sum>j<?n. (map (map (\<lambda>x. e * x mod m)) (adjugate ?n rs) ! i ! j) * rs ! j ! k) mod m
          = (\<Sum>j<?n. rs ! j ! k * (e * cofactor j i rs mod m)) mod m"
      using i by (simp add: adjugate_def mult.commute)
    also have "\<dots> = (e * (\<Sum>j<?n. cofactor j i rs * rs ! j ! k)) mod m"
      by (simp add: sum_mod_mult sum_distrib_left mult_ac)
    finally show ?thesis
      using cofactor_sum_col [OF sq k i] by simp
  qed
  then show ?thesis
    unfolding vec_mat_def map_map o_def
    by (intro map_cong refl) (simp add: sum_list_map2 [OF row refl] del: det.simps)
qed

subsection \<open>The inverse of a residue modulo 256\<close>

lemma mod_inverse_Some:
  "mod_inverse a m = Some d \<Longrightarrow> 0 \<le> d \<and> d < m \<and> (a * d) mod m = 1"
  by (auto simp: mod_inverse_def find_Some_iff)

lemma mod_inverse_0: "mod_inverse 0 m = None"
  by (simp add: mod_inverse_def find_None_iff)

lemma mod_inverse_odd:
  assumes "odd (a :: int)"
  shows "\<exists>x. mod_inverse a 256 = Some x"
proof -
  let ?f = "\<lambda>x. (a * x) mod 256"
  have "coprime a (2 ^ 8)"
    using assms by (simp only: coprime_power_right_iff) simp
  then have cop: "coprime a 256"
    by simp
  have "inj_on ?f {0..255}"
  proof (rule inj_onI)
    fix x y assume x: "x \<in> {0..255::int}" and y: "y \<in> {0..255::int}" and eq: "?f x = ?f y"
    then have "(256::int) dvd a * (x - y)"
      by (simp add: mod_eq_dvd_iff right_diff_distrib)
    with cop have dv: "(256::int) dvd x - y"
      by (simp add: coprime_dvd_mult_right_iff coprime_commute)
    have bound: "\<bar>x - y\<bar> < 256"
      using x y by (simp add: abs_less_iff)
    show "x = y"
    proof (rule ccontr)
      assume "x \<noteq> y"
      then have "x - y \<noteq> 0" by simp
      then have "\<bar>256\<bar> \<le> \<bar>x - y\<bar>"
        using dv by (rule dvd_imp_le_int)
      with bound show False by simp
    qed
  qed
  moreover have "?f ` {0..255} \<subseteq> {0..255}" by auto
  ultimately have onto: "?f ` {0..255} = {0..255}"
    by (simp add: endo_inj_surj)
  have "(1::int) \<in> ?f ` {0..255}"
    unfolding onto by simp
  then obtain x where x: "x \<in> {0..255::int}" and fx: "?f x = 1"
    by (auto simp: image_iff)
  have "find (\<lambda>x. (a * x) mod 256 = 1) [0..256 - 1] \<noteq> None"
    unfolding find_None_iff using x fx by auto
  then show ?thesis
    by (simp add: mod_inverse_def)
qed

lemma mod_inverse_even:
  assumes "even (a :: int)"
  shows "mod_inverse a 256 = None"
proof -
  have "(a * x) mod 256 \<noteq> 1" for x
  proof
    assume "(a * x) mod 256 = 1"
    moreover have "2 dvd (a * x) mod 256"
      using assms by (intro dvd_mod) simp_all
    ultimately show False by simp
  qed
  then show ?thesis
    by (simp add: mod_inverse_def find_None_iff)
qed

subsection \<open>\<open>inv_mod\<close>: shape and inverse\<close>

lemma inv_mod_wf:
  assumes "inv_mod A m = Inr B" "0 < m"
  shows "mat_wf B \<and> mrows B = mcols A \<and> mcols B = mcols A \<and> mrows A = mcols A
         \<and> list_all (list_all (\<lambda>x. 0 \<le> x \<and> x < m)) (mentries B)"
  using assms
  by (auto simp: inv_mod_def mat_wf_def adjugate_def list_all_iff
           split: if_splits option.splits)

lemma vec_mat_eye:
  "length v = n \<Longrightarrow> vec_mat v (map (map of_int) (eye n)) n = (v :: 'a::ring_1 list)"
  by (intro nth_equalityI) (simp_all add: vec_mat_def eye_def sum_list_map2 [of v n] if_distrib cong: if_cong)


lemma inv_mod_shape:
  assumes wf: "mat_wf A" and B: "inv_mod A m = Inr B"
  obtains e where "mrows A = mcols A" "length (mentries A) = mrows A" "(e * det (mentries A)) mod m = 1"
    "B = \<lparr>mrows = mrows A, mcols = mrows A,
          mentries = map (map (\<lambda>x. e * x mod m)) (adjugate (mrows A) (mentries A))\<rparr>"
proof -
  have sq: "mrows A = mcols A" and len: "length (mentries A) = mrows A"
    using wf B by (auto simp: inv_mod_def mat_wf_def split: if_splits)
  obtain e where e: "mod_inverse (det (mentries A)) m = Some e"
    using B sq by (auto simp: inv_mod_def split: option.splits)
  have "(e * det (mentries A)) mod m = 1"
    using mod_inverse_Some [OF e] by (simp add: mult.commute)
  moreover have "B = \<lparr>mrows = mrows A, mcols = mrows A,
          mentries = map (map (\<lambda>x. e * x mod m)) (adjugate (mrows A) (mentries A))\<rparr>"
    using B sq e by (simp add: inv_mod_def)
  ultimately show ?thesis using that sq len by blast
qed

lemma inv_mod_right_inverse:
  assumes wf: "mat_wf A" and B: "inv_mod A m = Inr B"
  shows "\<exists>P. mat_mul A B = Inr P \<and> map (map (\<lambda>x. x mod m)) (mentries P) = eye (mrows A)"
proof -
  let ?rs = "mentries A" and ?n = "mrows A"
  obtain e where sq: "mrows A = mcols A" and len: "length ?rs = ?n" and de: "(e * det ?rs) mod m = 1"
    and B': "B = \<lparr>mrows = ?n, mcols = ?n, mentries = map (map (\<lambda>x. e * x mod m)) (adjugate ?n ?rs)\<rparr>"
    using inv_mod_shape [OF wf B] by blast
  have rows: "map (\<lambda>x. x mod m) (vec_mat (?rs ! k) (map (map (\<lambda>x. e * x mod m)) (adjugate ?n ?rs)) ?n)
              = map (\<lambda>i. if k = i then 1 else 0) [0..<?n]" if k: "k < ?n" for k
    using vec_mat_adjugate_mod [OF mat_wf_sqm [OF wf sq], of k m e] k len de
    by (simp del: det.simps)
  have "map (map (\<lambda>x. x mod m)) (map (\<lambda>r. vec_mat r (map (map (\<lambda>x. e * x mod m)) (adjugate ?n ?rs)) ?n) ?rs)
        = eye ?n"
    unfolding eye_def using len rows
    by (intro nth_equalityI) simp_all
  then show ?thesis
    using sq by (simp add: B' mat_mul_def)
qed

lemma inv_mod_left_inverse:
  assumes wf: "mat_wf A" and B: "inv_mod A m = Inr B"
  shows "\<exists>Q. mat_mul B A = Inr Q \<and> map (map (\<lambda>x. x mod m)) (mentries Q) = eye (mrows A)"
proof -
  let ?rs = "mentries A" and ?n = "mrows A"
  obtain e where sq: "mrows A = mcols A" and len: "length ?rs = ?n" and de: "(e * det ?rs) mod m = 1"
    and B': "B = \<lparr>mrows = ?n, mcols = ?n, mentries = map (map (\<lambda>x. e * x mod m)) (adjugate ?n ?rs)\<rparr>"
    using inv_mod_shape [OF wf B] by blast
  have rows: "map (\<lambda>x. x mod m) (vec_mat (map (map (\<lambda>x. e * x mod m)) (adjugate ?n ?rs) ! i) ?rs ?n)
              = map (\<lambda>k. if i = k then 1 else 0) [0..<?n]" if i: "i < ?n" for i
    using adjugate_vec_mat_mod [OF mat_wf_sqm [OF wf sq], of i m e] i len de
    by (simp add: eq_commute [of _ i] del: det.simps)
  have "map (map (\<lambda>x. x mod m)) (map (\<lambda>r. vec_mat r ?rs ?n) (map (map (\<lambda>x. e * x mod m)) (adjugate ?n ?rs)))
        = eye ?n"
    unfolding eye_def using rows
    by (intro nth_equalityI) (simp_all add: adjugate_def)
  then show ?thesis
    using sq by (simp add: B' mat_mul_def)
qed

text \<open>C31. \<open>inv_mod(256)\<close> is the inverse modulo 256 that the design asks of
  it, for a square matrix of any size: when the determinant is even it raises
  \<open>NonInvertibleMatrixError\<close>, and when it is odd it returns a matrix \<open>B\<close>
  with \<open>A B = B A = I\<close> modulo 256.\<close>

theorem inv_mod_inverse:
  assumes "mat_wf A" "mrows A = mcols A"
  shows "(even (det (mentries A)) \<longrightarrow> inv_mod A 256 = Inl NonInvertibleMatrixError)
       \<and> (odd (det (mentries A)) \<longrightarrow>
            (\<exists>B P Q. inv_mod A 256 = Inr B \<and> mat_mul A B = Inr P \<and> mat_mul B A = Inr Q
                 \<and> map (map (\<lambda>x. x mod 256)) (mentries P) = eye (mrows A)
                 \<and> map (map (\<lambda>x. x mod 256)) (mentries Q) = eye (mrows A)))"
proof (intro conjI impI)
  assume "even (det (mentries A))"
  then show "inv_mod A 256 = Inl NonInvertibleMatrixError"
    using assms(2) by (simp add: inv_mod_def mod_inverse_even del: det.simps)
next
  assume "odd (det (mentries A))"
  then obtain e where "mod_inverse (det (mentries A)) 256 = Some e"
    using mod_inverse_odd by blast
  then obtain B where B: "inv_mod A 256 = Inr B"
    using assms(2) by (simp add: inv_mod_def del: det.simps)
  then show "\<exists>B P Q. inv_mod A 256 = Inr B \<and> mat_mul A B = Inr P \<and> mat_mul B A = Inr Q
                 \<and> map (map (\<lambda>x. x mod 256)) (mentries P) = eye (mrows A)
                 \<and> map (map (\<lambda>x. x mod 256)) (mentries Q) = eye (mrows A)"
    using inv_mod_right_inverse [OF assms(1) B] inv_mod_left_inverse [OF assms(1) B] by blast
qed

theorem inv_mod_inverse_witness:
  "mat_wf \<lparr>mrows = 3, mcols = 3, mentries = [[1, 2, 3], [0, 1, 4], [5, 6, 0]]\<rparr>
   \<and> odd (det [[1, 2, 3], [0, 1, 4], [5, 6, 0]])
   \<and> (\<exists>B P Q. inv_mod \<lparr>mrows = 3, mcols = 3, mentries = [[1, 2, 3], [0, 1, 4], [5, 6, 0]]\<rparr> 256 = Inr B
        \<and> mat_mul \<lparr>mrows = 3, mcols = 3, mentries = [[1, 2, 3], [0, 1, 4], [5, 6, 0]]\<rparr> B = Inr P
        \<and> mat_mul B \<lparr>mrows = 3, mcols = 3, mentries = [[1, 2, 3], [0, 1, 4], [5, 6, 0]]\<rparr> = Inr Q
        \<and> map (map (\<lambda>x. x mod 256)) (mentries P) = eye 3
        \<and> map (map (\<lambda>x. x mod 256)) (mentries Q) = eye 3)"
proof -
  have d: "det [[1, 2, 3], [0, 1, 4], [5, 6, 0]] = 1"
    by code_simp
  have wf: "mat_wf \<lparr>mrows = 3, mcols = 3, mentries = [[1, 2, 3], [0, 1, 4], [5, 6, 0]]\<rparr>"
    by code_simp
  show ?thesis
    using inv_mod_inverse [OF wf] wf d by simp
qed

end
