(* ===== verification/Codec.thy ===== *)
theory Codec
  imports Sympy_Inverse
begin

text \<open>
  The class \<open>SecureErasureCode\<close> of \<open>src/Erasurecode/app.py\<close> (lines 9-69):
  its instance state as the record \<open>sec_code\<close> (\<open>self.k\<close>, \<open>self.m\<close>,
  \<open>self.n\<close>, \<open>self.parity_matrix\<close>), the constructor with the random parity
  matrix, \<open>encode\<close>, \<open>decode\<close> and \<open>pad_parity_matrix\<close>. The random
  generator is an argument: \<open>rnd i\<close> is the value of the \<open>i\<close>-th call of
  \<open>randint(0, 255)\<close>. The digest \<open>sha256(_).digest()\<close> is an argument
  \<open>h\<close> of \<open>decode\<close>; the lemmas that need it to tell inputs apart assume it
  injective. \<open>decode\<close> mutates \<open>self.parity_matrix\<close> through
  \<open>pad_parity_matrix\<close>, so it returns the new state beside its result.
\<close>

unbundle bit_operations_syntax

record sec_code =
  sec_k :: nat
  sec_m :: nat
  sec_n :: nat
  parity_matrix :: matrix

type_synonym rng = "nat \<Rightarrow> byte"

definition generate_parity_matrix :: "nat \<Rightarrow> nat \<Rightarrow> rng \<Rightarrow> matrix res" where
  "generate_parity_matrix k m rnd =
     Matrix (map (\<lambda>i. map (\<lambda>j. uint (rnd (i * m + j))) [0..<m]) [0..<k])"

definition SecureErasureCode :: "nat \<Rightarrow> nat \<Rightarrow> rng \<Rightarrow> sec_code res" where
  "SecureErasureCode k m rnd =
     bind_res (generate_parity_matrix k m rnd)
       (\<lambda>pm. Inr \<lparr>sec_k = k, sec_m = m, sec_n = k + m, parity_matrix = pm\<rparr>)"

text \<open>One iteration of the loop of \<open>encode\<close> (lines 30-34).\<close>

definition encode_block :: "sec_code \<Rightarrow> bytes \<Rightarrow> bytes res" where
  "encode_block st block =
     bind_res (Matrix [map uint block]) (\<lambda>block_matrix.
     bind_res (mat_mul block_matrix (parity_matrix st)) (\<lambda>prod.
     bind_res (py_index0 (tolist prod)) (\<lambda>parity_block.
     Inr (block @ map (\<lambda>x. word_of_int (x mod 256)) parity_block))))"

fun encode_loop :: "sec_code \<Rightarrow> bytes \<Rightarrow> nat list \<Rightarrow> bytes list res" where
  "encode_loop st data [] = Inr []"
| "encode_loop st data (i # is) =
     bind_res (encode_block st (py_slice data i (i + sec_k st))) (\<lambda>b.
     bind_res (encode_loop st data is) (\<lambda>bs. Inr (b # bs)))"

definition encode :: "sec_code \<Rightarrow> bytes \<Rightarrow> bytes list res" where
  "encode st data =
     (if sec_k st = 0 then Inl ZeroDivisionError
      else if length data mod sec_k st \<noteq> 0
      then Inl (ValueError ''Data length must be divisible by k'')
      else encode_loop st data (range_step 0 (length data) (sec_k st)))"

text \<open>\<open>pad_parity_matrix\<close> (lines 65-69): joins \<open>k - m\<close> rows of \<open>k\<close> zeros to the
  right of the parity matrix and stores the result in the instance.\<close>

definition pad_parity_matrix :: "sec_code \<Rightarrow> sec_code res" where
  "pad_parity_matrix st =
     (if sec_m st < sec_k st then
        let num_padding_rows = sec_k st - sec_m st;
            padding_matrix = zeros num_padding_rows (sec_k st)
        in bind_res (row_join (parity_matrix st) padding_matrix)
             (\<lambda>pm. Inr (st\<lparr>parity_matrix := pm\<rparr>))
      else Inr st)"

text \<open>Lines 56-57: the candidate segment of one block, from the first row of
  the product of the data matrix and the inverse, XOR-ed into the stored parity.\<close>

definition reconstruct :: "matrix \<Rightarrow> matrix \<Rightarrow> bytes \<Rightarrow> bytes res" where
  "reconstruct data_matrix inverse_matrix encoded_block_parity =
     bind_res (mat_mul data_matrix inverse_matrix) (\<lambda>prod.
     bind_res (py_index0 (tolist prod)) (\<lambda>reconstructed_parity.
     py_bytes (map2 (\<lambda>a b. uint a XOR b) encoded_block_parity reconstructed_parity)))"

text \<open>The loop of lines 53-63, with the list \<open>decoded_blocks\<close> as accumulator;
  \<open>Inr None\<close> is the \<open>return None\<close> of a failed integrity check.\<close>

fun decode_loop ::
  "(bytes \<Rightarrow> 'd) \<Rightarrow> sec_code \<Rightarrow> matrix \<Rightarrow> matrix \<Rightarrow> bytes list \<Rightarrow> bytes list \<Rightarrow> bytes list option res"
where
  "decode_loop h st data_matrix inverse_matrix acc [] = Inr (Some acc)"
| "decode_loop h st data_matrix inverse_matrix acc (encoded_block # rest) =
     (let encoded_block_data = take (sec_k st) encoded_block;
          encoded_block_parity = drop (sec_k st) encoded_block
      in bind_res (reconstruct data_matrix inverse_matrix encoded_block_parity) (\<lambda>reconstructed_block.
           if h encoded_block_data = h reconstructed_block
           then decode_loop h st data_matrix inverse_matrix (acc @ [reconstructed_block]) rest
           else Inr None))"

text \<open>\<open>decode\<close> (lines 37-63). The state returned is the instance after the call:
  \<open>pad_parity_matrix\<close> may have replaced its parity matrix, and stays replaced when
  a later step raises.\<close>

definition decode :: "(bytes \<Rightarrow> 'd) \<Rightarrow> sec_code \<Rightarrow> bytes list \<Rightarrow> bytes list option res \<times> sec_code" where
  "decode h st encoded_blocks =
     (case py_index0 encoded_blocks of
        Inl e \<Rightarrow> (Inl e, st)
      | Inr first \<Rightarrow>
          if sec_k st + sec_m st = 0 then (Inl ZeroDivisionError, st)
          else if length first mod (sec_k st + sec_m st) \<noteq> 0
          then (Inl (ValueError ''Encoded block size must be divisible by k+m''), st)
          else
            (let data_blocks = map (take (sec_k st)) encoded_blocks in
             case Matrix (map (map uint) data_blocks) of
               Inl e \<Rightarrow> (Inl e, st)
             | Inr data_matrix \<Rightarrow>
                 (case (if sec_m st < sec_k st then pad_parity_matrix st else Inr st) of
                    Inl e \<Rightarrow> (Inl e, st)
                  | Inr st' \<Rightarrow>
                      (case inv_mod (parity_matrix st') 256 of
                         Inl e \<Rightarrow> (Inl e, st')
                       | Inr inverse_matrix \<Rightarrow>
                           (decode_loop h st' data_matrix inverse_matrix [] encoded_blocks, st')))))"

subsection \<open>The invariant of an instance\<close>

text \<open>
  \<open>n = k + m\<close>; the parity matrix is well formed with \<open>k\<close> rows of bytes; it has
  \<open>m\<close> columns (none when \<open>k = 0\<close>, since \<open>Matrix([])\<close> is 0 by 0); when
  \<open>m = 0\<close>, every \<open>decode\<close> joins \<open>k\<close> more zero columns, so the number of
  columns is then a multiple of \<open>k\<close>.
\<close>

definition sec_wf :: "sec_code \<Rightarrow> bool" where
  "sec_wf st \<longleftrightarrow>
     sec_n st = sec_k st + sec_m st \<and> mat_wf (parity_matrix st)
     \<and> mrows (parity_matrix st) = sec_k st
     \<and> list_all (list_all (\<lambda>x. 0 \<le> x \<and> x < 256)) (mentries (parity_matrix st))
     \<and> (if sec_m st = 0 then sec_k st dvd mcols (parity_matrix st)
        else mcols (parity_matrix st) = (if sec_k st = 0 then 0 else sec_m st))"

text \<open>The parity segment of a data segment: the vector-matrix product modulo 256.\<close>

definition parity :: "sec_code \<Rightarrow> bytes \<Rightarrow> bytes" where
  "parity st seg =
     map (\<lambda>x. word_of_int (x mod 256))
       (vec_mat (map uint seg) (mentries (parity_matrix st)) (mcols (parity_matrix st)))"

text \<open>A small instance used by the witnesses: \<open>k = 2\<close>, \<open>m = 1\<close>, parity column \<open>(3, 5)\<close>.\<close>

definition example_code :: sec_code where
  "example_code = \<lparr>sec_k = 2, sec_m = 1, sec_n = 3,
     parity_matrix = \<lparr>mrows = 2, mcols = 1, mentries = [[3], [5]]\<rparr>\<rparr>"

text \<open>Instances for the witnesses: \<open>k = m = 1\<close> with the matrix \<open>[[1]]\<close>
  and with \<open>[[c]]\<close> (\<open>scale_code c\<close>), and \<open>k = 2\<close>, \<open>m = 0\<close> with the 2 by 2 zero matrix: the
  instance \<open>SecureErasureCode(2, 0)\<close> becomes after its first \<open>decode\<close>, which
  joins a 2 by 2 zero block to its 0 by 0 matrix (\<open>decode_grows_matrix_witness\<close>).\<close>

definition identity_code :: sec_code where
  "identity_code = \<lparr>sec_k = 1, sec_m = 1, sec_n = 2,
     parity_matrix = \<lparr>mrows = 1, mcols = 1, mentries = [[1]]\<rparr>\<rparr>"

definition scale_code :: "int \<Rightarrow> sec_code" where
  "scale_code c = \<lparr>sec_k = 1, sec_m = 1, sec_n = 2,
     parity_matrix = \<lparr>mrows = 1, mcols = 1, mentries = [[c]]\<rparr>\<rparr>"

definition no_parity_code :: sec_code where
  "no_parity_code = \<lparr>sec_k = 2, sec_m = 0, sec_n = 2,
     parity_matrix = \<lparr>mrows = 2, mcols = 2, mentries = [[0, 0], [0, 0]]\<rparr>\<rparr>"

subsection \<open>Construction\<close>

lemma generate_parity_matrix_shape:
  "\<exists>P. generate_parity_matrix k m rnd = Inr P \<and> mat_wf P
       \<and> (if k = 0 \<or> m = 0 then P = \<lparr>mrows = 0, mcols = 0, mentries = []\<rparr>
          else mrows P = k \<and> mcols P = m)
       \<and> list_all (list_all (\<lambda>x. 0 \<le> x \<and> x < 256)) (mentries P)"
proof (cases "k = 0 \<or> m = 0")
  case True
  then have "list_all (\<lambda>x. x = []) (map (\<lambda>i. map (\<lambda>j. uint (rnd (i * m + j))) [0..<m]) [0..<k])"
    by (auto simp: list_all_iff)
  then show ?thesis
    using True by (simp add: generate_parity_matrix_def Matrix_empty_rows mat_wf_def)
next
  case False
  let ?rows = "map (\<lambda>i. map (\<lambda>j. uint (rnd (i * m + j))) [0..<m]) [0..<k]"
  have "list_all (\<lambda>x. length x = m) ?rows" and "?rows \<noteq> []"
    using False by (simp_all add: list_all_iff)
  then have "generate_parity_matrix k m rnd = Inr \<lparr>mrows = k, mcols = m, mentries = ?rows\<rparr>"
    unfolding generate_parity_matrix_def using False by (simp add: Matrix_ok)
  moreover have "list_all (list_all (\<lambda>x. 0 \<le> x \<and> x < 256)) ?rows"
    using uint_lt2p [where 'a = 8] by (simp add: list_all_iff)
  ultimately show ?thesis
    using False by (simp add: mat_wf_def list_all_iff)
qed

subsection \<open>Encoding\<close>

lemma encode_block_ok:
  assumes "sec_wf st" "0 < sec_k st" "length block = sec_k st"
  shows "encode_block st block = Inr (block @ parity st block)"
proof -
  have "Matrix [map uint block] = Inr \<lparr>mrows = 1, mcols = sec_k st, mentries = [map uint block]\<rparr>"
    using assms(2,3) by (simp add: Matrix_ok)
  with assms(1) show ?thesis
    by (simp add: encode_block_def mat_mul_def tolist_def parity_def sec_wf_def)
qed

lemma encode_loop_map:
  "list_all (\<lambda>i. encode_block st (py_slice data i (i + sec_k st)) = Inr (f (py_slice data i (i + sec_k st)))) is
   \<Longrightarrow> encode_loop st data is = Inr (map (\<lambda>i. f (py_slice data i (i + sec_k st))) is)"
  by (induction "is") simp_all

lemma encode_as_chunks:
  assumes "0 < sec_k st" "sec_k st dvd length data"
    and "\<And>seg. length seg = sec_k st \<Longrightarrow> encode_block st seg = Inr (f seg)"
  shows "encode st data = Inr (map f (chunks (sec_k st) data))"
proof -
  let ?k = "sec_k st" and ?is = "range_step 0 (length data) (sec_k st)"
  have sl: "map (\<lambda>i. py_slice data i (i + ?k)) ?is = chunks ?k data"
    using assms(1) by (rule map_slice_range_step)
  have "list_all (\<lambda>seg. length seg = ?k) (chunks ?k data)"
    using assms(2) by (simp add: list_all_iff chunks_length)
  then have "list_all (\<lambda>i. length (py_slice data i (i + ?k)) = ?k) ?is"
    by (simp add: sl [symmetric] list_all_iff)
  then have "list_all (\<lambda>i. encode_block st (py_slice data i (i + ?k)) = Inr (f (py_slice data i (i + ?k)))) ?is"
    by (simp add: list_all_iff assms(3))
  then have "encode_loop st data ?is = Inr (map (\<lambda>i. f (py_slice data i (i + ?k))) ?is)"
    by (rule encode_loop_map)
  also have "map (\<lambda>i. f (py_slice data i (i + ?k))) ?is = map f (chunks ?k data)"
    by (simp add: sl [symmetric])
  finally show ?thesis
    using assms(1,2) by (simp add: encode_def dvd_eq_mod_eq_0)
qed

lemma SecureErasureCode_wf:
  "k = 0 \<or> 0 < m \<Longrightarrow>
   \<exists>st. SecureErasureCode k m rnd = Inr st \<and> sec_wf st \<and> sec_k st = k \<and> sec_m st = m"
  using generate_parity_matrix_shape [of k m rnd]
  by (auto simp: SecureErasureCode_def sec_wf_def split: if_splits)

lemma length_parity [simp]: "length (parity st seg) = mcols (parity_matrix st)"
  by (simp add: parity_def)

lemma word_of_int_mod_256 [simp]: "(word_of_int (x mod 256) :: byte) = word_of_int x"
  by (simp add: word_of_int_eq_iff take_bit_eq_mod)

text \<open>C1. \<open>encode\<close> on data whose length is a multiple of \<open>k\<close> frames each
  consecutive \<open>k\<close>-byte segment, in order, followed by its parity segment.\<close>

theorem encode_correct:
  assumes "sec_wf st" "0 < sec_k st" "sec_k st dvd length data"
  shows "encode st data = Inr (map (\<lambda>seg. seg @ parity st seg) (chunks (sec_k st) data))"
  using assms(2,3) by (rule encode_as_chunks) (simp add: encode_block_ok assms)

theorem encode_correct_witness:
  "sec_wf example_code \<and> 0 < sec_k example_code \<and> sec_k example_code dvd length [1, 2, 3, 4 :: byte]
   \<and> encode example_code [1, 2, 3, 4]
       = Inr (map (\<lambda>seg. seg @ parity example_code seg) (chunks (sec_k example_code) [1, 2, 3, 4]))
   \<and> encode example_code [1, 2, 3, 4] = Inr [[1, 2, 13], [3, 4, 29]]"
proof -
  have wf: "sec_wf example_code" and k: "0 < sec_k example_code"
    and d: "sec_k example_code dvd length [1, 2, 3, 4 :: byte]"
    by (simp_all add: example_code_def sec_wf_def mat_wf_def)
  have "encode example_code [1, 2, 3, 4]
       = Inr (map (\<lambda>seg. seg @ parity example_code seg) (chunks (sec_k example_code) [1, 2, 3, 4]))"
    by (rule encode_correct [OF wf k d])
  moreover have "map (\<lambda>seg. seg @ parity example_code seg) (chunks (sec_k example_code) [1, 2, 3, 4 :: byte])
                 = [[1, 2, 13], [3, 4, 29]]"
    by (simp add: example_code_def chunks.simps parity_def vec_mat_def)
  ultimately show ?thesis using wf k d by simp
qed

subsection \<open>Decoding\<close>

lemma data_matrix_ok:
  assumes "list_all (\<lambda>b. k \<le> length b) blocks" "blocks \<noteq> []" "0 < k"
  shows "Matrix (map (map uint \<circ> take k) blocks)
         = Inr \<lparr>mrows = length blocks, mcols = k, mentries = map (map uint \<circ> take k) blocks\<rparr>"
proof -
  have "list_all (\<lambda>x. length x = k) (map (map uint \<circ> take k) blocks)"
    using assms(1) by (auto simp: list_all_iff min_def intro: antisym)
  with assms(2,3) show ?thesis by (simp add: Matrix_ok)
qed

text \<open>What \<open>pad_parity_matrix\<close> does when it is called (\<open>m < k\<close>): with parity
  columns (\<open>m > 0\<close>) the row counts \<open>k\<close> and \<open>k - m\<close> differ and \<open>row_join\<close>
  raises; with none (\<open>m = 0\<close>) it joins a \<open>k\<close> by \<open>k\<close> zero block.\<close>

lemma pad_parity_matrix_cases:
  assumes "sec_wf st" "sec_m st < sec_k st"
  shows "pad_parity_matrix st =
           (if sec_m st = 0
            then Inr (st\<lparr>parity_matrix := join_rows (parity_matrix st) (zeros (sec_k st) (sec_k st))\<rparr>)
            else Inl ShapeError)"
  using assms
  by (auto simp: pad_parity_matrix_def row_join_def sec_wf_def zeros_def Let_def)

lemma pad_parity_matrix_wf:
  assumes "sec_wf st" "pad_parity_matrix st = Inr st'"
  shows "sec_wf st' \<and> sec_k st' = sec_k st \<and> sec_m st' = sec_m st \<and> sec_n st' = sec_n st"
proof (cases "sec_m st < sec_k st")
  case True
  with assms have m0: "sec_m st = 0"
    and st': "st' = st\<lparr>parity_matrix := join_rows (parity_matrix st) (zeros (sec_k st) (sec_k st))\<rparr>"
    by (simp_all add: pad_parity_matrix_cases split: if_splits)
  have "mrows (zeros (sec_k st) (sec_k st)) = mrows (parity_matrix st)"
    using assms(1) by (simp add: sec_wf_def zeros_def)
  with assms(1) have "mat_wf (join_rows (parity_matrix st) (zeros (sec_k st) (sec_k st)))"
    by (intro join_rows_wf) (simp_all add: sec_wf_def)
  with assms(1) m0 st' show ?thesis
    by (auto simp: sec_wf_def join_rows_def zeros_def list_all_iff set_zip)
next
  case False
  with assms show ?thesis by (simp add: pad_parity_matrix_def)
qed

lemma decode_state:
  "snd (decode h st blocks) = st \<or> pad_parity_matrix st = Inr (snd (decode h st blocks))"
  by (auto simp: decode_def Let_def split: sum.splits if_splits)

lemma pad_parity_matrix_fields:
  "pad_parity_matrix st = Inr st' \<Longrightarrow>
   sec_k st' = sec_k st \<and> sec_m st' = sec_m st \<and> sec_n st' = sec_n st"
  by (auto simp: pad_parity_matrix_def Let_def bind_res_def split: if_splits sum.splits)

lemma decode_k [simp]: "sec_k (snd (decode h st blocks)) = sec_k st"
  using decode_state [of h st blocks] pad_parity_matrix_fields by metis

text \<open>A result of \<open>decode\<close> is a result of its loop, run on the state after padding.\<close>

lemma decode_Inr:
  "fst (decode h st blocks) = Inr r \<Longrightarrow>
   \<exists>dm im. decode_loop h (snd (decode h st blocks)) dm im [] blocks = Inr r"
  by (auto simp: decode_def Let_def split: sum.splits if_splits)

text \<open>The loop returns a list exactly when every block reconstructs and passes its
  digest comparison; the list is then the reconstructed blocks, in order.\<close>

lemma decode_loop_Some_iff:
  "decode_loop h st dm im acc ebs = Inr (Some out) \<longleftrightarrow>
   (\<exists>rbs. list_all2 (\<lambda>eb rb. reconstruct dm im (drop (sec_k st) eb) = Inr rb
                              \<and> h (take (sec_k st) eb) = h rb) ebs rbs
          \<and> out = acc @ rbs)"
proof (induction ebs arbitrary: acc)
  case Nil
  then show ?case by auto
next
  case (Cons eb ebs)
  show ?case
  proof (cases "reconstruct dm im (drop (sec_k st) eb)")
    case (Inl e)
    then show ?thesis by (simp add: list_all2_Cons1)
  next
    case (Inr rb)
    then show ?thesis
      using Cons.IH [of "acc @ [rb]"] by (auto simp: list_all2_Cons1)
  qed
qed

text \<open>C2. When \<open>decode\<close> returns a list of blocks (and the digest tells inputs
  apart), that list is the data segments of the blocks it was given, in order:
  whatever it accepts, it returns unaltered.\<close>

theorem decode_verified:
  assumes "inj h" "fst (decode h st blocks) = Inr (Some out)"
  shows "out = map (take (sec_k st)) blocks"
proof -
  from decode_Inr [OF assms(2)] obtain dm im
    where "decode_loop h (snd (decode h st blocks)) dm im [] blocks = Inr (Some out)"
    by blast
  then obtain rbs where
    all: "list_all2 (\<lambda>eb rb. reconstruct dm im (drop (sec_k st) eb) = Inr rb
                            \<and> h (take (sec_k st) eb) = h rb) blocks rbs"
    and out: "out = rbs"
    by (auto simp: decode_loop_Some_iff)
  from all have "list_all2 (\<lambda>eb rb. rb = take (sec_k st) eb) blocks rbs"
    by (rule list_all2_mono) (use assms(1) in \<open>auto dest: injD\<close>)
  then show ?thesis
    using out by (simp add: list_all2_eq_map)
qed

theorem decode_verified_witness:
  "inj (id :: bytes \<Rightarrow> bytes)
   \<and> fst (decode (id :: bytes \<Rightarrow> bytes) identity_code [[0, 0], [7, 7]]) = Inr (Some [[0], [7]])
   \<and> [[0], [7]] = map (take (sec_k identity_code)) [[0, 0], [7, 7 :: byte]]"
proof -
  have run: "fst (decode (id :: bytes \<Rightarrow> bytes) identity_code [[0, 0], [7, 7]]) = Inr (Some [[0], [7]])"
    by code_simp
  have "[[0], [7]] = map (take (sec_k identity_code)) [[0, 0], [7, 7 :: byte]]"
    by (rule decode_verified [OF inj_on_id run])
  with run show ?thesis by simp
qed

text \<open>When \<open>pad_parity_matrix\<close> raises, \<open>decode\<close> of a block set that passes the
  size check and builds its data matrix raises the same exception and leaves the
  instance unchanged.\<close>

lemma decode_pad_Inl:
  assumes "pad_parity_matrix st = Inl e" "sec_m st < sec_k st" "blocks \<noteq> []"
    and "(sec_k st + sec_m st) dvd length (hd blocks)"
    and "list_all (\<lambda>b. sec_k st \<le> length b) blocks"
  shows "decode h st blocks = (Inl e, st)"
proof -
  have first: "py_index0 blocks = Inr (hd blocks)"
    using assms(3) by (cases blocks) simp_all
  from assms(1,2,4) show ?thesis
    by (simp add: decode_def Let_def first data_matrix_ok [OF assms(5,3) zero_less_iff_neq_zero [THEN iffD2, OF gr_implies_not0 [OF assms(2)]]] dvd_eq_mod_eq_0)
qed

text \<open>C3. With parity columns but fewer than \<open>k\<close> of them (\<open>0 < m < k\<close>, the
  configuration of the HTTP endpoints), every block set that passes the size check
  makes \<open>pad_parity_matrix\<close> raise \<open>ShapeError\<close> from \<open>row_join\<close>: \<open>decode\<close>
  never reaches the integrity check, and the instance is unchanged.\<close>

theorem decode_pad_shape_error:
  assumes "sec_wf st" "0 < sec_m st" "sec_m st < sec_k st" "blocks \<noteq> []"
    and "(sec_k st + sec_m st) dvd length (hd blocks)"
    and "list_all (\<lambda>b. sec_k st \<le> length b) blocks"
  shows "decode h st blocks = (Inl ShapeError, st)"
proof -
  have "pad_parity_matrix st = Inl ShapeError"
    using assms(1-3) by (simp add: pad_parity_matrix_cases)
  then show ?thesis
    using assms(3-6) by (rule decode_pad_Inl)
qed

theorem decode_pad_shape_error_witness:
  "sec_wf example_code \<and> 0 < sec_m example_code \<and> sec_m example_code < sec_k example_code
   \<and> [[1, 2, 13], [3, 4, 29 :: byte]] \<noteq> []
   \<and> (sec_k example_code + sec_m example_code) dvd length (hd [[1, 2, 13], [3, 4, 29 :: byte]])
   \<and> list_all (\<lambda>b. sec_k example_code \<le> length b) [[1, 2, 13], [3, 4, 29 :: byte]]
   \<and> decode (id :: bytes \<Rightarrow> bytes) example_code [[1, 2, 13], [3, 4, 29]] = (Inl ShapeError, example_code)"
proof -
  have h: "sec_wf example_code" "0 < sec_m example_code" "sec_m example_code < sec_k example_code"
    "[[1, 2, 13], [3, 4, 29 :: byte]] \<noteq> []"
    "(sec_k example_code + sec_m example_code) dvd length (hd [[1, 2, 13], [3, 4, 29 :: byte]])"
    "list_all (\<lambda>b. sec_k example_code \<le> length b) [[1, 2, 13], [3, 4, 29 :: byte]]"
    by (simp_all add: example_code_def sec_wf_def mat_wf_def numeral_3_eq_3)
  show ?thesis
    using h decode_pad_shape_error [OF h, of "id :: bytes \<Rightarrow> bytes"] by simp
qed

text \<open>C4. Every call of \<open>decode\<close>, whatever it returns or raises, leaves the
  instance satisfying the invariant \<open>sec_wf\<close>.\<close>

theorem decode_preserves_wf:
  assumes "sec_wf st"
  shows "sec_wf (snd (decode h st blocks))"
  using decode_state [of h st blocks] pad_parity_matrix_wf [OF assms] assms by metis

theorem decode_preserves_wf_witness:
  "sec_wf no_parity_code \<and> sec_wf (snd (decode (id :: bytes \<Rightarrow> bytes) no_parity_code [[1, 2], [3, 4]]))
   \<and> mcols (parity_matrix (snd (decode (id :: bytes \<Rightarrow> bytes) no_parity_code [[1, 2], [3, 4]]))) = 4"
proof -
  have wf: "sec_wf no_parity_code"
    by (simp add: no_parity_code_def sec_wf_def mat_wf_def)
  have "mcols (parity_matrix (snd (decode (id :: bytes \<Rightarrow> bytes) no_parity_code [[1, 2], [3, 4]]))) = 4"
    by code_simp
  with wf decode_preserves_wf [OF wf, of "id :: bytes \<Rightarrow> bytes" "[[1, 2], [3, 4]]"] show ?thesis
    by simp
qed

subsection \<open>Evaluation on concrete instances\<close>

lemmas encode_eval = encode_def range_step.simps encode_block_def Matrix_def mat_mul_def
  tolist_def vec_mat_def py_slice_def

lemmas decode_eval = decode_def Matrix_def inv_mod_def adjugate_def cofactor_def minor_def
  drop_nth_def mod_inverse_def upto.simps reconstruct_def mat_mul_def tolist_def vec_mat_def
  py_bytes_def

subsection \<open>Properties of encode\<close>

lemma encode_Inr_guard:
  "encode st data = Inr blocks \<Longrightarrow> 0 < sec_k st \<and> sec_k st dvd length data"
  by (auto simp: encode_def dvd_eq_mod_eq_0 split: if_splits)

text \<open>C5. Under the invariant, \<open>encode\<close> raises exactly in two cases: \<open>k = 0\<close>
  (\<open>ZeroDivisionError\<close> from \<open>len(data) % self.k\<close>) and a length that is not a
  multiple of \<open>k\<close> (\<open>ValueError\<close>); no other input makes it fail.\<close>

theorem encode_error:
  assumes "sec_wf st"
  shows "encode st data = Inl e \<longleftrightarrow>
           (sec_k st = 0 \<and> e = ZeroDivisionError)
           \<or> (0 < sec_k st \<and> \<not> sec_k st dvd length data
               \<and> e = ValueError ''Data length must be divisible by k'')"
proof (cases "0 < sec_k st \<and> sec_k st dvd length data")
  case True
  then have "encode st data = Inr (map (\<lambda>seg. seg @ parity st seg) (chunks (sec_k st) data))"
    by (intro encode_as_chunks) (simp_all add: encode_block_ok assms)
  with True show ?thesis by simp
next
  case False
  then show ?thesis by (auto simp: encode_def dvd_eq_mod_eq_0)
qed

theorem encode_error_witness:
  "sec_wf example_code
   \<and> encode example_code [1, 2, 3] = Inl (ValueError ''Data length must be divisible by k'')
   \<and> \<not> sec_k example_code dvd length [1, 2, 3 :: byte]"
proof -
  have wf: "sec_wf example_code"
    by (simp add: example_code_def sec_wf_def mat_wf_def)
  have nd: "0 < sec_k example_code \<and> \<not> sec_k example_code dvd length [1, 2, 3 :: byte]"
    by (simp add: example_code_def)
  from wf nd encode_error [OF wf, of "[1, 2, 3]" "ValueError ''Data length must be divisible by k''"]
  show ?thesis by blast
qed

lemma parity_word:
  assumes "list_all (\<lambda>r. mcols (parity_matrix st) \<le> length r) (mentries (parity_matrix st))"
  shows "parity st seg =
           vec_mat seg (map (map word_of_int) (mentries (parity_matrix st))) (mcols (parity_matrix st))"
proof -
  have "map word_of_int (vec_mat (map uint seg) (mentries (parity_matrix st)) (mcols (parity_matrix st)))
             = (vec_mat (map word_of_int (map uint seg)) (map (map word_of_int) (mentries (parity_matrix st)))
                  (mcols (parity_matrix st)) :: bytes)"
    using assms by (rule of_int_vec_mat)
  then show ?thesis by (simp add: parity_def comp_def)
qed

lemma encode_null_matrix:
  assumes "parity_matrix st = \<lparr>mrows = 0, mcols = 0, mentries = []\<rparr>" "0 < sec_k st"
    and "data \<noteq> []" "sec_k st dvd length data"
  shows "encode st data = Inl ShapeError"
proof -
  let ?k = "sec_k st"
  have len: "?k \<le> length data"
    using assms(3,4) by (simp add: dvd_imp_le)
  have rs: "range_step 0 (length data) ?k = 0 # range_step ?k (length data) ?k"
    using assms(2,3) by (simp add: range_step.simps [of 0])
  have blk: "length (py_slice data 0 ?k) = ?k"
    using len by (simp add: py_slice_def)
  have "Matrix [map uint (py_slice data 0 ?k)]
        = Inr \<lparr>mrows = 1, mcols = ?k, mentries = [map uint (py_slice data 0 ?k)]\<rparr>"
    using blk assms(2) by (simp add: Matrix_ok)
  then have "encode_block st (py_slice data 0 ?k) = Inl ShapeError"
    using assms(1,2) by (simp add: encode_block_def mat_mul_def)
  then show ?thesis
    using assms(2,4) by (simp add: encode_def rs dvd_eq_mod_eq_0)
qed

text \<open>C7. The constructor always succeeds with the given \<open>k\<close>, \<open>m\<close> and
  \<open>n = k + m\<close>, and the parity matrix holds bytes, whatever the random draws.
  With parity columns (or \<open>k = 0\<close>) it is \<open>k\<close> by \<open>m\<close> (0 by 0 when \<open>k = 0\<close>) and
  the instance satisfies \<open>sec_wf\<close>. With \<open>m = 0 < k\<close> every row of the matrix is
  empty, so sympy builds the 0 by 0 matrix, and \<open>encode\<close> then raises
  \<open>ShapeError\<close> on every non-empty input whose length \<open>k\<close> divides.\<close>

theorem SecureErasureCode_shape:
  "\<exists>st. SecureErasureCode k m rnd = Inr st \<and> sec_k st = k \<and> sec_m st = m \<and> sec_n st = k + m
        \<and> list_all (list_all (\<lambda>x. 0 \<le> x \<and> x < 256)) (mentries (parity_matrix st))
        \<and> (if 0 < m \<or> k = 0
           then sec_wf st \<and> mrows (parity_matrix st) = k \<and> mcols (parity_matrix st) = (if k = 0 then 0 else m)
           else parity_matrix st = \<lparr>mrows = 0, mcols = 0, mentries = []\<rparr>
                \<and> (\<forall>data. data \<noteq> [] \<longrightarrow> k dvd length data \<longrightarrow> encode st data = Inl ShapeError))"
proof -
  obtain P where P: "generate_parity_matrix k m rnd = Inr P" "mat_wf P"
    "if k = 0 \<or> m = 0 then P = \<lparr>mrows = 0, mcols = 0, mentries = []\<rparr> else mrows P = k \<and> mcols P = m"
    "list_all (list_all (\<lambda>x. 0 \<le> x \<and> x < 256)) (mentries P)"
    using generate_parity_matrix_shape [of k m rnd] by blast
  let ?st = "\<lparr>sec_k = k, sec_m = m, sec_n = k + m, parity_matrix = P\<rparr>"
  have st: "SecureErasureCode k m rnd = Inr ?st"
    using P(1) by (simp add: SecureErasureCode_def)
  show ?thesis
  proof (cases "0 < m \<or> k = 0")
    case True
    then have "sec_wf ?st \<and> mrows P = k \<and> mcols P = (if k = 0 then 0 else m)"
      using P(2-4) by (auto simp: sec_wf_def split: if_splits)
    with st P(4) True show ?thesis by auto
  next
    case False
    then have P0: "P = \<lparr>mrows = 0, mcols = 0, mentries = []\<rparr>"
      using P(3) by simp
    have "encode ?st data = Inl ShapeError" if "data \<noteq> []" "k dvd length data" for data
      using encode_null_matrix [of ?st data] P0 False that by simp
    with st P0 False show ?thesis by auto
  qed
qed

theorem SecureErasureCode_shape_witness:
  "\<exists>st. SecureErasureCode 2 0 (\<lambda>_. 7) = Inr st
        \<and> parity_matrix st = \<lparr>mrows = 0, mcols = 0, mentries = []\<rparr>
        \<and> encode st [1, 2] = Inl ShapeError"
proof -
  obtain st where st: "SecureErasureCode 2 0 (\<lambda>_. 7) = Inr st"
    and P: "parity_matrix st = \<lparr>mrows = 0, mcols = 0, mentries = []\<rparr>"
    and E: "\<forall>data. data \<noteq> [] \<longrightarrow> 2 dvd length data \<longrightarrow> encode st data = Inl ShapeError"
    using SecureErasureCode_shape [of 2 0 "\<lambda>_. 7"] by auto
  have "encode st [1, 2] = Inl ShapeError"
    using E by simp
  with st P show ?thesis by blast
qed

subsection \<open>Decoding with the identity parity matrix\<close>

lemma identity_code_fields:
  "sec_k identity_code = 1" "sec_m identity_code = 1"
  "parity_matrix identity_code = \<lparr>mrows = 1, mcols = 1, mentries = [[1]]\<rparr>"
  by (simp_all add: identity_code_def)

lemma encode_identity: "encode identity_code data = Inr (map (\<lambda>x. [x, x]) data)"
proof -
  have wf: "sec_wf identity_code"
    by (simp add: identity_code_def sec_wf_def mat_wf_def)
  have k: "0 < sec_k identity_code" and d: "sec_k identity_code dvd length data"
    by (simp_all add: identity_code_fields)
  have "encode identity_code data
        = Inr (map (\<lambda>seg. seg @ parity identity_code seg) (chunks (sec_k identity_code) data))"
    using k d by (rule encode_as_chunks) (rule encode_block_ok [OF wf k])
  moreover have "parity identity_code [x] = [x]" for x
    by (simp add: parity_def identity_code_fields vec_mat_def)
  ultimately show ?thesis
    by (simp add: identity_code_fields chunks_1 [simplified])
qed

lemma inv_mod_identity:
  "inv_mod \<lparr>mrows = 1, mcols = 1, mentries = [[1]]\<rparr> 256 = Inr \<lparr>mrows = 1, mcols = 1, mentries = [[1]]\<rparr>"
  by (simp add: inv_mod_def mod_inverse_def upto.simps adjugate_def cofactor_def minor_def drop_nth_def)

lemma reconstruct_identity:
  "reconstruct \<lparr>mrows = n, mcols = 1, mentries = map (\<lambda>x. [uint x]) (d # ds)\<rparr>
     \<lparr>mrows = 1, mcols = 1, mentries = [[1]]\<rparr> [x] = Inr [x XOR d]"
proof -
  have "py_bytes [uint x XOR uint d] = Inr [x XOR d]"
    using py_bytes_uint [of "[x XOR d]"] by (simp add: uint_xor)
  then show ?thesis
    by (simp add: reconstruct_def mat_mul_def tolist_def vec_mat_def)
qed

lemma decode_loop_xor:
  assumes "sec_k st = 1" "\<And>x. reconstruct dm im [x] = Inr [x XOR d]"
  shows "decode_loop h st dm im acc (map (\<lambda>x. [x, x]) xs) =
           (if list_all (\<lambda>x. h [x] = h [x XOR d]) xs
            then Inr (Some (acc @ map (\<lambda>x. [x XOR d]) xs)) else Inr None)"
  using assms by (induction xs arbitrary: acc) simp_all

text \<open>C6. The round trip the design promises fails: with \<open>k = m = 1\<close> and the
  parity matrix \<open>[[1]]\<close>, decoding the untampered output of \<open>encode\<close> succeeds
  exactly when the first data byte is 0, and otherwise reports an integrity
  failure. The candidate segment XORs each block's parity with the first
  block's product row (\<open>tolist()[0]\<close>), not with its own.\<close>

theorem decode_identity_roundtrip:
  assumes "inj h" "encode identity_code data = Inr blocks" "data \<noteq> []"
  shows "fst (decode h identity_code blocks) =
           (if hd data = 0 then Inr (Some (map (\<lambda>x. [x]) data)) else Inr None)"
proof -
  obtain d ds where data: "data = d # ds" using assms(3) by (cases data) auto
  have blocks: "blocks = map (\<lambda>x. [x, x]) data"
    using assms(2) by (simp add: encode_identity)
  let ?dm = "\<lparr>mrows = length data, mcols = 1, mentries = map (\<lambda>x. [uint x]) (d # ds)\<rparr>"
  let ?I = "\<lparr>mrows = 1, mcols = 1, mentries = [[1 :: int]]\<rparr>"
  have run: "fst (decode h identity_code blocks) = decode_loop h identity_code ?dm ?I [] blocks"
    by (simp add: decode_def blocks data identity_code_fields Matrix_def
        inv_mod_identity [simplified] list_all_iff comp_def del: decode_loop.simps)
  have loop: "decode_loop h identity_code ?dm ?I [] blocks =
                (if list_all (\<lambda>x. h [x] = h [x XOR d]) data
                 then Inr (Some (map (\<lambda>x. [x XOR d]) data)) else Inr None)"
  proof -
    have "decode_loop h identity_code ?dm ?I [] (map (\<lambda>x. [x, x]) data) =
            (if list_all (\<lambda>x. h [x] = h [x XOR d]) data
             then Inr (Some ([] @ map (\<lambda>x. [x XOR d]) data)) else Inr None)"
      by (rule decode_loop_xor [OF _ reconstruct_identity]) (simp add: identity_code_fields)
    then show ?thesis by (simp add: blocks)
  qed
  show ?thesis
  proof (cases "d = 0")
    case True
    with run loop data show ?thesis by (simp add: list_all_iff)
  next
    case False
    then have "h [d] \<noteq> h [d XOR d]"
      using assms(1) by (auto dest: injD)
    with run loop data False show ?thesis by simp
  qed
qed

theorem decode_identity_roundtrip_witness:
  "inj (id :: bytes \<Rightarrow> bytes) \<and> encode identity_code [5] = Inr [[5, 5]] \<and> [5 :: byte] \<noteq> []
   \<and> fst (decode (id :: bytes \<Rightarrow> bytes) identity_code [[5, 5]]) = Inr None"
proof -
  have e: "encode identity_code [5] = Inr [[5, 5]]"
    by (simp add: encode_identity)
  have "fst (decode (id :: bytes \<Rightarrow> bytes) identity_code [[5, 5]])
        = (if hd [5 :: byte] = 0 then Inr (Some (map (\<lambda>x. [x]) [5])) else Inr None)"
    by (rule decode_identity_roundtrip [OF inj_on_id e]) simp
  with e show ?thesis by simp
qed

subsection \<open>Block lengths and unreduced parity\<close>

lemma inv_mod_mcols: "inv_mod A m = Inr B \<Longrightarrow> mcols B = mcols A"
  by (auto simp: inv_mod_def split: if_splits option.splits)

lemma reconstruct_append:
  assumes "mcols im \<le> length p"
  shows "reconstruct dm im (p @ x) = reconstruct dm im p"
proof (cases "mcols dm = mrows im")
  case True
  have "map2 f (p @ x) (vec_mat r (mentries im) (mcols im)) = map2 f p (vec_mat r (mentries im) (mcols im))"
    for f :: "byte \<Rightarrow> int \<Rightarrow> int" and r
    using assms by (simp add: zip_append1)
  with True show ?thesis
    by (cases "mentries dm") (simp_all add: reconstruct_def mat_mul_def tolist_def py_index0_def)
next
  case False
  then show ?thesis by (simp add: reconstruct_def mat_mul_def)
qed

lemma decode_loop_append:
  assumes "list_all (\<lambda>b. sec_k st + mcols im \<le> length b) rest" "length xs = length rest"
  shows "decode_loop h st dm im acc (map2 (@) rest xs) = decode_loop h st dm im acc rest"
  using assms
proof (induction rest arbitrary: xs acc)
  case Nil
  then show ?case by simp
next
  case (Cons b rest)
  then obtain x xs' where xs: "xs = x # xs'" by (cases xs) auto
  have "sec_k st + mcols im \<le> length b"
    using Cons.prems(1) by simp
  then have l: "mcols im \<le> length (drop (sec_k st) b)"
    by simp
  have "drop (sec_k st) (b @ x) = drop (sec_k st) b @ x"
    using Cons.prems(1) by simp
  then have "reconstruct dm im (drop (sec_k st) (b @ x)) = reconstruct dm im (drop (sec_k st) b)"
    by (simp add: reconstruct_append [OF l])
  moreover have "take (sec_k st) (b @ x) = take (sec_k st) b"
    using Cons.prems(1) by simp
  ultimately show ?case
    using Cons.IH [of xs'] Cons.prems xs by (simp add: Let_def cong: if_cong)
qed

text \<open>C8. \<open>decode\<close> checks the length of the first block only, and only for
  divisibility by \<open>k + m\<close>. Bytes appended to any later block that already holds
  \<open>k\<close> data bytes and a full parity segment are neither detected nor reported:
  \<open>decode\<close> returns the same result and leaves the same instance as on the
  untampered blocks (\<open>m \<ge> k\<close>, so no padding intervenes).\<close>

theorem decode_ignores_trailing_bytes:
  assumes "sec_k st \<le> sec_m st" "length xs = length rest"
    and "list_all (\<lambda>b. sec_k st + mcols (parity_matrix st) \<le> length b) rest"
  shows "decode h st (b0 # map2 (@) rest xs) = decode h st (b0 # rest)"
proof -
  define ys where "ys = map2 (@) rest xs"
  have "map (take (sec_k st)) ys = map (take (sec_k st)) rest"
    unfolding ys_def using assms(2,3) by (induction rest arbitrary: xs) (auto simp: length_Suc_conv)
  then have tk: "map (map uint \<circ> take (sec_k st)) ys = map (map uint \<circ> take (sec_k st)) rest"
    by (metis map_map)
  have loop: "decode_loop h st dm B acc ys = decode_loop h st dm B acc rest"
    if "inv_mod (parity_matrix st) 256 = Inr B" for dm B acc
  proof -
    have "mcols B = mcols (parity_matrix st)" using that by (rule inv_mod_mcols)
    then show ?thesis
      unfolding ys_def using assms(2,3) by (simp add: decode_loop_append)
  qed
  show ?thesis
  proof (cases "inv_mod (parity_matrix st) 256")
    case (Inl e)
    then show ?thesis
      using assms(1) unfolding ys_def [symmetric]
      by (auto simp: decode_def Let_def tk split: sum.split)
  next
    case (Inr B)
    have "decode_loop h st dm B [] (b0 # ys) = decode_loop h st dm B [] (b0 # rest)" for dm
      by (simp add: loop [OF Inr] Let_def cong: if_cong)
    with Inr show ?thesis
      using assms(1) unfolding ys_def [symmetric]
      by (auto simp: decode_def Let_def tk split: sum.split)
  qed
qed

theorem decode_ignores_trailing_bytes_witness:
  "sec_k identity_code \<le> sec_m identity_code \<and> length [[9, 9, 9 :: byte]] = length [[0, 0 :: byte]]
   \<and> list_all (\<lambda>b. sec_k identity_code + mcols (parity_matrix identity_code) \<le> length b) [[0, 0 :: byte]]
   \<and> decode (id :: bytes \<Rightarrow> bytes) identity_code [[0, 0], [0, 0, 9, 9, 9]]
       = (Inr (Some [[0], [0]]), identity_code)"
proof -
  have h: "sec_k identity_code \<le> sec_m identity_code" "length [[9, 9, 9 :: byte]] = length [[0, 0 :: byte]]"
    "list_all (\<lambda>b. sec_k identity_code + mcols (parity_matrix identity_code) \<le> length b) [[0, 0 :: byte]]"
    by (simp_all add: identity_code_def)
  have "decode (id :: bytes \<Rightarrow> bytes) identity_code [[0, 0], [0, 0]] = (Inr (Some [[0], [0]]), identity_code)"
    by code_simp
  with h decode_ignores_trailing_bytes [OF h, of "id :: bytes \<Rightarrow> bytes" "[0, 0]"] show ?thesis
    by simp
qed

lemma xor_byte_lt:
  fixes x y :: int
  assumes "0 \<le> x" "x < 256" "0 \<le> y"
  shows "x XOR y < 256 \<longleftrightarrow> y < 256"
proof
  assume "y < 256"
  then show "x XOR y < 256"
    using XOR_upper [of x 8 y] assms by simp
next
  assume lt: "x XOR y < 256"
  have "0 \<le> x XOR y" using assms by (simp add: XOR_lower)
  then have "drop_bit 8 (x XOR y) = 0"
    using lt by (simp add: drop_bit_eq_div)
  moreover have "drop_bit 8 x = 0"
    using assms by (simp add: drop_bit_eq_div)
  ultimately have "drop_bit 8 y = 0"
    by (simp add: drop_bit_xor)
  then show "y < 256"
    using assms(3) by (simp add: drop_bit_eq_div div_eq_0_iff)
qed

text \<open>C32. The parity \<open>decode\<close> reconstructs is never reduced modulo 256. With
  \<open>k = m = 1\<close> and an invertible parity matrix \<open>[[c]]\<close>, whose inverse
  modulo 256 is \<open>d\<close>, \<open>decode\<close> applied to the untampered output of \<open>encode\<close>
  on a byte \<open>b\<close> raises \<open>ValueError\<close> in \<open>bytes(...)\<close> exactly when
  \<open>b * d \<ge> 256\<close>.\<close>

theorem decode_unreduced_parity_error:
  assumes "0 \<le> c" "c < 256" "mod_inverse c 256 = Some d"
  shows "\<exists>blocks. encode (scale_code c) [b] = Inr blocks
           \<and> (fst (decode h (scale_code c) blocks) = Inl (ValueError ''bytes must be in range(0, 256)'')
              \<longleftrightarrow> 256 \<le> uint b * d)"
proof -
  let ?p = "b * word_of_int c :: byte"
  have enc: "encode (scale_code c) [b] = Inr [[b, ?p]]"
    by (simp add: scale_code_def encode_def range_step.simps encode_block_def Matrix_def
                  mat_mul_def vec_mat_def tolist_def py_slice_def)
  have d: "0 \<le> d" "d < 256" using mod_inverse_Some [OF assms(3)] by simp_all
  have inv: "inv_mod \<lparr>mrows = Suc 0, mcols = Suc 0, mentries = [[c]]\<rparr> 256
             = Inr \<lparr>mrows = Suc 0, mcols = Suc 0, mentries = [[d]]\<rparr>"
    using assms(3) d by (simp add: inv_mod_def adjugate_def cofactor_def minor_def drop_nth_def)
  have bd: "0 \<le> uint b * d" using d by simp
  have up: "0 \<le> uint ?p" "uint ?p < 256"
    using uint_lt2p [of ?p] by simp_all
  have "fst (decode h (scale_code c) [[b, ?p]])
        = bind_res (py_bytes [uint ?p XOR uint b * d]) (\<lambda>rb.
            if h [b] = h rb then Inr (Some [rb]) else Inr None)"
    by (simp add: scale_code_def decode_def Let_def Matrix_def inv reconstruct_def mat_mul_def
                  vec_mat_def tolist_def cong: if_cong)
  moreover have "py_bytes [uint ?p XOR uint b * d]
      = (if 256 \<le> uint b * d then Inl (ValueError ''bytes must be in range(0, 256)'')
         else Inr [word_of_int (uint ?p XOR uint b * d)])"
    using xor_byte_lt [OF up bd] XOR_lower [OF up(1) bd] by (auto simp: py_bytes_def)
  ultimately show ?thesis
    using enc by (cases "256 \<le> uint b * d") (simp_all add: bind_res_def)
qed

theorem decode_unreduced_parity_error_witness:
  "0 \<le> (3::int) \<and> (3::int) < 256 \<and> mod_inverse 3 256 = Some 171
   \<and> encode (scale_code 3) [2] = Inr [[2, 6]]
   \<and> fst (decode (id :: bytes \<Rightarrow> bytes) (scale_code 3) [[2, 6]])
       = Inl (ValueError ''bytes must be in range(0, 256)'')"
proof -
  have inv: "mod_inverse 3 256 = Some 171"
    by code_simp
  have enc: "encode (scale_code 3) [2] = Inr [[2, 6]]"
    by code_simp
  obtain blocks where "encode (scale_code 3) [2] = Inr blocks"
    and "fst (decode (id :: bytes \<Rightarrow> bytes) (scale_code 3) blocks)
           = Inl (ValueError ''bytes must be in range(0, 256)'') \<longleftrightarrow> 256 \<le> uint (2 :: byte) * 171"
    using decode_unreduced_parity_error [of 3 171 2 "id :: bytes \<Rightarrow> bytes"] inv by auto
  with enc inv show ?thesis by simp
qed

subsection \<open>Decoding without parity columns\<close>

lemma inv_mod_padded_fails:
  assumes "sec_wf st" "sec_m st = 0" "0 < sec_k st"
  shows "\<exists>e. inv_mod (join_rows (parity_matrix st) (zeros (sec_k st) (sec_k st))) 256 = Inl e"
proof (cases "mcols (parity_matrix st) = 0")
  case True
  with assms(1) have "\<forall>r\<in>set (mentries (parity_matrix st)). r = []"
    and "length (mentries (parity_matrix st)) = sec_k st"
    by (auto simp: sec_wf_def mat_wf_def list_all_iff)
  then have "mentries (parity_matrix st) = replicate (sec_k st) []"
    by (metis replicate_length_same)
  moreover obtain k' where k: "sec_k st = Suc k'"
    using assms(3) by (cases "sec_k st") auto
  ultimately have "mentries (join_rows (parity_matrix st) (zeros (sec_k st) (sec_k st)))
             = replicate (sec_k st) 0 # replicate k' (replicate (sec_k st) 0)"
    by (simp add: join_rows_def zeros_def zip_replicate)
  then have "det (mentries (join_rows (parity_matrix st) (zeros (sec_k st) (sec_k st)))) = 0"
    by (simp only: det_zero_row)
  with True assms(1) show ?thesis
    by (simp add: inv_mod_def mod_inverse_0 sec_wf_def join_rows_def zeros_def del: det.simps)
next
  case False
  with assms(1) show ?thesis
    by (simp add: inv_mod_def join_rows_def zeros_def sec_wf_def)
qed

text \<open>C9. With no parity columns (\<open>m = 0 < k\<close>) every block set that passes the
  size check makes \<open>decode\<close> join a \<open>k\<close> by \<open>k\<close> zero block to the instance's
  parity matrix and then raise (the matrix is singular or not square); from then on
  \<open>encode\<close> on the same instance appends \<open>k\<close> zero parity bytes to every segment.
  The matrix the design requires to stay fixed is changed by every \<open>decode\<close>.\<close>

theorem decode_grows_matrix:
  assumes "sec_wf st" "sec_m st = 0" "0 < sec_k st" "blocks \<noteq> []"
    and "sec_k st dvd length (hd blocks)" "list_all (\<lambda>b. sec_k st \<le> length b) blocks"
  shows "parity_matrix (snd (decode h st blocks))
           = join_rows (parity_matrix st) (zeros (sec_k st) (sec_k st))
         \<and> (\<exists>e. fst (decode h st blocks) = Inl e)
         \<and> (\<forall>seg. parity (snd (decode h st blocks)) seg = parity st seg @ replicate (sec_k st) 0)"
proof -
  let ?st' = "st\<lparr>parity_matrix := join_rows (parity_matrix st) (zeros (sec_k st) (sec_k st))\<rparr>"
  have pad: "pad_parity_matrix st = Inr ?st'"
    using assms(1-3) by (simp add: pad_parity_matrix_cases)
  obtain e where inv: "inv_mod (join_rows (parity_matrix st) (zeros (sec_k st) (sec_k st))) 256 = Inl e"
    using inv_mod_padded_fails [OF assms(1-3)] by auto
  have first: "py_index0 blocks = Inr (hd blocks)"
    using assms(4) by (cases blocks) simp_all
  have run: "decode h st blocks = (Inl e, ?st')"
    using assms(2,3,5)
    by (simp add: decode_def Let_def first pad inv data_matrix_ok [OF assms(6,4,3)] dvd_eq_mod_eq_0)
  have rows: "list_all (\<lambda>r. length r = mcols (parity_matrix st)) (mentries (parity_matrix st))"
    and len: "length (mentries (parity_matrix st)) = sec_k st"
    using assms(1) by (simp_all add: sec_wf_def mat_wf_def)
  have "parity ?st' seg = parity st seg @ replicate (sec_k st) 0" for seg
    using vec_mat_join_zeros [OF rows, of "map uint seg" "sec_k st"] len
    by (simp add: parity_def join_rows_def zeros_def)
  with run show ?thesis by simp
qed

theorem decode_grows_matrix_witness:
  "SecureErasureCode 2 0 (\<lambda>_. 7) = Inr \<lparr>sec_k = 2, sec_m = 0, sec_n = 2,
      parity_matrix = \<lparr>mrows = 0, mcols = 0, mentries = []\<rparr>\<rparr>
   \<and> snd (decode (id :: bytes \<Rightarrow> bytes) \<lparr>sec_k = 2, sec_m = 0, sec_n = 2,
      parity_matrix = \<lparr>mrows = 0, mcols = 0, mentries = []\<rparr>\<rparr> [[1, 2], [3, 4]]) = no_parity_code
   \<and> sec_wf no_parity_code \<and> sec_m no_parity_code = 0 \<and> 0 < sec_k no_parity_code
   \<and> [[1, 2], [3, 4 :: byte]] \<noteq> [] \<and> sec_k no_parity_code dvd length (hd [[1, 2], [3, 4 :: byte]])
   \<and> list_all (\<lambda>b. sec_k no_parity_code \<le> length b) [[1, 2], [3, 4 :: byte]]
   \<and> parity (snd (decode (id :: bytes \<Rightarrow> bytes) no_parity_code [[1, 2], [3, 4]])) [1, 2]
       = parity no_parity_code [1, 2] @ [0, 0]"
proof -
  have h: "sec_wf no_parity_code" "sec_m no_parity_code = 0" "0 < sec_k no_parity_code"
    "[[1, 2], [3, 4 :: byte]] \<noteq> []" "sec_k no_parity_code dvd length (hd [[1, 2], [3, 4 :: byte]])"
    "list_all (\<lambda>b. sec_k no_parity_code \<le> length b) [[1, 2], [3, 4 :: byte]]"
    by (simp_all add: no_parity_code_def sec_wf_def mat_wf_def)
  have fresh: "SecureErasureCode 2 0 (\<lambda>_. 7) = Inr \<lparr>sec_k = 2, sec_m = 0, sec_n = 2,
      parity_matrix = \<lparr>mrows = 0, mcols = 0, mentries = []\<rparr>\<rparr>"
    by code_simp
  have first: "snd (decode (id :: bytes \<Rightarrow> bytes) \<lparr>sec_k = 2, sec_m = 0, sec_n = 2,
      parity_matrix = \<lparr>mrows = 0, mcols = 0, mentries = []\<rparr>\<rparr> [[1, 2], [3, 4]]) = no_parity_code"
    by code_simp
  have "sec_k no_parity_code = 2" by (simp add: no_parity_code_def)
  with h fresh first decode_grows_matrix [OF h, of "id :: bytes \<Rightarrow> bytes"] show ?thesis
    by (simp add: numeral_2_eq_2)
qed

subsection \<open>Decoding never succeeds with \<open>0 < m < k\<close>\<close>

lemma decode_fails_pad:
  assumes "sec_wf st" "0 < sec_m st" "sec_m st < sec_k st"
  shows "\<exists>e. fst (decode h st blocks) = Inl e"
proof -
  have "pad_parity_matrix st = Inl ShapeError"
    using assms by (simp add: pad_parity_matrix_cases)
  with assms(3) show ?thesis
    by (auto simp: decode_def Let_def split: sum.splits)
qed

subsection \<open>With \<open>k = m\<close>, the parity determines the data\<close>

lemma sec_wf_square:
  "sec_wf st \<Longrightarrow> sec_m st = sec_k st \<Longrightarrow>
   mat_wf (parity_matrix st) \<and> mrows (parity_matrix st) = sec_k st \<and> mcols (parity_matrix st) = sec_k st"
  by (auto simp: sec_wf_def split: if_splits)

text \<open>C29. With as many parity columns as data bytes (\<open>k = m\<close>), the parity
  segment \<open>encode\<close> appends determines the data segment: when
  \<open>inv_mod(256)\<close> of the parity matrix returns \<open>B\<close>, the parity of the parity
  segment under \<open>B\<close> is the data segment. So the design's inverse can undo
  \<open>encode\<close>, though \<open>decode\<close> (lines 56-57) multiplies the data matrix by \<open>B\<close>
  instead of the parity.\<close>

theorem parity_inverse_recovers:
  assumes wf: "sec_wf st" and km: "sec_m st = sec_k st"
    and B: "inv_mod (parity_matrix st) 256 = Inr B" and len: "length seg = sec_k st"
  shows "parity (st\<lparr>parity_matrix := B\<rparr>) (parity st seg) = seg"
proof -
  let ?P = "parity_matrix st" and ?n = "sec_k st" and ?st = "st\<lparr>parity_matrix := B\<rparr>"
  let ?W = "map (map (word_of_int :: int \<Rightarrow> byte))"
  have P: "mat_wf ?P" "mrows ?P = ?n" "mcols ?P = ?n"
    using sec_wf_square [OF wf km] by simp_all
  have Bwf: "mat_wf B" "mrows B = ?n" "mcols B = ?n"
      "list_all (list_all (\<lambda>x. 0 \<le> x \<and> x < 256)) (mentries B)"
    using inv_mod_wf [OF B] P by simp_all
  have p1: "parity st seg = vec_mat seg (?W (mentries ?P)) ?n"
    using parity_word [of st seg] P by (simp add: mat_wf_def list_all_iff)
  have p2: "parity ?st x = vec_mat x (?W (mentries B)) ?n" for x
    using parity_word [of ?st x] Bwf by (simp add: mat_wf_def list_all_iff)
  obtain Q where Q: "mat_mul ?P B = Inr Q" and QI: "map (map (\<lambda>x. x mod 256)) (mentries Q) = eye ?n"
    using inv_mod_right_inverse [OF P(1) B] P by auto
  have rowsB: "list_all (\<lambda>r. ?n \<le> length r) (mentries B)"
    using Bwf by (simp add: mat_wf_def list_all_iff)
  have "map (\<lambda>r. vec_mat r (?W (mentries B)) ?n) (?W (mentries ?P)) = ?W (mentries Q)"
    using Q P Bwf by (auto simp: mat_mul_def of_int_vec_mat [OF rowsB, where 'a = byte])
  also have "\<dots> = ?W (map (map (\<lambda>x. x mod 256)) (mentries Q))"
    by simp
  finally have prod: "map (\<lambda>r. vec_mat r (?W (mentries B)) ?n) (?W (mentries ?P)) = ?W (eye ?n)"
    using QI by simp
  have "parity ?st (parity st seg) = vec_mat (vec_mat seg (?W (mentries ?P)) ?n) (?W (mentries B)) ?n"
    by (simp only: p1 p2)
  also have "\<dots> = vec_mat seg (map (\<lambda>r. vec_mat r (?W (mentries B)) ?n) (?W (mentries ?P))) ?n"
    using P Bwf len by (intro vec_mat_assoc) (simp_all add: mat_wf_def list_all_iff)
  also have "\<dots> = seg"
    using len by (simp only: prod vec_mat_eye)
  finally show ?thesis .
qed

theorem parity_inverse_recovers_witness:
  "sec_wf \<lparr>sec_k = 2, sec_m = 2, sec_n = 4, parity_matrix = \<lparr>mrows = 2, mcols = 2, mentries = [[3, 5], [7, 2]]\<rparr>\<rparr>
   \<and> inv_mod \<lparr>mrows = 2, mcols = 2, mentries = [[3, 5], [7, 2]]\<rparr> 256
       = Inr \<lparr>mrows = 2, mcols = 2, mentries = [[150, 9], [115, 97]]\<rparr>
   \<and> parity \<lparr>sec_k = 2, sec_m = 2, sec_n = 4, parity_matrix = \<lparr>mrows = 2, mcols = 2, mentries = [[150, 9], [115, 97]]\<rparr>\<rparr>
       (parity \<lparr>sec_k = 2, sec_m = 2, sec_n = 4, parity_matrix = \<lparr>mrows = 2, mcols = 2, mentries = [[3, 5], [7, 2]]\<rparr>\<rparr> [10, 200])
     = [10, 200]"
proof -
  have wf: "sec_wf \<lparr>sec_k = 2, sec_m = 2, sec_n = 4, parity_matrix = \<lparr>mrows = 2, mcols = 2, mentries = [[3, 5], [7, 2]]\<rparr>\<rparr>"
    by (simp add: sec_wf_def mat_wf_def)
  have B: "inv_mod \<lparr>mrows = 2, mcols = 2, mentries = [[3, 5], [7, 2]]\<rparr> 256
       = Inr \<lparr>mrows = 2, mcols = 2, mentries = [[150, 9], [115, 97]]\<rparr>"
    by code_simp
  show ?thesis
    using parity_inverse_recovers [OF wf _ _, of "\<lparr>mrows = 2, mcols = 2, mentries = [[150, 9], [115, 97]]\<rparr>" "[10, 200]"] wf B
    by simp
qed

end
