(* ===== verification/Service.thy ===== *)
theory Service
  imports Codec "HOL-Library.AList" "HOL-Library.While_Combinator"
begin

text \<open>
  The HTTP layer of \<open>src/Erasurecode/app.py\<close> (lines 72-126): \<open>save_to_file\<close>,
  \<open>read_from_file\<close>, the \<open>/upload\<close> and \<open>/download\<close> views. The file system
  is a record of existing directories and of files keyed by (directory, name),
  \<open>os.path.join\<close> being the pair; files are an association list whose order
  is the order \<open>os.listdir\<close> returns (any order is the order of some store).
  Each view is modelled by its body with the block size \<open>k\<close> and the parity
  count \<open>m\<close> as parameters (\<open>upload_body\<close>, \<open>download_body\<close>) and by the view
  itself with the constants of the code, \<open>k = 512 * 1024\<close>, \<open>m = 3\<close>. A view
  returns its response or the exception, beside the file system after it.
\<close>

type_synonym path = "string \<times> string"

record fsys =
  fs_dirs :: "string list"
  fs_files :: "(path \<times> bytes) list"

datatype response = Text string | Attachment path bytes | Html bytes

definition storage_folder :: string where
  "storage_folder = ''Erasure_storage_folder''"

definition save_to_file :: "bytes \<Rightarrow> path \<Rightarrow> fsys \<Rightarrow> fsys res" where
  "save_to_file data filename fs =
     (if fst filename \<in> set (fs_dirs fs)
      then Inr (fs\<lparr>fs_files := AList.update filename data (fs_files fs)\<rparr>)
      else Inl (FileNotFoundError (snd filename)))"

definition read_from_file :: "path \<Rightarrow> fsys \<Rightarrow> bytes res" where
  "read_from_file filename fs =
     (case map_of (fs_files fs) filename of
        None \<Rightarrow> Inl (FileNotFoundError (snd filename))
      | Some data \<Rightarrow> Inr data)"

definition listdir :: "string \<Rightarrow> fsys \<Rightarrow> string list res" where
  "listdir d fs =
     (if d \<in> set (fs_dirs fs) then Inr [snd (fst e). e \<leftarrow> fs_files fs, fst (fst e) = d]
      else Inl (FileNotFoundError d))"

text \<open>\<open>str(i)\<close> for a natural number: its decimal digits.\<close>

fun digits10 :: "nat \<Rightarrow> nat list" where
  "digits10 n = (if n < 10 then [n] else digits10 (n div 10) @ [n mod 10])"

declare digits10.simps [simp del]

definition decimal :: "nat \<Rightarrow> string" where
  "decimal n = map (\<lambda>d. char_of (48 + d)) (digits10 n)"

definition block_name :: "nat \<Rightarrow> string" where
  "block_name i = ''block_'' @ decimal i @ ''.bin''"

text \<open>Lines 96-99: zero padding to a multiple of \<open>k\<close>.\<close>

definition pad_to_block :: "nat \<Rightarrow> bytes \<Rightarrow> bytes" where
  "pad_to_block k data =
     (let data_length = length data in
      if data_length mod k \<noteq> 0 then data @ replicate (k - data_length mod k) 0 else data)"

text \<open>Lines 102-107: the \<open>while True\<close> loop that encodes the data \<open>k\<close> bytes at a time.\<close>

function upload_chunks :: "sec_code \<Rightarrow> nat \<Rightarrow> bytes \<Rightarrow> bytes list res" where
  "upload_chunks sec k data =
     (let chunk = take k data; rest = drop k data in
      if chunk = [] then Inr []
      else bind_res (encode sec chunk) (\<lambda>bs. bind_res (upload_chunks sec k rest) (\<lambda>bss. Inr (bs @ bss))))"
  by pat_completeness auto
termination
  by (relation "measure (\<lambda>(sec, k, data). length data)") (auto simp: Let_def)

declare upload_chunks.simps [simp del]

text \<open>The same loop kept as a loop: \<open>while_option\<close> over the remaining data and
  the blocks so far. The guard is \<open>if not chunk: break\<close>; an exception of
  \<open>encode\<close> ends the loop and is its result.\<close>

definition upload_loop_cond :: "nat \<Rightarrow> bytes \<times> bytes list res \<Rightarrow> bool" where
  "upload_loop_cond k s = (case s of (data, Inr _) \<Rightarrow> take k data \<noteq> [] | (_, Inl _) \<Rightarrow> False)"

definition upload_loop_body :: "sec_code \<Rightarrow> nat \<Rightarrow> bytes \<times> bytes list res \<Rightarrow> bytes \<times> bytes list res" where
  "upload_loop_body sec k s =
     (case s of (data, encoded_blocks) \<Rightarrow>
        (let chunk = take k data in
         (drop k data, bind_res encoded_blocks (\<lambda>bs. bind_res (encode sec chunk) (\<lambda>new. Inr (bs @ new))))))"

definition upload_while :: "sec_code \<Rightarrow> nat \<Rightarrow> bytes \<Rightarrow> bytes list res option" where
  "upload_while sec k data =
     map_option snd (while_option (upload_loop_cond k) (upload_loop_body sec k) (data, Inr []))"

text \<open>The invariant of that loop: the blocks so far followed by what the recursive
  model makes of the remaining data are what it makes of the whole data.\<close>

definition loop_inv :: "sec_code \<Rightarrow> nat \<Rightarrow> bytes \<Rightarrow> bytes \<times> bytes list res \<Rightarrow> bool" where
  "loop_inv sec k data0 s =
     (bind_res (snd s) (\<lambda>a. bind_res (upload_chunks sec k (fst s)) (\<lambda>r. Inr (a @ r))) = upload_chunks sec k data0)"

text \<open>Lines 108-109: \<open>block_i.bin\<close> for the \<open>i\<close>-th encoded block.\<close>

fun save_blocks :: "nat \<Rightarrow> bytes list \<Rightarrow> fsys \<Rightarrow> fsys res" where
  "save_blocks i [] fs = Inr fs"
| "save_blocks i (b # bs) fs =
     bind_res (save_to_file b (storage_folder, block_name i) fs) (save_blocks (Suc i) bs)"

text \<open>The view \<open>upload\<close> (lines 84-110); the request's file is \<open>None\<close> when the form
  has no field \<open>file\<close>, otherwise its file name and content.\<close>

definition upload_body ::
  "nat \<Rightarrow> nat \<Rightarrow> rng \<Rightarrow> (string \<times> bytes) option \<Rightarrow> fsys \<Rightarrow> response res \<times> fsys" where
  "upload_body k m rnd upfile fs =
     (case upfile of
        None \<Rightarrow> (Inl (KeyError ''file''), fs)
      | Some (filename, data) \<Rightarrow>
          if filename = [] then (Inl (TypeError ''The view function did not return a valid response''), fs)
          else
            (let fs1 = (if storage_folder \<in> set (fs_dirs fs) then fs
                        else fs\<lparr>fs_dirs := storage_folder # fs_dirs fs\<rparr>)
             in if k = 0 then (Inl ZeroDivisionError, fs1)
             else
               (case SecureErasureCode k m rnd of
                  Inl e \<Rightarrow> (Inl e, fs1)
                | Inr sec \<Rightarrow>
                    (case upload_chunks sec k (pad_to_block k data) of
                       Inl e \<Rightarrow> (Inl e, fs1)
                     | Inr encoded_blocks \<Rightarrow>
                         (case save_blocks 0 encoded_blocks fs1 of
                            Inl e \<Rightarrow> (Inl e, fs1)
                          | Inr fs2 \<Rightarrow> (Inr (Text ''File uploaded and erasure-coded successfully.''), fs2))))))"

definition upload :: "rng \<Rightarrow> (string \<times> bytes) option \<Rightarrow> fsys \<Rightarrow> response res \<times> fsys" where
  "upload rnd upfile fs = upload_body (512 * 1024) 3 rnd upfile fs"

text \<open>Lines 119-120: read every listed file, in the listed order.\<close>

fun read_all :: "string list \<Rightarrow> fsys \<Rightarrow> bytes list res" where
  "read_all [] fs = Inr []"
| "read_all (f # fs_names) fs =
     bind_res (read_from_file (storage_folder, f) fs) (\<lambda>b.
     bind_res (read_all fs_names fs) (\<lambda>bs. Inr (b # bs)))"

text \<open>The view \<open>download\<close> (lines 112-126). A failed integrity check makes the view
  return \<open>None\<close>, which Flask turns into a \<open>TypeError\<close>.\<close>

definition download_body ::
  "nat \<Rightarrow> nat \<Rightarrow> rng \<Rightarrow> (bytes \<Rightarrow> 'd) \<Rightarrow> fsys \<Rightarrow> response res \<times> fsys" where
  "download_body k m rnd h fs =
     (case listdir storage_folder fs of
        Inl e \<Rightarrow> (Inl e, fs)
      | Inr files \<Rightarrow>
          (case read_all files fs of
             Inl e \<Rightarrow> (Inl e, fs)
           | Inr encoded_blocks \<Rightarrow>
               (case SecureErasureCode k m rnd of
                  Inl e \<Rightarrow> (Inl e, fs)
                | Inr sec \<Rightarrow>
                    (case fst (decode h sec encoded_blocks) of
                       Inl e \<Rightarrow> (Inl e, fs)
                     | Inr None \<Rightarrow> (Inl (TypeError ''The view function did not return a valid response''), fs)
                     | Inr (Some decoded_data) \<Rightarrow>
                         (case save_to_file (concat decoded_data) (storage_folder, ''decoded_file.bin'') fs of
                            Inl e \<Rightarrow> (Inl e, fs)
                          | Inr fs' \<Rightarrow>
                              (Inr (Attachment (storage_folder, ''decoded_file.bin'') (concat decoded_data)), fs'))))))"

definition download :: "rng \<Rightarrow> (bytes \<Rightarrow> 'd) \<Rightarrow> fsys \<Rightarrow> response res \<times> fsys" where
  "download rnd h fs = download_body (512 * 1024) 3 rnd h fs"

subsection \<open>Names of block files\<close>

lemma digits10_lt: "d \<in> set (digits10 n) \<Longrightarrow> d < 10"
  by (induction n rule: digits10.induct) (subst (asm) digits10.simps, auto split: if_splits)

lemma undigits_digits10: "foldl (\<lambda>a d. 10 * a + d) 0 (digits10 n) = n"
  by (induction n rule: digits10.induct) (subst digits10.simps, auto)

lemma inj_decimal: "inj decimal"
proof (rule injI)
  fix x y
  assume "decimal x = decimal y"
  then have "map of_char (decimal x) = (map of_char (decimal y) :: nat list)" by simp
  then have eq: "map (\<lambda>d. (48 + d) mod 256) (digits10 x) = map (\<lambda>d. (48 + d) mod 256) (digits10 y)"
    by (simp add: decimal_def comp_def)
  have "inj_on (\<lambda>d. (48 + d) mod (256 :: nat)) {..<10}"
    by (auto simp: inj_on_def)
  moreover have "set (digits10 x) \<union> set (digits10 y) \<subseteq> {..<10}"
    by (auto dest: digits10_lt)
  ultimately have "inj_on (\<lambda>d. (48 + d) mod 256) (set (digits10 x) \<union> set (digits10 y))"
    by (rule inj_on_subset)
  with eq have "digits10 x = digits10 y" by (simp add: inj_on_map_eq_map)
  then show "x = y" by (metis undigits_digits10)
qed

lemma block_name_eq [simp]: "block_name i = block_name j \<longleftrightarrow> i = j"
  using inj_decimal by (auto simp: block_name_def dest: injD)

subsection \<open>Saving the blocks\<close>

lemma save_blocks_ok:
  assumes "storage_folder \<in> set (fs_dirs fs)"
  shows "\<exists>fs'. save_blocks i bs fs = Inr fs' \<and> fs_dirs fs' = fs_dirs fs
           \<and> (\<forall>j<length bs. map_of (fs_files fs') (storage_folder, block_name (i + j)) = Some (bs ! j))
           \<and> (\<forall>p. (\<forall>j<length bs. p \<noteq> (storage_folder, block_name (i + j)))
                  \<longrightarrow> map_of (fs_files fs') p = map_of (fs_files fs) p)"
  using assms
proof (induction bs arbitrary: i fs)
  case Nil
  then show ?case by simp
next
  case (Cons b bs)
  let ?fs1 = "fs\<lparr>fs_files := AList.update (storage_folder, block_name i) b (fs_files fs)\<rparr>"
  have save: "save_to_file b (storage_folder, block_name i) fs = Inr ?fs1"
    using Cons.prems by (simp add: save_to_file_def)
  from Cons.IH [of ?fs1 "Suc i"] Cons.prems obtain fs' where
    run: "save_blocks (Suc i) bs ?fs1 = Inr fs'" and dirs: "fs_dirs fs' = fs_dirs fs"
    and new: "\<forall>j<length bs. map_of (fs_files fs') (storage_folder, block_name (Suc i + j)) = Some (bs ! j)"
    and old: "\<forall>p. (\<forall>j<length bs. p \<noteq> (storage_folder, block_name (Suc i + j)))
                  \<longrightarrow> map_of (fs_files fs') p = map_of (fs_files ?fs1) p"
    by auto
  have "map_of (fs_files fs') (storage_folder, block_name (i + j)) = Some ((b # bs) ! j)"
    if "j < Suc (length bs)" for j
  proof (cases j)
    case 0
    then show ?thesis using old by (simp add: update_conv')
  next
    case (Suc j')
    then show ?thesis using new that by simp
  qed
  moreover have "map_of (fs_files fs') p = map_of (fs_files fs) p"
    if "\<forall>j<Suc (length bs). p \<noteq> (storage_folder, block_name (i + j))" for p
  proof -
    have ne: "p \<noteq> (storage_folder, block_name i)" using that by (metis add_0_right zero_less_Suc)
    have "\<forall>j<length bs. p \<noteq> (storage_folder, block_name (Suc i + j))"
      using that by force
    then have "map_of (fs_files fs') p = map_of (fs_files ?fs1) p"
      using old by blast
    with ne show ?thesis by (simp add: update_conv')
  qed
  ultimately show ?case using save run dirs by auto
qed

subsection \<open>Padding\<close>

lemma pad_length:
  fixes k l :: nat
  assumes "0 < k" "l mod k \<noteq> 0"
  shows "l + (k - l mod k) = k * (l div k + 1)"
proof -
  have "l + (k - l mod k) = k + (l - l mod k)"
    using mod_less_eq_dividend [of l k] mod_less_divisor [OF assms(1), of l] by linarith
  also have "\<dots> = k * (l div k + 1)"
    by (simp add: minus_mod_eq_mult_div)
  finally show ?thesis .
qed

lemma pad_to_block_dvd: "0 < k \<Longrightarrow> k dvd length (pad_to_block k data)"
  using pad_length [of k "length data"]
  by (cases "length data mod k = 0") (simp_all add: pad_to_block_def Let_def dvd_eq_mod_eq_0)

lemma pad_to_block_nonempty: "data \<noteq> [] \<Longrightarrow> pad_to_block k data \<noteq> []"
  by (simp add: pad_to_block_def Let_def)

text \<open>C10. The upload view pads the file with fewer than \<open>k\<close> zero bytes to a
  multiple of \<open>k\<close>, and pads nothing when the length is already a multiple.\<close>

theorem pad_to_block_spec:
  assumes "0 < k"
  shows "\<exists>z. pad_to_block k data = data @ replicate z 0 \<and> z < k \<and> k dvd length data + z
             \<and> (k dvd length data \<longrightarrow> z = 0)"
proof (cases "length data mod k = 0")
  case True
  then have "pad_to_block k data = data @ replicate 0 0"
    by (simp add: pad_to_block_def Let_def)
  moreover have "k dvd length data + 0"
    using True by (simp add: dvd_eq_mod_eq_0)
  ultimately show ?thesis
    using assms by blast
next
  case False
  define z where "z = k - length data mod k"
  have pad: "pad_to_block k data = data @ replicate z 0"
    using False by (simp add: pad_to_block_def Let_def z_def)
  have lt: "z < k"
    using False assms by (simp add: z_def)
  have "length data + z = k * (length data div k + 1)"
    using pad_length [OF assms False] by (simp add: z_def)
  then have "k dvd length data + z"
    by simp
  moreover have "\<not> k dvd length data"
    using False by (simp add: dvd_eq_mod_eq_0)
  ultimately show ?thesis
    using pad lt by blast
qed

theorem pad_to_block_spec_witness:
  "(0 :: nat) < 4 \<and> pad_to_block 4 [1, 2, 3, 4, 5, 6] = [1, 2, 3, 4, 5, 6, 0, 0]
   \<and> (\<exists>z. pad_to_block 4 [1, 2, 3, 4, 5, 6] = [1, 2, 3, 4, 5, 6] @ replicate z 0 \<and> z < 4
        \<and> 4 dvd length [1, 2, 3, 4, 5, 6 :: byte] + z
        \<and> (4 dvd length [1, 2, 3, 4, 5, 6 :: byte] \<longrightarrow> z = 0))"
proof -
  have "pad_to_block 4 [1, 2, 3, 4, 5, 6] = [1, 2, 3, 4, 5, 6, 0, 0 :: byte]"
    by code_simp
  with pad_to_block_spec [of 4 "[1, 2, 3, 4, 5, 6 :: byte]"] show ?thesis by simp
qed

subsection \<open>The upload loop\<close>

lemma upload_chunks_map:
  assumes "sec_wf sec" "0 < sec_k sec" "sec_k sec dvd length data"
  shows "upload_chunks sec (sec_k sec) data = Inr (map (\<lambda>seg. seg @ parity sec seg) (chunks (sec_k sec) data))"
  using assms
proof (induction sec "sec_k sec" data rule: upload_chunks.induct)
  case (1 sec data)
  let ?k = "sec_k sec"
  show ?case
  proof (cases "data = []")
    case True
    then show ?thesis by (simp add: upload_chunks.simps)
  next
    case False
    have le: "?k \<le> length data"
      using "1.prems" False by (auto dest: dvd_imp_le)
    have "encode sec (take ?k data) = Inr (map (\<lambda>seg. seg @ parity sec seg) (chunks ?k (take ?k data)))"
      using "1.prems"(2) le
      by (intro encode_as_chunks) (simp_all add: encode_block_ok [OF "1.prems"(1,2)] min_def)
    moreover have "chunks ?k (take ?k data) = [take ?k data]"
      using "1.prems"(2) False by (simp add: chunks_nonempty)
    moreover have "?k dvd length (drop ?k data)"
      using "1.prems"(3) le by (simp add: dvd_diff_nat)
    ultimately show ?thesis
      using "1.hyps" "1.prems" False
      by (simp add: upload_chunks.simps [of sec ?k data] Let_def chunks_nonempty)
  qed
qed

text \<open>C11. The \<open>while True\<close> loop of the upload view, which calls \<open>encode\<close> on
  one \<open>k\<close>-byte chunk at a time and concatenates the results, computes the same
  blocks as one call of \<open>encode\<close> on the whole (padded) data.\<close>

theorem upload_chunks_eq_encode:
  assumes "sec_wf sec" "0 < sec_k sec" "sec_k sec dvd length data"
  shows "upload_chunks sec (sec_k sec) data = encode sec data"
proof -
  have "encode sec data = Inr (map (\<lambda>seg. seg @ parity sec seg) (chunks (sec_k sec) data))"
    using assms(2,3) by (rule encode_as_chunks) (rule encode_block_ok [OF assms(1,2)])
  with upload_chunks_map [OF assms] show ?thesis by simp
qed

theorem upload_chunks_eq_encode_witness:
  "sec_wf example_code \<and> 0 < sec_k example_code \<and> sec_k example_code dvd length [1, 2, 3, 4 :: byte]
   \<and> upload_chunks example_code (sec_k example_code) [1, 2, 3, 4] = encode example_code [1, 2, 3, 4]"
proof -
  have h: "sec_wf example_code" "0 < sec_k example_code" "sec_k example_code dvd length [1, 2, 3, 4 :: byte]"
    by (simp_all add: example_code_def sec_wf_def mat_wf_def)
  from h upload_chunks_eq_encode [OF h] show ?thesis by simp
qed

subsection \<open>The upload view\<close>

text \<open>C12. A successful upload (a named file, \<open>k > 0\<close>) stores the \<open>j\<close>-th frame of
  the padded data, segment and parity, as \<open>block_j.bin\<close> in the storage folder,
  and changes no other file: block files of an earlier, longer upload stay in the
  folder beside the new ones.\<close>

theorem upload_stores_blocks:
  assumes "filename \<noteq> []" "0 < k" "0 < m"
  shows "\<exists>sec fs'. SecureErasureCode k m rnd = Inr sec
           \<and> upload_body k m rnd (Some (filename, data)) fs
               = (Inr (Text ''File uploaded and erasure-coded successfully.''), fs')
           \<and> storage_folder \<in> set (fs_dirs fs')
           \<and> (\<forall>j<length (chunks k (pad_to_block k data)).
                 map_of (fs_files fs') (storage_folder, block_name j)
                 = Some (chunks k (pad_to_block k data) ! j @ parity sec (chunks k (pad_to_block k data) ! j)))
           \<and> (\<forall>p. (\<forall>j<length (chunks k (pad_to_block k data)). p \<noteq> (storage_folder, block_name j))
                 \<longrightarrow> map_of (fs_files fs') p = map_of (fs_files fs) p)"
proof -
  obtain sec where sec: "SecureErasureCode k m rnd = Inr sec" and wf: "sec_wf sec" and k: "sec_k sec = k"
    using SecureErasureCode_wf [of k m rnd] assms(3) by auto
  let ?P = "pad_to_block k data"
  let ?bs = "map (\<lambda>seg. seg @ parity sec seg) (chunks k ?P)"
  have up: "upload_chunks sec k ?P = Inr ?bs"
    using upload_chunks_map [of sec ?P] wf k assms(2) pad_to_block_dvd [OF assms(2)] by simp
  let ?fs1 = "if storage_folder \<in> set (fs_dirs fs) then fs else fs\<lparr>fs_dirs := storage_folder # fs_dirs fs\<rparr>"
  have dir: "storage_folder \<in> set (fs_dirs ?fs1)" by simp
  obtain fs' where save: "save_blocks 0 ?bs ?fs1 = Inr fs'" and dirs: "fs_dirs fs' = fs_dirs ?fs1"
    and new: "\<forall>j<length ?bs. map_of (fs_files fs') (storage_folder, block_name j) = Some (?bs ! j)"
    and old: "\<forall>p. (\<forall>j<length ?bs. p \<noteq> (storage_folder, block_name j))
                 \<longrightarrow> map_of (fs_files fs') p = map_of (fs_files ?fs1) p"
    using save_blocks_ok [OF dir, of 0 ?bs] by auto
  have "upload_body k m rnd (Some (filename, data)) fs
        = (Inr (Text ''File uploaded and erasure-coded successfully.''), fs')"
    using assms sec up save by (simp add: upload_body_def Let_def)
  moreover have "map_of (fs_files ?fs1) p = map_of (fs_files fs) p" for p
    by simp
  ultimately show ?thesis
    using sec dir dirs new old by auto
qed

theorem upload_stores_blocks_witness:
  "''f'' \<noteq> [] \<and> (0 :: nat) < 2
   \<and> (\<exists>sec fs'. SecureErasureCode 2 1 (\<lambda>_. 3) = Inr sec
        \<and> upload_body 2 1 (\<lambda>_. 3) (Some (''f'', [1, 2, 3])) \<lparr>fs_dirs = [], fs_files = []\<rparr>
            = (Inr (Text ''File uploaded and erasure-coded successfully.''), fs')
        \<and> storage_folder \<in> set (fs_dirs fs')
        \<and> (\<forall>j<length (chunks 2 (pad_to_block 2 [1, 2, 3])).
              map_of (fs_files fs') (storage_folder, block_name j)
              = Some (chunks 2 (pad_to_block 2 [1, 2, 3]) ! j @ parity sec (chunks 2 (pad_to_block 2 [1, 2, 3]) ! j)))
        \<and> (\<forall>p. (\<forall>j<length (chunks 2 (pad_to_block 2 [1, 2, 3 :: byte])). p \<noteq> (storage_folder, block_name j))
              \<longrightarrow> map_of (fs_files fs') p = map_of (fs_files \<lparr>fs_dirs = [], fs_files = []\<rparr>) p))"
  using upload_stores_blocks [of "''f''" 2 1 "\<lambda>_. 3" "[1, 2, 3]" "\<lparr>fs_dirs = [], fs_files = []\<rparr>"]
  by simp

subsection \<open>The store after an upload into a folder without block files\<close>

lemma update_new: "k \<notin> fst ` set al \<Longrightarrow> AList.update k v al = al @ [(k, v)]"
  by (induction al) auto

lemma save_blocks_append:
  assumes "storage_folder \<in> set (fs_dirs fs)"
    and "\<forall>n\<ge>i. (storage_folder, block_name n) \<notin> fst ` set (fs_files fs)"
  shows "save_blocks i bs fs = Inr (fs\<lparr>fs_files := fs_files fs
           @ zip (map (\<lambda>j. (storage_folder, block_name j)) [i..<i + length bs]) bs\<rparr>)"
  using assms
proof (induction bs arbitrary: i fs)
  case Nil
  then show ?case by simp
next
  case (Cons b bs)
  let ?fs1 = "fs\<lparr>fs_files := fs_files fs @ [((storage_folder, block_name i), b)]\<rparr>"
  have save: "save_to_file b (storage_folder, block_name i) fs = Inr ?fs1"
    using Cons.prems by (simp add: save_to_file_def update_new)
  have "\<forall>n\<ge>Suc i. (storage_folder, block_name n) \<notin> fst ` set (fs_files ?fs1)"
    using Cons.prems(2) by auto
  with Cons.IH [of ?fs1 "Suc i"] Cons.prems(1) save show ?case
    by (simp add: upt_conv_Cons del: upt_Suc)
qed

lemma listdir_blocks:
  "length js = length bs \<Longrightarrow>
   [snd (fst e). e \<leftarrow> zip (map (\<lambda>j. (storage_folder, block_name j)) js) bs, fst (fst e) = storage_folder]
   = map block_name js"
  by (induction js bs rule: list_induct2) auto

lemma listdir_other:
  "list_all (\<lambda>e. fst (fst e) \<noteq> storage_folder) al \<Longrightarrow>
   [snd (fst e). e \<leftarrow> al, fst (fst e) = storage_folder] = []"
  by (induction al) auto

lemma read_all_blocks:
  "list_all (\<lambda>j. map_of (fs_files fs) (storage_folder, block_name j) = Some (f j)) js \<Longrightarrow>
   read_all (map block_name js) fs = Inr (map f js)"
  by (induction js) (simp_all add: read_from_file_def)

lemma map_of_blocks:
  assumes "j < length bs" "map_of al (storage_folder, block_name j) = None"
  shows "map_of (al @ zip (map (\<lambda>j. (storage_folder, block_name j)) [0..<length bs]) bs)
           (storage_folder, block_name j) = Some (bs ! j)"
proof -
  have "distinct (map (\<lambda>j. (storage_folder, block_name j)) [0..<length bs])"
    by (simp add: distinct_map inj_on_def)
  then have "map_of (zip (map (\<lambda>j. (storage_folder, block_name j)) [0..<length bs]) bs)
               (storage_folder, block_name j) = Some (bs ! j)"
    using map_of_zip_nth [of "map (\<lambda>j. (storage_folder, block_name j)) [0..<length bs]" bs j] assms(1)
    by simp
  with assms(2) show ?thesis
    by (simp add: map_add_def split: option.splits)
qed

lemma upload_body_fresh:
  assumes "filename \<noteq> []" "0 < k" "0 < m"
    and "list_all (\<lambda>e. fst (fst e) \<noteq> storage_folder) (fs_files fs)"
  obtains sec where "SecureErasureCode k m rnd = Inr sec" "sec_wf sec" "sec_k sec = k" "sec_m sec = m"
    and "storage_folder \<in> set (fs_dirs (snd (upload_body k m rnd (Some (filename, data)) fs)))"
    and "fs_files (snd (upload_body k m rnd (Some (filename, data)) fs))
         = fs_files fs @ zip (map (\<lambda>j. (storage_folder, block_name j))
               [0..<length (chunks k (pad_to_block k data))])
             (map (\<lambda>seg. seg @ parity sec seg) (chunks k (pad_to_block k data)))"
proof -
  obtain sec where sec: "SecureErasureCode k m rnd = Inr sec" and wf: "sec_wf sec"
    and k: "sec_k sec = k" and m: "sec_m sec = m"
    using SecureErasureCode_wf [of k m rnd] assms(3) by auto
  let ?bs = "map (\<lambda>seg. seg @ parity sec seg) (chunks k (pad_to_block k data))"
  have up: "upload_chunks sec k (pad_to_block k data) = Inr ?bs"
    using upload_chunks_map [of sec "pad_to_block k data"] wf k assms(2) pad_to_block_dvd [OF assms(2)]
    by simp
  let ?fs1 = "if storage_folder \<in> set (fs_dirs fs) then fs else fs\<lparr>fs_dirs := storage_folder # fs_dirs fs\<rparr>"
  have dir: "storage_folder \<in> set (fs_dirs ?fs1)" by simp
  have fresh: "\<forall>n\<ge>0. (storage_folder, block_name n) \<notin> fst ` set (fs_files ?fs1)"
    using assms(4) by (auto simp: list_all_iff)
  have "save_blocks 0 ?bs ?fs1 = Inr (?fs1\<lparr>fs_files := fs_files ?fs1
           @ zip (map (\<lambda>j. (storage_folder, block_name j)) [0..<length ?bs]) ?bs\<rparr>)"
    using save_blocks_append [OF dir fresh] by simp
  with assms(1,2) sec up have "snd (upload_body k m rnd (Some (filename, data)) fs)
      = ?fs1\<lparr>fs_files := fs_files fs @ zip (map (\<lambda>j. (storage_folder, block_name j)) [0..<length ?bs]) ?bs\<rparr>"
    by (simp add: upload_body_def Let_def)
  with sec wf k m dir show ?thesis
    by (intro that) simp_all
qed

text \<open>Reading back the listed block files of such a store gives the blocks, in order.\<close>

lemma read_back_blocks:
  assumes "list_all (\<lambda>e. fst (fst e) \<noteq> storage_folder) al" "storage_folder \<in> set (fs_dirs fs)"
    and "fs_files fs = al @ zip (map (\<lambda>j. (storage_folder, block_name j)) [0..<length bs]) bs"
  shows "listdir storage_folder fs = Inr (map block_name [0..<length bs])"
    and "read_all (map block_name [0..<length bs]) fs = Inr bs"
proof -
  show "listdir storage_folder fs = Inr (map block_name [0..<length bs])"
    using assms by (simp add: listdir_def listdir_other listdir_blocks)
  have "\<forall>j<length bs. map_of al (storage_folder, block_name j) = None"
    using assms(1) by (auto simp: list_all_iff map_of_eq_None_iff)
  then have "list_all (\<lambda>j. map_of (fs_files fs) (storage_folder, block_name j) = Some (bs ! j)) [0..<length bs]"
    unfolding assms(3) list_all_iff by (auto simp del: map_of_append intro: map_of_blocks)
  then have "read_all (map block_name [0..<length bs]) fs = Inr (map ((!) bs) [0..<length bs])"
    by (rule read_all_blocks)
  then show "read_all (map block_name [0..<length bs]) fs = Inr bs"
    by (simp only: map_nth)
qed

subsection \<open>The download view\<close>

text \<open>C13. The download endpoint, with its constants \<open>k = 512 * 1024\<close> and \<open>m = 3\<close>,
  never returns a response: on every store, with every random matrix and digest,
  it raises (missing folder, unreadable or mis-sized blocks, or \<open>ShapeError\<close>
  from \<open>pad_parity_matrix\<close>).\<close>

theorem download_default_fails: "\<exists>e. fst (download rnd h fs) = Inl e"
proof -
  obtain sec where sec: "SecureErasureCode (512 * 1024) 3 rnd = Inr sec" and wf: "sec_wf sec"
    and k: "sec_k sec = 512 * 1024" and m: "sec_m sec = 3"
    using SecureErasureCode_wf [of "512 * 1024" 3 rnd] by auto
  have "\<exists>e. fst (decode h sec blocks) = Inl e" for blocks
    using wf by (rule decode_fails_pad) (simp_all add: k m)
  then have "fst (decode h sec blocks) \<noteq> Inr r" for blocks r
    by (metis Inl_Inr_False)
  with sec show ?thesis
    by (auto simp: download_def download_body_def split: sum.splits)
qed

text \<open>C14. Upload followed by download, on a store whose storage folder holds no
  file yet: whenever \<open>0 < m < k\<close> (as for the endpoints' \<open>k = 512 * 1024\<close>,
  \<open>m = 3\<close>) the download raises \<open>ShapeError\<close>. The blocks the upload wrote pass
  the size check, and \<open>pad_parity_matrix\<close> fails on the fresh instance.\<close>

theorem upload_download_shape_error:
  assumes "filename \<noteq> []" "data \<noteq> []" "0 < m" "m < k"
    and "list_all (\<lambda>e. fst (fst e) \<noteq> storage_folder) (fs_files fs)"
  shows "fst (download_body k m rnd' h (snd (upload_body k m rnd (Some (filename, data)) fs))) = Inl ShapeError"
proof -
  have k0: "0 < k" using assms(3,4) by simp
  let ?fs' = "snd (upload_body k m rnd (Some (filename, data)) fs)"
  obtain sec where wf: "sec_wf sec" and k: "sec_k sec = k" and m: "sec_m sec = m"
    and dir: "storage_folder \<in> set (fs_dirs ?fs')"
    and files: "fs_files ?fs' = fs_files fs @ zip (map (\<lambda>j. (storage_folder, block_name j))
                   [0..<length (chunks k (pad_to_block k data))])
                 (map (\<lambda>seg. seg @ parity sec seg) (chunks k (pad_to_block k data)))"
    using upload_body_fresh [OF assms(1) k0 assms(3) assms(5)] by blast
  define bs where "bs = map (\<lambda>seg. seg @ parity sec seg) (chunks k (pad_to_block k data))"
  have "fs_files ?fs' = fs_files fs @ zip (map (\<lambda>j. (storage_folder, block_name j)) [0..<length bs]) bs"
    using files by (simp add: bs_def)
  note stored = read_back_blocks [OF assms(5) dir this]
  obtain sec' where sec': "SecureErasureCode k m rnd' = Inr sec'" and wf': "sec_wf sec'"
    and k': "sec_k sec' = k" and m': "sec_m sec' = m"
    using SecureErasureCode_wf [of k m rnd'] assms(3) by auto
  have ne: "bs \<noteq> []"
    using k0 pad_to_block_nonempty [OF assms(2)] by (simp add: bs_def chunks_nonempty)
  have "mcols (parity_matrix sec) = m"
    using wf k m assms(3,4) by (simp add: sec_wf_def)
  then have lens: "list_all (\<lambda>b. length b = k + m) bs"
    using chunks_length [OF pad_to_block_dvd [OF k0]] by (simp add: bs_def list_all_iff)
  then have "(sec_k sec' + sec_m sec') dvd length (hd bs)" and "list_all (\<lambda>b. sec_k sec' \<le> length b) bs"
    using ne k' m' by (cases bs, simp_all add: list_all_iff)+
  moreover have "pad_parity_matrix sec' = Inl ShapeError"
    using wf' k' m' assms(3,4) by (simp add: pad_parity_matrix_cases)
  ultimately have "decode h sec' bs = (Inl ShapeError, sec')"
    using decode_pad_Inl [of sec' ShapeError bs h] assms(4) k' m' ne by simp
  with stored sec' show ?thesis
    by (simp add: download_body_def)
qed

theorem upload_download_shape_error_witness:
  "''f'' \<noteq> [] \<and> [7 :: byte] \<noteq> [] \<and> (0 :: nat) < 1 \<and> (1 :: nat) < 2
   \<and> list_all (\<lambda>e. fst (fst e) \<noteq> storage_folder) (fs_files \<lparr>fs_dirs = [], fs_files = []\<rparr>)
   \<and> fst (download_body 2 1 (\<lambda>_. 5) (id :: bytes \<Rightarrow> bytes)
         (snd (upload_body 2 1 (\<lambda>_. 3) (Some (''f'', [7])) \<lparr>fs_dirs = [], fs_files = []\<rparr>)))
       = Inl ShapeError"
  using upload_download_shape_error [of "''f''" "[7]" 1 2 "\<lparr>fs_dirs = [], fs_files = []\<rparr>"
      "\<lambda>_. 5" "id :: bytes \<Rightarrow> bytes" "\<lambda>_. 3"]
  by simp


subsection \<open>The upload loop as a loop\<close>

lemma upload_loop_Some: "\<exists>s'. while_option (upload_loop_cond k) (upload_loop_body sec k) s = Some s'"
  by (rule measure_while_option_Some [where P = "\<lambda>_. True" and f = "\<lambda>s. length (fst s)"])
     (auto simp: upload_loop_cond_def upload_loop_body_def Let_def split: sum.splits)

lemma upload_chunks_unfold:
  "take k data \<noteq> [] \<Longrightarrow> upload_chunks sec k data =
     bind_res (encode sec (take k data)) (\<lambda>bs. bind_res (upload_chunks sec k (drop k data)) (\<lambda>bss. Inr (bs @ bss)))"
  by (subst upload_chunks.simps) (simp add: Let_def)

lemma upload_chunks_stop: "take k data = [] \<Longrightarrow> upload_chunks sec k data = Inr []"
  by (subst upload_chunks.simps) (simp add: Let_def)

text \<open>C30. The \<open>while True\<close> loop of \<open>/upload\<close> (lines 101-107) always leaves
  the loop, for every data, block size and instance (for \<open>k = 0\<close> at its first
  test), and its result, blocks or exception, is the one of the recursive model
  \<open>upload_chunks\<close> that \<open>upload_body\<close> uses.\<close>

theorem upload_while_returns: "upload_while sec k data = Some (upload_chunks sec k data)"
proof -
  obtain s' where w: "while_option (upload_loop_cond k) (upload_loop_body sec k) (data, Inr []) = Some s'"
    using upload_loop_Some by blast
  have inv: "loop_inv sec k data s'"
  proof (rule while_option_rule [OF _ w])
    fix s assume i: "loop_inv sec k data s" and c: "upload_loop_cond k s"
    obtain d a where s: "s = (d, Inr a)" and t: "take k d \<noteq> []"
      using c by (auto simp: upload_loop_cond_def split: prod.splits sum.splits)
    have R: "bind_res (encode sec (take k d)) (\<lambda>bs. bind_res (upload_chunks sec k (drop k d)) (\<lambda>bss. Inr (a @ bs @ bss)))
             = upload_chunks sec k data"
      using i by (simp add: loop_inv_def s upload_chunks_unfold [OF t] bind_res_assoc)
    show "loop_inv sec k data (upload_loop_body sec k s)"
      using R by (simp add: loop_inv_def upload_loop_body_def s Let_def bind_res_assoc)
  qed (simp add: loop_inv_def)
  have stop: "\<not> upload_loop_cond k s'"
    by (rule while_option_stop [OF w])
  obtain d acc where s': "s' = (d, acc)" by fastforce
  show ?thesis
  proof (cases acc)
    case (Inl e)
    with inv s' show ?thesis by (simp add: upload_while_def w loop_inv_def)
  next
    case (Inr a)
    with stop s' have "take k d = []" by (simp add: upload_loop_cond_def)
    with inv s' Inr show ?thesis by (simp add: upload_while_def w loop_inv_def upload_chunks_stop)
  qed
qed

end
