(* ===== verification/Media_Features.thy ===== *)
theory Media_Features
  imports Complex_Main Service
begin

text \<open>
  The feature side of \<open>src/Erasurecode/datamatching.py\<close>. It models the
  preprocessing of the four media types (lines 13-54), the comparison of two
  features by mean squared error with numpy's broadcasting (lines 56-68), and the
  grading of the error into an integrity level (lines 70-82). A float is a real
  number or NaN: the rounding of float32 and float64 is not modelled. Strings are
  Isabelle strings, so a document is a text over the code points 0 to 255. The
  library calls that the code makes and that carry no logic of the program
  (OpenCV's decoding and resizing, librosa's MFCC, UTF-8 decoding, werkzeug's
  \<open>secure_filename\<close>) are the fields of the record \<open>media_libs\<close>, a parameter of
  every operation.
\<close>

subsection \<open>Floats and the integrity grade\<close>

datatype pyfloat = Num real | NaN

text \<open>Python's comparisons on floats: every comparison with NaN is false.\<close>

fun py_lt :: "pyfloat \<Rightarrow> pyfloat \<Rightarrow> bool" where
  "py_lt (Num x) (Num y) = (x < y)"
| "py_lt _ _ = False"

fun py_le :: "pyfloat \<Rightarrow> pyfloat \<Rightarrow> bool" where
  "py_le (Num x) (Num y) = (x \<le> y)"
| "py_le _ _ = False"

text \<open>Lines 70-82; the literals \<open>1e-6\<close>, \<open>1e-4\<close>, \<open>1e-2\<close> are the exact decimals.\<close>

definition assess_integrity_level :: "pyfloat \<Rightarrow> bool \<Rightarrow> string" where
  "assess_integrity_level mse_value integrity_violated =
     (if integrity_violated then ''Integrity Violated''
      else if py_lt mse_value (Num (1 / 10 ^ 6)) then ''Very High''
      else if py_le (Num (1 / 10 ^ 6)) mse_value \<and> py_lt mse_value (Num (1 / 10 ^ 4)) then ''High''
      else if py_le (Num (1 / 10 ^ 4)) mse_value \<and> py_lt mse_value (Num (1 / 10 ^ 2)) then ''Medium''
      else if py_le (Num (1 / 10 ^ 2)) mse_value \<and> py_lt mse_value (Num 1) then ''Low''
      else ''Very Low or Integrity Violated'')"

subsection \<open>Documents: \<open>str.split()\<close>\<close>

text \<open>\<open>str.isspace\<close> on the code points 0 to 255.\<close>

definition py_isspace :: "char \<Rightarrow> bool" where
  "py_isspace c = (of_char c \<in> set [9, 10, 11, 12, 13, 28, 29, 30, 31, 32, 133, 160 :: nat])"

text \<open>\<open>str.split()\<close> with no separator, as CPython's \<open>split_whitespace\<close>
  runs it: skip a run of whitespace, cut the next run of other characters, repeat.\<close>

function py_split :: "string \<Rightarrow> string list" where
  "py_split s =
     (let s' = dropWhile py_isspace s in
      if s' = [] then []
      else takeWhile (\<lambda>c. \<not> py_isspace c) s' # py_split (dropWhile (\<lambda>c. \<not> py_isspace c) s'))"
  by pat_completeness auto
termination
proof (relation "measure length")
  fix s s' :: string
  assume s': "s' = dropWhile py_isspace s" and ne: "s' \<noteq> []"
  from ne obtain x xs where eq: "s' = x # xs"
    by (cases s') simp_all
  with s' have "dropWhile py_isspace s = x # xs"
    by simp
  then have "\<not> py_isspace x"
    by (simp add: dropWhile_eq_Cons_conv)
  with eq have "length (dropWhile (\<lambda>c. \<not> py_isspace c) s') \<le> length xs"
    by (simp add: length_dropWhile_le)
  also have "length xs < length s"
    using eq s' length_dropWhile_le [of py_isspace s] by simp
  finally show "(dropWhile (\<lambda>c. \<not> py_isspace c) s', s) \<in> measure length"
    by simp
qed simp

declare py_split.simps [simp del]

text \<open>\<open>' '.join(tokens)\<close>, used to state the round trip of \<open>py_split\<close>.\<close>

fun join_words :: "string list \<Rightarrow> string" where
  "join_words [] = []"
| "join_words [t] = t"
| "join_words (t # ts) = t @ '' '' @ join_words ts"

text \<open>The order of the grades, best first, used to state that the grade is
  monotone in the error.\<close>

definition integrity_rank :: "string \<Rightarrow> nat" where
  "integrity_rank l =
     (if l = ''Very High'' then 4 else if l = ''High'' then 3 else if l = ''Medium'' then 2
      else if l = ''Low'' then 1 else 0)"

subsection \<open>Arrays and the library calls\<close>

text \<open>A numpy array: its shape and its elements in row-major order. It is well
  formed when it has as many elements as its shape says.\<close>

record ndarray =
  shape :: "nat list"
  elems :: "real list"

definition nd_wf :: "ndarray \<Rightarrow> bool" where
  "nd_wf a = (length (elems a) = prod_list (shape a))"

text \<open>What \<open>load_and_preprocess_data\<close> returns: the token list of a document or
  an array for the other media types.\<close>

datatype feature = Tokens "string list" | Arr ndarray

text \<open>The library calls: \<open>cv2.imread\<close> on a file's contents (\<open>None\<close> when it
  cannot decode them), \<open>cv2.resize(_, (224, 224))\<close>, librosa's load followed by
  \<open>librosa.feature.mfcc\<close>, the frames \<open>cv2.VideoCapture.read\<close> returns with
  \<open>ret\<close> true (then false forever), UTF-8 decoding, werkzeug's
  \<open>secure_filename\<close>.\<close>

record media_libs =
  imread :: "bytes \<Rightarrow> ndarray option"
  resize_224 :: "ndarray \<Rightarrow> ndarray"
  mfcc :: "bytes \<Rightarrow> ndarray res"
  video_frames :: "bytes \<Rightarrow> ndarray list"
  utf8_decode :: "bytes \<Rightarrow> string res"
  secure_filename :: "string \<Rightarrow> string"

text \<open>\<open>cv2.cvtColor(_, cv2.COLOR_BGR2RGB)\<close>: reverses the channels of every
  pixel of a three-channel image, and raises on any other shape.\<close>

definition cvt_bgr2rgb :: "ndarray \<Rightarrow> ndarray res" where
  "cvt_bgr2rgb img =
     (if length (shape img) = 3 \<and> shape img ! 2 = 3
      then Inr (img\<lparr>elems := concat (map rev (chunks 3 (elems img)))\<rparr>)
      else Inl (CvError ''cvtColor: invalid number of channels''))"

text \<open>\<open>image.astype(np.float32) / 255.0\<close>.\<close>

definition scale_255 :: "ndarray \<Rightarrow> ndarray" where
  "scale_255 img = img\<lparr>elems := map (\<lambda>x. x / 255) (elems img)\<rparr>"

text \<open>Lines 27-29 and 49-51: resize, convert to RGB, scale.\<close>

definition prep_frame :: "media_libs \<Rightarrow> ndarray \<Rightarrow> ndarray res" where
  "prep_frame L img = bind_res (cvt_bgr2rgb (resize_224 L img)) (\<lambda>i. Inr (scale_255 i))"

text \<open>Lines 25-30. \<open>cv2.imread\<close> returns \<open>None\<close> for a missing or undecodable file,
  and \<open>cv2.resize\<close> then raises.\<close>

definition load_and_preprocess_image :: "media_libs \<Rightarrow> fsys \<Rightarrow> path \<Rightarrow> ndarray res" where
  "load_and_preprocess_image L fs image_file =
     (case map_of (fs_files fs) image_file of
        None \<Rightarrow> Inl (CvError ''resize: !ssize.empty()'')
      | Some b \<Rightarrow>
          (case imread L b of
             None \<Rightarrow> Inl (CvError ''resize: !ssize.empty()'')
           | Some img \<Rightarrow> prep_frame L img))"

text \<open>Lines 32-35.\<close>

definition load_and_preprocess_audio :: "media_libs \<Rightarrow> fsys \<Rightarrow> path \<Rightarrow> ndarray res" where
  "load_and_preprocess_audio L fs audio_file = bind_res (read_from_file audio_file fs) (mfcc L)"

text \<open>Lines 37-41.\<close>

definition load_and_preprocess_document :: "media_libs \<Rightarrow> fsys \<Rightarrow> path \<Rightarrow> string list res" where
  "load_and_preprocess_document L fs text_file =
     bind_res (read_from_file text_file fs) (\<lambda>b.
       bind_res (utf8_decode L b) (\<lambda>text. Inr (py_split text)))"

text \<open>Lines 46-52: \<open>num_frames\<close> reads; a failed read (\<open>ret\<close> false) appends
  nothing.\<close>

fun video_loop :: "media_libs \<Rightarrow> nat \<Rightarrow> ndarray list \<Rightarrow> ndarray list res" where
  "video_loop L 0 reads = Inr []"
| "video_loop L (Suc n) [] = video_loop L n []"
| "video_loop L (Suc n) (frame # reads) =
     bind_res (prep_frame L frame) (\<lambda>f. bind_res (video_loop L n reads) (\<lambda>fs. Inr (f # fs)))"

text \<open>\<open>np.array(frames)\<close>: no frame gives the empty array of shape \<open>(0,)\<close>;
  frames of one shape are stacked; frames of different shapes raise.\<close>

definition np_array :: "ndarray list \<Rightarrow> ndarray res" where
  "np_array frames =
     (case frames of
        [] \<Rightarrow> Inr \<lparr>shape = [0], elems = []\<rparr>
      | f # _ \<Rightarrow>
          if list_all (\<lambda>g. shape g = shape f) frames
          then Inr \<lparr>shape = length frames # shape f, elems = concat (map elems frames)\<rparr>
          else Inl (ValueError ''setting an array element with a sequence''))"

text \<open>Lines 43-54. A file \<open>cv2.VideoCapture\<close> cannot open reads no frame.\<close>

definition load_and_preprocess_video :: "media_libs \<Rightarrow> fsys \<Rightarrow> path \<Rightarrow> ndarray res" where
  "load_and_preprocess_video L fs video_file =
     (let reads = (case map_of (fs_files fs) video_file of None \<Rightarrow> [] | Some b \<Rightarrow> video_frames L b) in
      bind_res (video_loop L 5 reads) np_array)"

text \<open>Lines 13-23.\<close>

definition load_and_preprocess_data :: "media_libs \<Rightarrow> fsys \<Rightarrow> path \<Rightarrow> string \<Rightarrow> feature res" where
  "load_and_preprocess_data L fs file_path file_type =
     (if file_type = ''image'' then bind_res (load_and_preprocess_image L fs file_path) (\<lambda>a. Inr (Arr a))
      else if file_type = ''audio'' then bind_res (load_and_preprocess_audio L fs file_path) (\<lambda>a. Inr (Arr a))
      else if file_type = ''document'' then bind_res (load_and_preprocess_document L fs file_path) (\<lambda>t. Inr (Tokens t))
      else if file_type = ''video'' then bind_res (load_and_preprocess_video L fs file_path) (\<lambda>a. Inr (Arr a))
      else Inl (ValueError ''Invalid file type. Supported types are 'image', 'audio', 'document', 'video'.''))"

text \<open>Lines 56-58: the placeholder returns its argument.\<close>

definition extract_features :: "feature \<Rightarrow> feature" where
  "extract_features data = data"

text \<open>Lines 60-64.\<close>

definition preprocess_and_extract_features :: "media_libs \<Rightarrow> fsys \<Rightarrow> path \<Rightarrow> string \<Rightarrow> feature res" where
  "preprocess_and_extract_features L fs file_path file_type =
     bind_res (load_and_preprocess_data L fs file_path file_type) (\<lambda>data. Inr (extract_features data))"

subsection \<open>Comparison: \<open>np.mean((features1 - features2) ** 2)\<close>\<close>

text \<open>numpy's broadcasting of two shapes, aligned on their last axes: two lengths
  agree when they are equal or one of them is 1; the missing leading axes of the
  shorter shape count as 1. The shapes are given reversed.\<close>

fun bcast_rev :: "nat list \<Rightarrow> nat list \<Rightarrow> nat list option" where
  "bcast_rev [] ys = Some ys"
| "bcast_rev xs [] = Some xs"
| "bcast_rev (x # xs) (y # ys) =
     (if x = y \<or> y = 1 then map_option ((#) x) (bcast_rev xs ys)
      else if x = 1 then map_option ((#) y) (bcast_rev xs ys)
      else None)"

definition broadcast_shapes :: "nat list \<Rightarrow> nat list \<Rightarrow> nat list option" where
  "broadcast_shapes s1 s2 = map_option rev (bcast_rev (rev s1) (rev s2))"

text \<open>The multi-index, last axis first, of the \<open>i\<close>-th element of an array of the
  reversed shape \<open>r\<close>, and the position in an operand of reversed shape \<open>s\<close> that
  broadcasting reads for it (an axis of length 1 is read at index 0).\<close>

fun unravel :: "nat list \<Rightarrow> nat \<Rightarrow> nat list" where
  "unravel [] i = []"
| "unravel (d # ds) i = i mod d # unravel ds (i div d)"

fun src_index :: "nat list \<Rightarrow> nat list \<Rightarrow> nat" where
  "src_index (d # ds) (j # js) = (if d = 1 then 0 else j) + d * src_index ds js"
| "src_index _ _ = 0"

definition bcast_elem :: "ndarray \<Rightarrow> nat list \<Rightarrow> nat \<Rightarrow> real" where
  "bcast_elem a r i = elems a ! src_index (rev (shape a)) (unravel (rev r) i)"

text \<open>\<open>np.mean\<close>: NaN (with a warning) on an empty array.\<close>

definition np_mean :: "real list \<Rightarrow> pyfloat" where
  "np_mean xs = (if xs = [] then NaN else Num (sum_list xs / real (length xs)))"

text \<open>An operand of the subtraction as numpy sees it: a list of tokens becomes an
  array of strings, on which subtraction raises, unless it is empty (a float
  array of shape \<open>(0,)\<close>).\<close>

definition as_array :: "feature \<Rightarrow> ndarray res" where
  "as_array f =
     (case f of
        Arr a \<Rightarrow> Inr a
      | Tokens [] \<Rightarrow> Inr \<lparr>shape = [0], elems = []\<rparr>
      | Tokens _ \<Rightarrow> Inl (TypeError ''ufunc subtract did not contain a loop with signature matching types''))"

text \<open>Lines 66-68. Two token lists are Python lists, which have no \<open>-\<close>.\<close>

definition compare_features :: "feature \<Rightarrow> feature \<Rightarrow> pyfloat res" where
  "compare_features features1 features2 =
     (case (features1, features2) of
        (Tokens _, Tokens _) \<Rightarrow> Inl (TypeError ''unsupported operand type(s) for -'')
      | _ \<Rightarrow>
          bind_res (as_array features1) (\<lambda>a. bind_res (as_array features2) (\<lambda>b.
            case broadcast_shapes (shape a) (shape b) of
              None \<Rightarrow> Inl (ValueError ''operands could not be broadcast together'')
            | Some r \<Rightarrow>
                Inr (np_mean (map (\<lambda>i. (bcast_elem a r i - bcast_elem b r i) ^ 2) [0..<prod_list r])))))"

subsection \<open>Lemmas: the integrity grade\<close>

lemma assess_Num_chain:
  "assess_integrity_level (Num x) False =
     (if x < 1 / 10 ^ 6 then ''Very High''
      else if x < 1 / 10 ^ 4 then ''High''
      else if x < 1 / 10 ^ 2 then ''Medium''
      else if x < 1 then ''Low''
      else ''Very Low or Integrity Violated'')"
  by (simp add: assess_integrity_level_def)

text \<open>C15. The grade never improves when the error grows: for two errors \<open>x \<le> y\<close>, \<open>assess_integrity_level\<close> grades \<open>y\<close> at most as well as \<open>x\<close>. The redundant lower bounds of the chain do not change it.\<close>

theorem assess_antitone:
  assumes "x \<le> y"
  shows "integrity_rank (assess_integrity_level (Num y) False)
         \<le> integrity_rank (assess_integrity_level (Num x) False)"
  using assms by (simp add: assess_Num_chain integrity_rank_def)

theorem assess_antitone_witness:
  "(1 / 10 ^ 5 :: real) \<le> 1 / 10 ^ 2 \<and>
   integrity_rank (assess_integrity_level (Num (1 / 10 ^ 2)) False)
   \<le> integrity_rank (assess_integrity_level (Num (1 / 10 ^ 5)) False)"
  using assess_antitone [of "1 / 10 ^ 5" "1 / 10 ^ 2"] by simp

subsection \<open>Lemmas: documents\<close>

lemma py_split_blank: "dropWhile py_isspace s = [] \<Longrightarrow> py_split s = []"
  by (subst py_split.simps) (simp add: Let_def)

lemma py_split_step:
  "dropWhile py_isspace s = s' \<Longrightarrow> s' \<noteq> [] \<Longrightarrow>
   py_split s = takeWhile (\<lambda>c. \<not> py_isspace c) s' # py_split (dropWhile (\<lambda>c. \<not> py_isspace c) s')"
  by (subst py_split.simps) (simp add: Let_def)

lemma takeWhile_not_blank:
  "dropWhile P s \<noteq> [] \<Longrightarrow> takeWhile (\<lambda>c. \<not> P c) (dropWhile P s) \<noteq> []"
  by (metis hd_dropWhile list.collapse takeWhile.simps(2) list.distinct(1))

lemma filter_takeWhile_dropWhile:
  "filter (\<lambda>c. \<not> P c) s = filter (\<lambda>c. \<not> P c) (takeWhile P s) @ filter (\<lambda>c. \<not> P c) (dropWhile P s)"
  by (metis filter_append takeWhile_dropWhile_id)

lemma py_split_Nil_iff: "py_split s = [] \<longleftrightarrow> (\<forall>c\<in>set s. py_isspace c)"
  by (subst py_split.simps) (auto simp: Let_def dropWhile_eq_Nil_conv)

lemma py_split_space_prefix:
  "\<forall>c\<in>set w. py_isspace c \<Longrightarrow> py_split (w @ s) = py_split s"
  by (simp add: py_split.simps [of "w @ s"] py_split.simps [of s] dropWhile_append2)

lemma py_split_token:
  assumes "t \<noteq> []" "\<forall>c\<in>set t. \<not> py_isspace c" "rest = [] \<or> py_isspace (hd rest)"
  shows "py_split (t @ rest) = t # py_split rest"
proof -
  have tw: "takeWhile (\<lambda>c. \<not> py_isspace c) rest = []" and dw: "dropWhile (\<lambda>c. \<not> py_isspace c) rest = rest"
    using assms(3) by (cases rest; simp)+
  have d: "dropWhile py_isspace (t @ rest) = t @ rest"
    using assms(1,2) by (cases t) simp_all
  have "py_split (t @ rest) = takeWhile (\<lambda>c. \<not> py_isspace c) (t @ rest)
          # py_split (dropWhile (\<lambda>c. \<not> py_isspace c) (t @ rest))"
    by (rule py_split_step [OF d]) (simp add: assms(1))
  with assms(2) tw dw show ?thesis
    by (simp add: takeWhile_append2 dropWhile_append2)
qed

text \<open>C16. Every token \<open>str.split()\<close> returns for a document is non-empty and holds no whitespace.\<close>

theorem py_split_tokens:
  "t \<in> set (py_split s) \<Longrightarrow> t \<noteq> [] \<and> (\<forall>c\<in>set t. \<not> py_isspace c)"
proof (induction s rule: py_split.induct)
  case (1 s)
  let ?s' = "dropWhile py_isspace s"
  show ?case
  proof (cases "?s' = []")
    case True
    with "1.prems" show ?thesis by (simp add: py_split_blank)
  next
    case False
    define r where "r = dropWhile (\<lambda>c. \<not> py_isspace c) ?s'"
    have split: "py_split s = takeWhile (\<lambda>c. \<not> py_isspace c) ?s' # py_split r"
      unfolding r_def by (rule py_split_step [OF refl False])
    have ih: "t \<in> set (py_split r) \<Longrightarrow> t \<noteq> [] \<and> (\<forall>c\<in>set t. \<not> py_isspace c)"
      unfolding r_def by (rule "1.IH" [OF refl False])
    from "1.prems" split have "t = takeWhile (\<lambda>c. \<not> py_isspace c) ?s' \<or> t \<in> set (py_split r)"
      by simp
    then show ?thesis
    proof
      assume t: "t = takeWhile (\<lambda>c. \<not> py_isspace c) ?s'"
      then show ?thesis
        using takeWhile_not_blank [OF False] by (auto dest: set_takeWhileD)
    qed (rule ih)
  qed
qed

theorem py_split_tokens_witness:
  "''ab'' \<in> set (py_split '' ab  c'') \<and> ''ab'' \<noteq> [] \<and> list_all (\<lambda>c. \<not> py_isspace c) ''ab''"
proof -
  have "py_split '' ab  c'' = [''ab'', ''c'']"
    by code_simp
  then show ?thesis
    using py_split_tokens [of "''ab''" "'' ab  c''"] by (simp add: list_all_iff)
qed

text \<open>C17. The tokens of a document are its non-whitespace characters, in order: concatenated, they give the text with its whitespace removed.\<close>

theorem concat_py_split: "concat (py_split s) = filter (\<lambda>c. \<not> py_isspace c) s"
proof (induction s rule: py_split.induct)
  case (1 s)
  let ?s' = "dropWhile py_isspace s"
  have "filter (\<lambda>c. \<not> py_isspace c) (takeWhile py_isspace s) = []"
    by (auto simp: filter_empty_conv dest: set_takeWhileD)
  then have s: "filter (\<lambda>c. \<not> py_isspace c) s = filter (\<lambda>c. \<not> py_isspace c) ?s'"
    using filter_takeWhile_dropWhile [of py_isspace s] by simp
  show ?case
  proof (cases "?s' = []")
    case True
    with s show ?thesis by (simp add: py_split_blank)
  next
    case False
    let ?t = "takeWhile (\<lambda>c. \<not> py_isspace c) ?s'"
    define r where "r = dropWhile (\<lambda>c. \<not> py_isspace c) ?s'"
    have split: "py_split s = ?t # py_split r"
      unfolding r_def by (rule py_split_step [OF refl False])
    have ih: "concat (py_split r) = filter (\<lambda>c. \<not> py_isspace c) r"
      unfolding r_def by (rule "1.IH" [OF refl False])
    have "filter (\<lambda>c. \<not> py_isspace c) ?t = ?t"
      by (auto simp: filter_id_conv dest: set_takeWhileD)
    moreover have "filter (\<lambda>c. \<not> py_isspace c) ?s' = filter (\<lambda>c. \<not> py_isspace c) ?t @ filter (\<lambda>c. \<not> py_isspace c) r"
      unfolding r_def using filter_append takeWhile_dropWhile_id by metis
    ultimately show ?thesis
      using s split ih by simp
  qed
qed

text \<open>C18. Round trip: splitting the tokens joined by single spaces gives the tokens back, for tokens that are non-empty and hold no whitespace.\<close>

theorem py_split_join_words:
  assumes "list_all (\<lambda>t. t \<noteq> [] \<and> (\<forall>c\<in>set t. \<not> py_isspace c)) ts"
  shows "py_split (join_words ts) = ts"
  using assms
proof (induction ts rule: join_words.induct)
  case 1
  then show ?case by (simp add: py_split_Nil_iff)
next
  case (2 t)
  then show ?case using py_split_token [of t "[]"] by (simp add: py_split_Nil_iff)
next
  case (3 t v vs)
  have sp: "py_isspace (CHR '' '')" by (simp add: py_isspace_def)
  have "py_split (t @ '' '' @ join_words (v # vs)) = t # py_split ('' '' @ join_words (v # vs))"
    using "3.prems" sp by (intro py_split_token) simp_all
  also have "py_split ('' '' @ join_words (v # vs)) = py_split (join_words (v # vs))"
    using sp by (intro py_split_space_prefix) simp
  finally show ?case using "3.IH" "3.prems" by simp
qed

theorem py_split_join_words_witness:
  "list_all (\<lambda>t. t \<noteq> [] \<and> list_all (\<lambda>c. \<not> py_isspace c) t) [''ab'', ''c'']
   \<and> py_split (join_words [''ab'', ''c'']) = [''ab'', ''c'']"
proof -
  have "list_all (\<lambda>t. t \<noteq> [] \<and> (\<forall>c\<in>set t. \<not> py_isspace c)) [''ab'', ''c'']"
    by code_simp
  then show ?thesis
    using py_split_join_words [of "[''ab'', ''c'']"] by (simp add: list_all_iff)
qed

subsection \<open>Lemmas: broadcasting and the comparison\<close>

lemma bcast_rev_Nil2 [simp]: "bcast_rev xs [] = Some xs"
  by (cases xs) simp_all

lemma bcast_rev_comm: "bcast_rev xs ys = bcast_rev ys xs"
  by (induction xs ys rule: bcast_rev.induct) (auto simp: neq_Nil_conv)

lemma broadcast_shapes_comm: "broadcast_shapes s1 s2 = broadcast_shapes s2 s1"
  by (simp add: broadcast_shapes_def bcast_rev_comm)

lemma bcast_rev_self [simp]: "bcast_rev xs xs = Some xs"
  by (induction xs) simp_all

lemma broadcast_shapes_self [simp]: "broadcast_shapes s s = Some s"
  by (simp add: broadcast_shapes_def)

lemma prod_list_rev [simp]: "prod_list (rev xs) = prod_list (xs :: nat list)"
  by (induction xs) simp_all

lemma src_index_unravel: "i < prod_list r \<Longrightarrow> src_index r (unravel r i) = i"
proof (induction r arbitrary: i)
  case Nil
  then show ?case by simp
next
  case (Cons d ds)
  then have d: "0 < d" and "i div d < prod_list ds"
    by (auto simp: less_mult_imp_div_less mult.commute intro: Nat.gr0I)
  with Cons.IH show ?case
    by simp
qed

lemma bcast_elem_same:
  "nd_wf a \<Longrightarrow> i < prod_list (shape a) \<Longrightarrow> bcast_elem a (shape a) i = elems a ! i"
  by (simp add: bcast_elem_def src_index_unravel)

lemma np_mean_nonneg: "list_all (\<lambda>x. 0 \<le> x) xs \<Longrightarrow> np_mean xs = Num x \<Longrightarrow> 0 \<le> x"
  by (auto simp: np_mean_def list_all_iff intro!: divide_nonneg_nonneg sum_list_nonneg split: if_splits)

lemma np_mean_squares_nonneg: "np_mean (map (\<lambda>i. (g i) ^ 2) is) = Num x \<Longrightarrow> 0 \<le> x"
  by (rule np_mean_nonneg) (auto simp: list_all_iff)

lemma compare_arrays:
  "\<not> (\<exists>t1 t2. f1 = Tokens t1 \<and> f2 = Tokens t2) \<Longrightarrow>
   compare_features f1 f2 = bind_res (as_array f1) (\<lambda>a. bind_res (as_array f2) (\<lambda>b.
            case broadcast_shapes (shape a) (shape b) of
              None \<Rightarrow> Inl (ValueError ''operands could not be broadcast together'')
            | Some r \<Rightarrow>
                Inr (np_mean (map (\<lambda>i. (bcast_elem a r i - bcast_elem b r i) ^ 2) [0..<prod_list r]))))"
  by (cases f1; cases f2) (simp_all add: compare_features_def)

text \<open>C19. On two well-formed arrays of the same shape, \<open>compare_features\<close> is the mean of the squared element-wise differences: broadcasting reads every element at its own position.\<close>

theorem compare_same_shape:
  assumes "nd_wf a" "nd_wf b" "shape a = shape b"
  shows "compare_features (Arr a) (Arr b) = Inr (np_mean (map2 (\<lambda>x y. (x - y) ^ 2) (elems a) (elems b)))"
proof -
  have eb: "bcast_elem b (shape a) i = elems b ! i" if "i < prod_list (shape a)" for i
    using bcast_elem_same [OF assms(2)] assms(3) that by simp
  have "map (\<lambda>i. (bcast_elem a (shape a) i - bcast_elem b (shape a) i) ^ 2) [0..<prod_list (shape a)]
        = map2 (\<lambda>x y. (x - y) ^ 2) (elems a) (elems b)"
    using assms(1,2) assms(3) [symmetric] by (intro nth_equalityI) (simp_all add: nd_wf_def bcast_elem_same eb)
  with assms(3) show ?thesis
    by (simp add: compare_features_def as_array_def)
qed

theorem compare_same_shape_witness:
  "nd_wf \<lparr>shape = [2], elems = [1, 2]\<rparr> \<and> nd_wf \<lparr>shape = [2], elems = [1, 4]\<rparr>
   \<and> compare_features (Arr \<lparr>shape = [2], elems = [1, 2]\<rparr>) (Arr \<lparr>shape = [2], elems = [1, 4]\<rparr>)
       = Inr (Num 2)"
  using compare_same_shape [of "\<lparr>shape = [2], elems = [1, 2]\<rparr>" "\<lparr>shape = [2], elems = [1, 4]\<rparr>"]
  by (simp add: nd_wf_def np_mean_def)

text \<open>C20. \<open>compare_features\<close> is symmetric, errors included.\<close>

theorem compare_comm: "compare_features f1 f2 = compare_features f2 f1"
proof (cases "\<exists>t1 t2. f1 = Tokens t1 \<and> f2 = Tokens t2")
  case True
  then show ?thesis by (auto simp: compare_features_def)
next
  case False
  then have F: "\<not> (\<exists>t1 t2. f2 = Tokens t1 \<and> f1 = Tokens t2)" by blast
  show ?thesis
    unfolding compare_arrays [OF False] compare_arrays [OF F]
    by (cases "as_array f1"; cases "as_array f2")
       (auto simp: broadcast_shapes_comm power2_commute as_array_def split: option.splits feature.splits list.splits)
qed

lemma compare_self:
  "compare_features (Arr a) (Arr a) = Inr (if prod_list (shape a) = 0 then NaN else Num 0)"
  by (simp add: compare_features_def as_array_def np_mean_def)

end
