(* ===== verification/Media_Service.thy ===== *)
theory Media_Service
  imports Media_Features
begin

text \<open>
  The two views of \<open>src/Erasurecode/datamatching.py\<close> (lines 84-128) and the
  state they share: the file system, in which each request stores its file under
  \<open>uploads/\<close> and removes it again, and the module global \<open>original_features\<close>,
  which \<open>/upload\<close> assigns and \<open>/download\<close> reads (\<open>NameError\<close> before the first
  assignment). A view returns its JSON response or the exception that escapes it,
  beside the state after it: an exception leaves the effects that came before it.
  \<open>dm_handle\<close> serves one request of either view, \<open>dm_run\<close> a sequence of
  them, and \<open>dm_reachable\<close> holds the states a run reaches.
\<close>

record dm_state =
  dm_fs :: fsys
  original_features :: "feature option"

text \<open>\<open>jsonify({key: value}), status\<close>.\<close>

datatype json_response = Json string string nat

definition upload_folder :: string where
  "upload_folder = ''uploads''"

definition supported_types :: "string list" where
  "supported_types = [''image'', ''audio'', ''document'', ''video'']"

text \<open>werkzeug's \<open>FileStorage.save(dst)\<close>: \<open>open(dst, 'wb')\<close> and write. An empty
  name makes \<open>dst\<close> the folder itself.\<close>

definition file_save :: "bytes \<Rightarrow> path \<Rightarrow> fsys \<Rightarrow> fsys res" where
  "file_save content dst fs =
     (if snd dst = [] then Inl (IsADirectoryError (fst dst)) else save_to_file content dst fs)"

text \<open>\<open>os.remove(path)\<close>.\<close>

definition os_remove :: "path \<Rightarrow> fsys \<Rightarrow> fsys res" where
  "os_remove p fs =
     (case map_of (fs_files fs) p of
        None \<Rightarrow> Inl (FileNotFoundError (snd p))
      | Some _ \<Rightarrow> Inr (fs\<lparr>fs_files := AList.delete p (fs_files fs)\<rparr>))"

text \<open>Lines 84-104. The request carries an optional file (its name and contents)
  and an optional \<open>type\<close> field; a missing one raises \<open>KeyError\<close>. A file
  object is true when its name is not empty.\<close>

definition dm_upload ::
  "media_libs \<Rightarrow> (string \<times> bytes) option \<Rightarrow> string option \<Rightarrow> dm_state \<Rightarrow> json_response res \<times> dm_state" where
  "dm_upload L upfile ftype st =
     (case upfile of
        None \<Rightarrow> (Inl (KeyError ''file''), st)
      | Some (fname, content) \<Rightarrow>
          (case ftype of
             None \<Rightarrow> (Inl (KeyError ''type''), st)
           | Some file_type \<Rightarrow>
               if fname \<noteq> [] \<and> file_type \<in> set supported_types then
                 (let temp_file_path = (upload_folder, secure_filename L fname) in
                  case file_save content temp_file_path (dm_fs st) of
                    Inl e \<Rightarrow> (Inl e, st)
                  | Inr fs1 \<Rightarrow>
                      (case preprocess_and_extract_features L fs1 temp_file_path file_type of
                         Inl e \<Rightarrow> (Inl e, st\<lparr>dm_fs := fs1\<rparr>)
                       | Inr feats \<Rightarrow>
                           (let st2 = st\<lparr>dm_fs := fs1, original_features := Some feats\<rparr> in
                            case os_remove temp_file_path fs1 of
                              Inl e \<Rightarrow> (Inl e, st2)
                            | Inr fs2 \<Rightarrow> (Inr (Json ''message'' ''Upload successful'' 200), st2\<lparr>dm_fs := fs2\<rparr>))))
               else (Inr (Json ''error'' ''Invalid file or file type'' 400), st)))"

text \<open>Lines 106-128.\<close>

definition dm_download ::
  "media_libs \<Rightarrow> (string \<times> bytes) option \<Rightarrow> string option \<Rightarrow> dm_state \<Rightarrow> json_response res \<times> dm_state" where
  "dm_download L upfile ftype st =
     (case upfile of
        None \<Rightarrow> (Inl (KeyError ''file''), st)
      | Some (fname, content) \<Rightarrow>
          (case ftype of
             None \<Rightarrow> (Inl (KeyError ''type''), st)
           | Some file_type \<Rightarrow>
               if fname \<noteq> [] \<and> file_type \<in> set supported_types then
                 (let temp_file_path = (upload_folder, secure_filename L fname) in
                  case file_save content temp_file_path (dm_fs st) of
                    Inl e \<Rightarrow> (Inl e, st)
                  | Inr fs1 \<Rightarrow>
                      (case preprocess_and_extract_features L fs1 temp_file_path file_type of
                         Inl e \<Rightarrow> (Inl e, st\<lparr>dm_fs := fs1\<rparr>)
                       | Inr comparison_features \<Rightarrow>
                           (case os_remove temp_file_path fs1 of
                              Inl e \<Rightarrow> (Inl e, st\<lparr>dm_fs := fs1\<rparr>)
                            | Inr fs2 \<Rightarrow>
                                (let st2 = st\<lparr>dm_fs := fs2\<rparr> in
                                 case original_features st of
                                   None \<Rightarrow> (Inl (NameError ''original_features''), st2)
                                 | Some orig \<Rightarrow>
                                     (case compare_features orig comparison_features of
                                        Inl e \<Rightarrow> (Inl e, st2)
                                      | Inr mse \<Rightarrow>
                                          (Inr (Json ''integrity_level'' (assess_integrity_level mse False) 200), st2))))))
               else (Inr (Json ''error'' ''Invalid file or file type'' 400), st)))"

text \<open>The feature the preprocessing computes for a file's contents read as the given
  media type; it depends on nothing else (lemma \<open>preprocess_content\<close>). Used to
  state what the views do.\<close>

definition content_features :: "media_libs \<Rightarrow> bytes \<Rightarrow> string \<Rightarrow> feature res" where
  "content_features L c t =
     preprocess_and_extract_features L \<lparr>fs_dirs = [upload_folder], fs_files = [((upload_folder, ''f''), c)]\<rparr>
       (upload_folder, ''f'') t"

text \<open>The file system outside \<open>uploads/\<close>: its directories and the files of the
  other folders.\<close>

definition fs_frame :: "fsys \<Rightarrow> fsys \<Rightarrow> bool" where
  "fs_frame fs fs' =
     (fs_dirs fs' = fs_dirs fs \<and>
      (\<forall>p. fst p \<noteq> upload_folder \<longrightarrow> map_of (fs_files fs') p = map_of (fs_files fs) p))"

text \<open>A request to one of the two views, with its form data, and its handling.
  Requests are served one after the other: each runs to its end before the next
  starts.\<close>

datatype dm_request =
    UploadReq "(string \<times> bytes) option" "string option"
  | DownloadReq "(string \<times> bytes) option" "string option"

definition dm_handle :: "media_libs \<Rightarrow> dm_request \<Rightarrow> dm_state \<Rightarrow> json_response res \<times> dm_state" where
  "dm_handle L req st =
     (case req of
        UploadReq f t \<Rightarrow> dm_upload L f t st
      | DownloadReq f t \<Rightarrow> dm_download L f t st)"

text \<open>A sequence of requests: the responses in order and the final state.\<close>

fun dm_run :: "media_libs \<Rightarrow> dm_request list \<Rightarrow> dm_state \<Rightarrow> json_response res list \<times> dm_state" where
  "dm_run L [] st = ([], st)"
| "dm_run L (req # reqs) st =
     (let (resp, st') = dm_handle L req st; (resps, st'') = dm_run L reqs st' in (resp # resps, st''))"

text \<open>The states a service started in \<open>st0\<close> reaches.\<close>

inductive dm_reachable :: "media_libs \<Rightarrow> dm_state \<Rightarrow> dm_state \<Rightarrow> bool" for L st0 where
  start: "dm_reachable L st0 st0"
| step: "dm_reachable L st0 st \<Longrightarrow> dm_reachable L st0 (snd (dm_handle L req st))"

text \<open>Concrete libraries and states for the witnesses: an image decoder that reads
  the first three bytes as one pixel, an MFCC that returns the bytes as numbers, a
  Latin-1 decoder and the identity as \<open>secure_filename\<close>.\<close>

definition example_libs :: media_libs where
  "example_libs =
     \<lparr>imread = (\<lambda>b. Some \<lparr>shape = [1, 1, 3], elems = map (\<lambda>x. real (unat x)) (take 3 (b @ [0, 0, 0]))\<rparr>),
      resize_224 = id,
      mfcc = (\<lambda>b. Inr \<lparr>shape = [length b], elems = map (\<lambda>x. real (unat x)) b\<rparr>),
      video_frames = (\<lambda>b. []),
      utf8_decode = (\<lambda>b. Inr (map (\<lambda>x. char_of (unat x)) b)),
      secure_filename = id\<rparr>"

definition example_state2 :: dm_state where
  "example_state2 = \<lparr>dm_fs = \<lparr>fs_dirs = [upload_folder], fs_files = [((upload_folder, ''a''), [9])]\<rparr>,
                     original_features = Some (Arr \<lparr>shape = [1], elems = [0]\<rparr>)\<rparr>"

definition example_state :: dm_state where
  "example_state = \<lparr>dm_fs = \<lparr>fs_dirs = [upload_folder], fs_files = []\<rparr>, original_features = None\<rparr>"

subsection \<open>Lemmas: the file system and the preprocessing\<close>

lemma file_save_ok:
  "snd p \<noteq> [] \<Longrightarrow> fst p \<in> set (fs_dirs fs) \<Longrightarrow>
   file_save c p fs = Inr (fs\<lparr>fs_files := AList.update p c (fs_files fs)\<rparr>)"
  by (simp add: file_save_def save_to_file_def)

lemma file_save_Inr:
  "file_save c p fs = Inr fs' \<Longrightarrow> fs' = fs\<lparr>fs_files := AList.update p c (fs_files fs)\<rparr>"
  by (auto simp: file_save_def save_to_file_def split: if_splits)

lemma os_remove_Inr:
  "os_remove p fs = Inr fs' \<Longrightarrow> fs' = fs\<lparr>fs_files := AList.delete p (fs_files fs)\<rparr>"
  by (auto simp: os_remove_def split: option.splits)

lemma os_remove_saved:
  "os_remove p (fs\<lparr>fs_files := AList.update p c xs\<rparr>)
   = Inr (fs\<lparr>fs_files := AList.delete p (AList.update p c xs)\<rparr>)"
  by (simp add: os_remove_def update_conv')

lemma fs_frame_refl [simp]: "fs_frame fs fs"
  by (simp add: fs_frame_def)

lemma fs_frame_trans: "fs_frame fs fs' \<Longrightarrow> fs_frame fs' fs'' \<Longrightarrow> fs_frame fs fs''"
  by (simp add: fs_frame_def)

lemma fs_frame_update:
  "fst p = upload_folder \<Longrightarrow> fs_frame fs (fs\<lparr>fs_files := AList.update p c (fs_files fs)\<rparr>)"
  by (auto simp: fs_frame_def update_conv')

lemma fs_frame_save_remove:
  "fst p = upload_folder \<Longrightarrow>
   fs_frame fs (fs\<lparr>fs_files := AList.delete p (AList.update p c (fs_files fs))\<rparr>)"
  by (auto simp: fs_frame_def delete_conv' update_conv')

lemma preprocess_content:
  "map_of (fs_files fs) p = Some c \<Longrightarrow>
   preprocess_and_extract_features L fs p t = content_features L c t"
  by (simp add: content_features_def preprocess_and_extract_features_def load_and_preprocess_data_def
      load_and_preprocess_image_def load_and_preprocess_audio_def load_and_preprocess_document_def
      load_and_preprocess_video_def read_from_file_def)

subsection \<open>Lemmas: what one request changes\<close>

lemma dm_upload_frame: "fs_frame (dm_fs st) (dm_fs (snd (dm_upload L f t st)))"
  by (auto simp: dm_upload_def Let_def
      fs_frame_update fs_frame_save_remove dest!: file_save_Inr os_remove_Inr
      split: option.splits sum.splits if_splits)

lemma dm_download_frame: "fs_frame (dm_fs st) (dm_fs (snd (dm_download L f t st)))"
  by (auto simp: dm_download_def Let_def
      fs_frame_update fs_frame_save_remove dest!: file_save_Inr os_remove_Inr
      split: option.splits sum.splits if_splits)

lemma dm_handle_frame: "fs_frame (dm_fs st) (dm_fs (snd (dm_handle L req st)))"
  by (cases req) (simp_all add: dm_handle_def dm_upload_frame dm_download_frame)

lemma dm_upload_keeps_features:
  "original_features st \<noteq> None \<Longrightarrow> original_features (snd (dm_upload L f t st)) \<noteq> None"
  by (auto simp: dm_upload_def Let_def split: option.splits sum.splits)

lemma dm_download_features [simp]:
  "original_features (snd (dm_download L f t st)) = original_features st"
  by (auto simp: dm_download_def Let_def split: option.splits sum.splits)

lemma dm_handle_dirs: "fs_dirs (dm_fs (snd (dm_handle L req st))) = fs_dirs (dm_fs st)"
  using dm_handle_frame [of st L req] by (simp add: fs_frame_def)

lemma dm_reachable_dirs: "dm_reachable L st0 st \<Longrightarrow> fs_dirs (dm_fs st) = fs_dirs (dm_fs st0)"
  by (induction rule: dm_reachable.induct) (simp_all add: dm_handle_dirs)

lemmas dm_views = dm_upload_def dm_download_def Let_def file_save_ok os_remove_saved update_conv'

lemma dm_upload_success:
  assumes "fst (dm_upload L (Some (n, c)) (Some t) st) = Inr (Json ''message'' ''Upload successful'' 200)"
  shows "n \<noteq> [] \<and> t \<in> set supported_types \<and> secure_filename L n \<noteq> []
         \<and> upload_folder \<in> set (fs_dirs (dm_fs st)) \<and> (\<exists>f. content_features L c t = Inr f)"
proof -
  have v: "n \<noteq> [] \<and> t \<in> set supported_types \<and> secure_filename L n \<noteq> [] \<and> upload_folder \<in> set (fs_dirs (dm_fs st))"
    using assms by (auto simp: dm_upload_def Let_def file_save_def save_to_file_def split: if_splits sum.splits)
  with assms show ?thesis
    by (auto simp: dm_views preprocess_content split: sum.splits)
qed

subsection \<open>Lemmas: the example libraries\<close>

lemma example_audio: "content_features example_libs [1, 2] ''audio'' = Inr (Arr \<lparr>shape = [2], elems = [1, 2]\<rparr>)"
  by (simp add: content_features_def preprocess_and_extract_features_def load_and_preprocess_data_def
      load_and_preprocess_audio_def read_from_file_def example_libs_def extract_features_def)

lemma example_secure [simp]: "secure_filename example_libs n = n"
  by (simp add: example_libs_def)

lemma example_upload:
  "dm_upload example_libs (Some (''a'', [1, 2])) (Some ''audio'') example_state2 =
     (Inr (Json ''message'' ''Upload successful'' 200),
      example_state2\<lparr>dm_fs := \<lparr>fs_dirs = [upload_folder], fs_files = []\<rparr>,
                      original_features := Some (Arr \<lparr>shape = [2], elems = [1, 2]\<rparr>)\<rparr>)"
  by (simp add: dm_views preprocess_content example_state2_def supported_types_def example_audio os_remove_def)

subsection \<open>Properties of the views\<close>

text \<open>C21. Round trip of the two views: after an upload of a file succeeds, a download of the same file (same name, contents and type) answers \<open>Very High\<close> for a non-empty array feature and \<open>Very Low or Integrity Violated\<close> for an empty one (NaN), and raises \<open>TypeError\<close> for a document, whose token lists cannot be subtracted.\<close>

theorem upload_download_same_file:
  assumes "fst (dm_upload L (Some (n, c)) (Some t) st) = Inr (Json ''message'' ''Upload successful'' 200)"
  shows "\<exists>f. content_features L c t = Inr f \<and>
    fst (dm_download L (Some (n, c)) (Some t) (snd (dm_upload L (Some (n, c)) (Some t) st))) =
      (case f of
         Arr a \<Rightarrow> Inr (Json ''integrity_level''
                    (if prod_list (shape a) = 0 then ''Very Low or Integrity Violated'' else ''Very High'') 200)
       | Tokens _ \<Rightarrow> Inl (TypeError ''unsupported operand type(s) for -''))"
proof -
  from dm_upload_success [OF assms] obtain f where
    v: "n \<noteq> []" "t \<in> set supported_types" "secure_filename L n \<noteq> []"
       "upload_folder \<in> set (fs_dirs (dm_fs st))" and f: "content_features L c t = Inr f"
    by blast
  show ?thesis
  proof (cases f)
    case (Tokens ts)
    with v f show ?thesis
      by (simp add: dm_views preprocess_content compare_features_def)
  next
    case (Arr a)
    with v f show ?thesis
      by (simp add: dm_views preprocess_content compare_self assess_integrity_level_def)
  qed
qed

theorem upload_download_same_file_witness:
  "fst (dm_upload example_libs (Some (''a'', [1, 2])) (Some ''audio'') example_state2)
     = Inr (Json ''message'' ''Upload successful'' 200)
   \<and> fst (dm_download example_libs (Some (''a'', [1, 2])) (Some ''audio'')
          (snd (dm_upload example_libs (Some (''a'', [1, 2])) (Some ''audio'') example_state2)))
     = Inr (Json ''integrity_level'' ''Very High'' 200)"
  using upload_download_same_file [of example_libs "''a''" "[1, 2]" "''audio''" example_state2]
  by (simp add: example_upload example_audio)

text \<open>C22. Invariant of every run of the service: the directories and every file outside \<open>uploads/\<close> are those of the initial state.\<close>

theorem dm_reachable_frame:
  "dm_reachable L st0 st \<Longrightarrow> fs_frame (dm_fs st0) (dm_fs st)"
proof (induction rule: dm_reachable.induct)
  case start
  show ?case by simp
next
  case (step st req)
  then show ?case using dm_handle_frame by (blast intro: fs_frame_trans)
qed

theorem dm_reachable_frame_witness:
  "dm_reachable example_libs example_state (snd (dm_handle example_libs (UploadReq (Some (''a'', [1, 2])) (Some ''audio'')) example_state))
   \<and> fs_frame (dm_fs example_state) (dm_fs (snd (dm_handle example_libs (UploadReq (Some (''a'', [1, 2])) (Some ''audio'')) example_state)))"
proof -
  have r: "dm_reachable example_libs example_state (snd (dm_handle example_libs (UploadReq (Some (''a'', [1, 2])) (Some ''audio'')) example_state))"
    by (rule dm_reachable.step [OF dm_reachable.start])
  show ?thesis using dm_reachable_frame [OF r] r by simp
qed

text \<open>C23. A successful upload deletes whatever file \<open>uploads/\<close> held under the same safe name, and changes no other file.\<close>

theorem dm_upload_removes_existing:
  assumes "fst (dm_upload L (Some (n, c)) (Some t) st) = Inr (Json ''message'' ''Upload successful'' 200)"
  shows "map_of (fs_files (dm_fs (snd (dm_upload L (Some (n, c)) (Some t) st))))
         = (map_of (fs_files (dm_fs st)))((upload_folder, secure_filename L n) := None)"
  using dm_upload_success [OF assms]
  by (auto simp: dm_views preprocess_content delete_conv' split: sum.splits)

theorem dm_upload_removes_existing_witness:
  "fst (dm_upload example_libs (Some (''a'', [1, 2])) (Some ''audio'') example_state2)
     = Inr (Json ''message'' ''Upload successful'' 200)
   \<and> map_of (fs_files (dm_fs (snd (dm_upload example_libs (Some (''a'', [1, 2])) (Some ''audio'') example_state2))))
       (upload_folder, ''a'') = None
   \<and> map_of (fs_files (dm_fs example_state2)) (upload_folder, ''a'') = Some [9]"
proof -
  have old: "map_of (fs_files (dm_fs example_state2)) (upload_folder, ''a'') = Some [9]"
    by (simp add: example_state2_def)
  show ?thesis
    using dm_upload_removes_existing [of example_libs "''a''" "[1, 2]" "''audio''" example_state2] old
    by (simp add: example_upload)
qed

text \<open>C24. The code never creates \<open>uploads/\<close>: in every run of a service started without that folder, every valid upload and every valid download raises \<open>FileNotFoundError\<close>.\<close>

theorem dm_no_upload_folder:
  assumes "dm_reachable L st0 st" "upload_folder \<notin> set (fs_dirs (dm_fs st0))"
    and "n \<noteq> []" "t \<in> set supported_types" "secure_filename L n \<noteq> []"
  shows "fst (dm_handle L (UploadReq (Some (n, c)) (Some t)) st) = Inl (FileNotFoundError (secure_filename L n))
       \<and> fst (dm_handle L (DownloadReq (Some (n, c)) (Some t)) st) = Inl (FileNotFoundError (secure_filename L n))"
  using assms dm_reachable_dirs [OF assms(1)]
  by (simp add: dm_handle_def dm_upload_def dm_download_def file_save_def save_to_file_def)

theorem dm_no_upload_folder_witness:
  "dm_reachable example_libs \<lparr>dm_fs = \<lparr>fs_dirs = [], fs_files = []\<rparr>, original_features = None\<rparr>
                               \<lparr>dm_fs = \<lparr>fs_dirs = [], fs_files = []\<rparr>, original_features = None\<rparr>
   \<and> upload_folder \<notin> set (fs_dirs (dm_fs \<lparr>dm_fs = \<lparr>fs_dirs = [], fs_files = []\<rparr>, original_features = None\<rparr>))
   \<and> ''a'' \<noteq> [] \<and> ''audio'' \<in> set supported_types \<and> secure_filename example_libs ''a'' \<noteq> []
   \<and> fst (dm_handle example_libs (UploadReq (Some (''a'', [1, 2])) (Some ''audio''))
            \<lparr>dm_fs = \<lparr>fs_dirs = [], fs_files = []\<rparr>, original_features = None\<rparr>) = Inl (FileNotFoundError ''a'')"
  using dm_no_upload_folder [of example_libs "\<lparr>dm_fs = \<lparr>fs_dirs = [], fs_files = []\<rparr>, original_features = None\<rparr>"
      "\<lparr>dm_fs = \<lparr>fs_dirs = [], fs_files = []\<rparr>, original_features = None\<rparr>" "''a''" "''audio''" "[1, 2]"]
    dm_reachable.start
  by (simp add: supported_types_def)

text \<open>C25. Before \<open>original_features\<close> is assigned, \<open>/download\<close> never reports an integrity level.\<close>

theorem dm_download_before_upload:
  "original_features st = None \<Longrightarrow> fst (dm_download L f t st) \<noteq> Inr (Json ''integrity_level'' l s)"
  by (auto simp: dm_download_def Let_def split: option.splits sum.splits if_splits)

theorem dm_download_before_upload_witness:
  "original_features example_state = None
   \<and> fst (dm_download example_libs (Some (''a'', [1, 2])) (Some ''audio'') example_state)
       \<noteq> Inr (Json ''integrity_level'' ''Very High'' 200)"
  using dm_download_before_upload [of example_state example_libs "Some (''a'', [1, 2])" "Some ''audio''" "''Very High''" 200]
  by (simp add: example_state_def)

text \<open>C26. Progress: from every reachable state of a service whose \<open>uploads/\<close> folder exists, one upload of a file whose feature is a non-empty array leads to a reachable state in which a download of the same file reports \<open>Very High\<close>.\<close>

theorem dm_liveness:
  assumes "dm_reachable L st0 st" "upload_folder \<in> set (fs_dirs (dm_fs st0))"
    and "n \<noteq> []" "t \<in> set supported_types" "secure_filename L n \<noteq> []"
    and "content_features L c t = Inr (Arr a)" "prod_list (shape a) \<noteq> 0"
  shows "\<exists>st'. dm_reachable L st0 st' \<and>
           fst (dm_handle L (DownloadReq (Some (n, c)) (Some t)) st') = Inr (Json ''integrity_level'' ''Very High'' 200)"
proof -
  let ?st' = "snd (dm_handle L (UploadReq (Some (n, c)) (Some t)) st)"
  have r: "dm_reachable L st0 ?st'"
    using assms(1) by (rule dm_reachable.step)
  have "upload_folder \<in> set (fs_dirs (dm_fs st))"
    using dm_reachable_dirs [OF assms(1)] assms(2) by simp
  with assms(3-7) have "fst (dm_handle L (DownloadReq (Some (n, c)) (Some t)) ?st') = Inr (Json ''integrity_level'' ''Very High'' 200)"
    by (simp add: dm_handle_def dm_views preprocess_content compare_self assess_integrity_level_def)
  with r show ?thesis by blast
qed

theorem dm_liveness_witness:
  "dm_reachable example_libs example_state example_state \<and> upload_folder \<in> set (fs_dirs (dm_fs example_state))
   \<and> ''a'' \<noteq> [] \<and> ''audio'' \<in> set supported_types \<and> secure_filename example_libs ''a'' \<noteq> []
   \<and> content_features example_libs [1, 2] ''audio'' = Inr (Arr \<lparr>shape = [2], elems = [1, 2]\<rparr>)
   \<and> prod_list (shape \<lparr>shape = [2 :: nat], elems = [1, 2 :: real]\<rparr>) \<noteq> 0
   \<and> (\<exists>st'. dm_reachable example_libs example_state st' \<and>
         fst (dm_handle example_libs (DownloadReq (Some (''a'', [1, 2])) (Some ''audio'')) st')
           = Inr (Json ''integrity_level'' ''Very High'' 200))"
  using dm_liveness [of example_libs example_state example_state "''a''" "''audio''" "[1, 2]"
      "\<lparr>shape = [2], elems = [1, 2]\<rparr>"] dm_reachable.start example_audio
  by (simp add: example_state_def supported_types_def)

end
