(* ===== verification/App_Server.thy ===== *)
theory App_Server
  imports Service
begin

text \<open>
  The Flask application of \<open>src/Erasurecode/app.py\<close> as a whole. A request goes to
  one of its four routes: \<open>/\<close> (\<open>index\<close>), \<open>/upload\<close>, \<open>/download\<close> and \<open>/quit\<close>.
  The state the routes share is the file system. Each upload or download builds
  a new \<open>SecureErasureCode\<close> and so draws a new random matrix; the draws are
  part of the request. \<open>app_handle\<close> serves one request, \<open>app_run\<close> a sequence
  of them, and the inductive \<open>app_reachable\<close> holds the file systems a run
  reaches.
\<close>

text \<open>\<open>render_template('index.html')\<close>: Flask reads the template from the
  application's \<open>templates\<close> folder and raises \<open>TemplateNotFound\<close> when it is
  missing. The template is taken as a page without Jinja syntax.\<close>

definition index_view :: "fsys \<Rightarrow> response res" where
  "index_view fs =
     (case map_of (fs_files fs) (''templates'', ''index.html'') of
        None \<Rightarrow> Inl (TemplateNotFound ''index.html'')
      | Some page \<Rightarrow> Inr (Html page))"

definition quit_view :: "response res" where
  "quit_view = Inr (Text ''Quitting the program.'')"

datatype app_request =
    IndexReq
  | UploadReq "(string \<times> bytes) option" rng
  | DownloadReq rng
  | QuitReq

definition app_handle :: "(bytes \<Rightarrow> 'd) \<Rightarrow> app_request \<Rightarrow> fsys \<Rightarrow> response res \<times> fsys" where
  "app_handle h req fs =
     (case req of
        IndexReq \<Rightarrow> (index_view fs, fs)
      | UploadReq upfile rnd \<Rightarrow> upload rnd upfile fs
      | DownloadReq rnd \<Rightarrow> download rnd h fs
      | QuitReq \<Rightarrow> (quit_view, fs))"

fun app_run :: "(bytes \<Rightarrow> 'd) \<Rightarrow> app_request list \<Rightarrow> fsys \<Rightarrow> response res list \<times> fsys" where
  "app_run h [] fs = ([], fs)"
| "app_run h (req # reqs) fs =
     (let (resp, fs') = app_handle h req fs; (resps, fs'') = app_run h reqs fs' in (resp # resps, fs''))"

inductive app_reachable :: "(bytes \<Rightarrow> 'd) \<Rightarrow> fsys \<Rightarrow> fsys \<Rightarrow> bool" for h fs0 where
  start: "app_reachable h fs0 fs0"
| step: "app_reachable h fs0 fs \<Longrightarrow> app_reachable h fs0 (snd (app_handle h req fs))"

text \<open>The file system outside the storage folder, and the names inside it: the
  directories only gain \<open>Erasure_storage_folder\<close>, the files of other folders
  do not change, and the storage folder only gains \<open>block_<i>.bin\<close> files and
  \<open>decoded_file.bin\<close>.\<close>

definition store_frame :: "fsys \<Rightarrow> fsys \<Rightarrow> bool" where
  "store_frame fs0 fs =
     (set (fs_dirs fs0) \<subseteq> set (fs_dirs fs) \<and> set (fs_dirs fs) \<subseteq> insert storage_folder (set (fs_dirs fs0))
      \<and> (\<forall>p. fst p \<noteq> storage_folder \<longrightarrow> map_of (fs_files fs) p = map_of (fs_files fs0) p)
      \<and> (\<forall>n. (storage_folder, n) \<in> fst ` set (fs_files fs) \<longrightarrow>
             (storage_folder, n) \<in> fst ` set (fs_files fs0) \<or> n = ''decoded_file.bin'' \<or> (\<exists>i. n = block_name i)))"

text \<open>A store with one block of the code \<open>k = m = 1\<close> whose parity matrix is
  \<open>[[1]]\<close> (the matrix \<open>generate_parity_matrix\<close> draws when every draw is 1).\<close>

definition fs_one :: fsys where
  "fs_one = \<lparr>fs_dirs = [storage_folder], fs_files = [((storage_folder, block_name 0), [0, 0])]\<rparr>"

subsection \<open>Lemmas: what a request changes\<close>

lemma save_to_file_Inr:
  "save_to_file v p fs = Inr fs' \<Longrightarrow> fs' = fs\<lparr>fs_files := AList.update p v (fs_files fs)\<rparr>"
  by (auto simp: save_to_file_def split: if_splits)

lemma store_frame_refl [simp]: "store_frame fs fs"
  by (auto simp: store_frame_def)

lemma store_frame_trans:
  assumes "store_frame fs0 fs1" "store_frame fs1 fs2"
  shows "store_frame fs0 fs2"
  unfolding store_frame_def
proof (intro conjI allI impI)
  show "set (fs_dirs fs0) \<subseteq> set (fs_dirs fs2)"
    using assms by (auto simp: store_frame_def)
  show "set (fs_dirs fs2) \<subseteq> insert storage_folder (set (fs_dirs fs0))"
    using assms unfolding store_frame_def by blast
  fix p :: path
  assume "fst p \<noteq> storage_folder"
  then show "map_of (fs_files fs2) p = map_of (fs_files fs0) p"
    using assms by (cases p) (simp add: store_frame_def)
next
  fix n
  assume "(storage_folder, n) \<in> fst ` set (fs_files fs2)"
  then show "(storage_folder, n) \<in> fst ` set (fs_files fs0) \<or> n = ''decoded_file.bin'' \<or> (\<exists>i. n = block_name i)"
    using assms unfolding store_frame_def by blast
qed

lemma store_frame_save:
  assumes n: "n = ''decoded_file.bin'' \<or> (\<exists>i. n = block_name i)"
    and s: "save_to_file v (storage_folder, n) fs = Inr fs'"
  shows "store_frame fs fs'"
proof -
  have fs': "fs' = fs\<lparr>fs_files := AList.update (storage_folder, n) v (fs_files fs)\<rparr>"
    using s by (rule save_to_file_Inr)
  have keys: "fst ` set (fs_files fs') = insert (storage_folder, n) (fst ` set (fs_files fs))"
    by (simp add: fs' dom_update)
  show ?thesis
    unfolding store_frame_def
  proof (intro conjI allI impI)
    fix p :: path
    assume "fst p \<noteq> storage_folder"
    then show "map_of (fs_files fs') p = map_of (fs_files fs) p"
      by (cases p) (simp add: fs' update_conv')
  next
    fix n'
    assume "(storage_folder, n') \<in> fst ` set (fs_files fs')"
    with n show "(storage_folder, n') \<in> fst ` set (fs_files fs) \<or> n' = ''decoded_file.bin'' \<or> (\<exists>i. n' = block_name i)"
      unfolding keys by blast
  qed (auto simp: fs')
qed

lemma store_frame_mkdir: "store_frame fs (fs\<lparr>fs_dirs := storage_folder # fs_dirs fs\<rparr>)"
  by (auto simp: store_frame_def)

lemma save_blocks_frame: "save_blocks i bs fs = Inr fs' \<Longrightarrow> store_frame fs fs'"
proof (induction bs arbitrary: i fs)
  case Nil
  then show ?case by simp
next
  case (Cons b bs)
  then obtain fs1 where s: "save_to_file b (storage_folder, block_name i) fs = Inr fs1"
    and r: "save_blocks (Suc i) bs fs1 = Inr fs'"
    by (auto simp: bind_res_eq_Inr)
  have "store_frame fs fs1" using store_frame_save [OF _ s] by blast
  with Cons.IH [OF r] show ?case by (blast intro: store_frame_trans)
qed

lemma upload_body_frame: "store_frame fs (snd (upload_body k m rnd f fs))"
proof -
  let ?fs1 = "if storage_folder \<in> set (fs_dirs fs) then fs else fs\<lparr>fs_dirs := storage_folder # fs_dirs fs\<rparr>"
  have f1: "store_frame fs ?fs1" by (simp add: store_frame_mkdir)
  have "store_frame ?fs1 fs2" if "save_blocks 0 bs ?fs1 = Inr fs2" for bs fs2
    using that by (rule save_blocks_frame)
  with f1 show ?thesis
    by (auto simp: upload_body_def Let_def split: option.splits sum.splits intro: store_frame_trans)
qed

lemma download_body_frame: "store_frame fs (snd (download_body k m rnd h fs))"
proof -
  have save: "store_frame fs fs'" if "save_to_file v (storage_folder, ''decoded_file.bin'') fs = Inr fs'" for v fs'
    using that by (intro store_frame_save) simp_all
  show ?thesis
    unfolding download_body_def
    by (auto split: sum.split option.split intro: save)
qed

lemma app_handle_frame: "store_frame fs (snd (app_handle h req fs))"
  by (cases req) (simp_all add: app_handle_def upload_def download_def upload_body_frame download_body_frame)

lemma names_update:
  "[snd (fst e). e \<leftarrow> AList.update (d, n) v al, fst (fst e) = d] =
   (if (d, n) \<in> fst ` set al then [snd (fst e). e \<leftarrow> al, fst (fst e) = d]
    else [snd (fst e). e \<leftarrow> al, fst (fst e) = d] @ [n])"
  by (induction al) auto

lemma in_names: "(d, n) \<in> fst ` set al \<longleftrightarrow> n \<in> set [snd (fst e). e \<leftarrow> al, fst (fst e) = d]"
  by force

subsection \<open>Properties of the application\<close>

text \<open>C27. Invariant of every run of the application: the directories other than the storage folder stay, the files outside the storage folder are unchanged, and every file in the storage folder was there at the start or is a block file or \<open>decoded_file.bin\<close>.\<close>

theorem app_reachable_frame: "app_reachable h fs0 fs \<Longrightarrow> store_frame fs0 fs"
proof (induction rule: app_reachable.induct)
  case start
  show ?case by simp
next
  case (step fs req)
  then show ?case using app_handle_frame by (blast intro: store_frame_trans)
qed

theorem app_reachable_frame_witness:
  "app_reachable (id :: bytes \<Rightarrow> bytes) fs_one (snd (app_handle (id :: bytes \<Rightarrow> bytes) QuitReq fs_one))
   \<and> store_frame fs_one (snd (app_handle (id :: bytes \<Rightarrow> bytes) QuitReq fs_one))"
proof -
  have r: "app_reachable (id :: bytes \<Rightarrow> bytes) fs_one (snd (app_handle (id :: bytes \<Rightarrow> bytes) QuitReq fs_one))"
    by (rule app_reachable.step [OF app_reachable.start])
  show ?thesis using app_reachable_frame [OF r] r by simp
qed

text \<open>C28. A successful download writes \<open>decoded_file.bin\<close> into the folder it reads the blocks from: the listing the next download reads has that file as one more block.\<close>

theorem download_reads_own_output:
  assumes "fst (download_body k m rnd h fs) = Inr r"
  shows "\<exists>files. listdir storage_folder fs = Inr files \<and>
           listdir storage_folder (snd (download_body k m rnd h fs))
             = Inr (if ''decoded_file.bin'' \<in> set files then files else files @ [''decoded_file.bin''])"
proof -
  from assms obtain files v fs' where l: "listdir storage_folder fs = Inr files"
    and s: "save_to_file v (storage_folder, ''decoded_file.bin'') fs = Inr fs'"
    and o: "snd (download_body k m rnd h fs) = fs'"
    by (auto simp: download_body_def split: sum.splits option.splits)
  have fs': "fs' = fs\<lparr>fs_files := AList.update (storage_folder, ''decoded_file.bin'') v (fs_files fs)\<rparr>"
    using s by (rule save_to_file_Inr)
  from l have d: "storage_folder \<in> set (fs_dirs fs)"
    and f: "files = [snd (fst e). e \<leftarrow> fs_files fs, fst (fst e) = storage_folder]"
    by (auto simp: listdir_def split: if_splits)
  have "listdir storage_folder fs'
          = Inr (if ''decoded_file.bin'' \<in> set files then files else files @ [''decoded_file.bin''])"
    by (simp add: listdir_def fs' d f names_update in_names)
  with l o show ?thesis by blast
qed

theorem download_reads_own_output_witness:
  "fst (download_body 1 1 (\<lambda>_. 1) (id :: bytes \<Rightarrow> bytes) fs_one) = Inr (Attachment (storage_folder, ''decoded_file.bin'') [0])
   \<and> listdir storage_folder fs_one = Inr [block_name 0]
   \<and> listdir storage_folder (snd (download_body 1 1 (\<lambda>_. 1) (id :: bytes \<Rightarrow> bytes) fs_one))
       = Inr [block_name 0, ''decoded_file.bin'']"
proof -
  have ok: "fst (download_body 1 1 (\<lambda>_. 1) (id :: bytes \<Rightarrow> bytes) fs_one) = Inr (Attachment (storage_folder, ''decoded_file.bin'') [0])"
    by code_simp
  have l: "listdir storage_folder fs_one = Inr [block_name 0]"
    by (simp add: fs_one_def listdir_def)
  have "''decoded_file.bin'' \<notin> set [block_name 0]"
    by (simp add: block_name_def)
  with download_reads_own_output [OF ok] l ok show ?thesis
    by simp
qed

text \<open>Downloading is not repeatable: on a store with one valid block the first download returns the decoded file, and the second one, which reads \<open>decoded_file.bin\<close> as a block, fails the integrity check and the view returns \<open>None\<close>.\<close>

theorem download_not_idempotent:
  "fst (download_body 1 1 (\<lambda>_. 1) (id :: bytes \<Rightarrow> bytes) fs_one) = Inr (Attachment (storage_folder, ''decoded_file.bin'') [0])
   \<and> fst (download_body 1 1 (\<lambda>_. 1) (id :: bytes \<Rightarrow> bytes) (snd (download_body 1 1 (\<lambda>_. 1) (id :: bytes \<Rightarrow> bytes) fs_one)))
       = Inl (TypeError ''The view function did not return a valid response'')"
  by code_simp

end
