(* ===== verification/Spec2Isabelle.thy ===== *)
theory Spec2Isabelle
  imports Media_Service App_Server
begin

text \<open>
  \<^bold>\<open>A verification development for the secure erasure code service.\<close>

  The program (\<open>src/Erasurecode/app.py\<close>) is a Flask service around one class.
  \<open>SecureErasureCode(k, m)\<close> draws a random \<open>k \<times> m\<close> parity matrix of bytes.
  \<open>encode(data)\<close> cuts the data into segments of \<open>k\<close> bytes and frames each
  segment as the segment followed by its \<open>m\<close> parity bytes, the product of the
  segment with the matrix, reduced mod 256. \<open>decode(blocks)\<close> checks the size of
  the first block, builds the data matrix, pads the parity matrix with zero rows
  when \<open>m < k\<close>, inverts it mod 256 with sympy and, block by block, rebuilds a
  segment by XOR with the parity and compares SHA-256 digests. It returns
  \<open>None\<close> on the first mismatch. The \<open>/upload\<close> view pads the uploaded file to a
  multiple of \<open>k\<close>, encodes it chunk by chunk and stores every framed block as
  \<open>Erasure_storage_folder/block_<i>.bin\<close>. The \<open>/download\<close> view lists that
  folder, reads the blocks back, decodes them with a new instance and returns
  the result as an attachment.

  A second Flask service (\<open>src/Erasurecode/datamatching.py\<close>) compares media
  files. Its \<open>/upload\<close> view stores a file under \<open>uploads/\<close>, computes its
  feature and keeps it in the module global \<open>original_features\<close>. The feature
  is the token list of a document, or an array for an image, an audio file or
  a video. The \<open>/download\<close> view computes the feature of another file the
  same way and grades the mean squared error against the kept feature with
  \<open>assess_integrity_level\<close>.

  \<^bold>\<open>Theories.\<close>
  \<^item> \<open>Prelude\<close>: bytes as \<^typ>\<open>8 word list\<close>, and the exceptions of the code as the
    datatype \<open>error\<close>. Results are \<open>error + 'a\<close>, chained with \<open>bind_res\<close>.
    It also defines Python's \<open>xs[0]\<close> (\<open>py_index0\<close>), \<open>bytes(...)\<close> (\<open>py_bytes\<close>),
    slicing and \<open>range(i, n, s)\<close> (\<open>range_step\<close>). Its list lemmas are about
    \<open>chunks\<close>, the reference decomposition of a list into segments of \<open>k\<close>.
  \<^item> \<open>Sympy_Matrix\<close>: the part of sympy's \<open>Matrix\<close> that the code calls.
    The record \<open>matrix\<close> carries its shape. The operations are the
    constructor \<open>Matrix\<close> (which, as sympy does, skips empty rows, so a list
    of empty rows gives the 0 by 0 matrix), \<open>zeros\<close>, the product \<open>mat_mul\<close> (\<open>ShapeError\<close> on a
    mismatch), \<open>tolist\<close> and \<open>row_join\<close> (including sympy's special case for a
    null matrix). Its lemmas show that every operation keeps matrices well
    formed and give their shapes.
  \<^item> \<open>Sympy_Inverse\<close>: \<open>A.inv_mod(m)\<close> (\<open>app.py\<close> line 50). It defines the Laplace
    determinant \<open>det\<close>, \<open>minor\<close>, \<open>cofactor\<close>, \<open>adjugate\<close>, \<open>mod_inverse\<close> and
    \<open>inv_mod\<close>. \<open>inv_mod\<close> raises \<open>NonSquareMatrixError\<close> or
    \<open>NonInvertibleMatrixError\<close>. Otherwise it returns the adjugate times the
    inverse of the determinant, modulo \<open>m\<close>. The lemmas develop the
    determinant from the definition: a swap of adjacent rows negates it
    (\<open>det_swap_rows\<close>), two equal rows make it 0 (\<open>det_equal_rows\<close>), it
    expands along every row (\<open>det_row_expansion\<close>), and transposing keeps it
    (\<open>det_trans\<close>). From these, \<open>A adj(A) = adj(A) A = det(A) I\<close>
    (\<open>cofactor_sum\<close>, \<open>cofactor_sum_col\<close>). So whenever \<open>inv_mod\<close> returns,
    its result is a two-sided inverse modulo \<open>m\<close>
    (\<open>inv_mod_right_inverse\<close>, \<open>inv_mod_left_inverse\<close>).
  \<^item> \<open>Codec\<close>: the class. The record \<open>sec_code\<close> holds \<open>self.k\<close>, \<open>self.m\<close>,
    \<open>self.n\<close> and \<open>self.parity_matrix\<close>. There is one definition per method:
    \<open>generate_parity_matrix\<close>, \<open>SecureErasureCode\<close>, \<open>encode\<close> with its loop
    \<open>encode_loop\<close> and body \<open>encode_block\<close>, \<open>decode\<close> with its loop \<open>decode_loop\<close>
    and step \<open>reconstruct\<close>, and \<open>pad_parity_matrix\<close>. \<open>decode\<close> returns the new
    instance with its result, because \<open>pad_parity_matrix\<close> assigns
    \<open>self.parity_matrix\<close>. The invariant \<open>sec_wf\<close> holds for every new instance
    with parity columns (C7) and is kept by \<open>decode\<close> (C4). A new instance with
    \<open>m = 0 < k\<close> has the 0 by 0 matrix; its first \<open>decode\<close> turns that into a
    \<open>k\<close> by \<open>k\<close> zero matrix, which satisfies \<open>sec_wf\<close>.
  \<^item> \<open>Service\<close>: the two views and the block store. The record \<open>fsys\<close> holds a
    list of directories and an association list from \<open>(folder, name)\<close> to
    contents. \<open>save_to_file\<close> and \<open>read_from_file\<close> model the two helpers.
    \<open>listdir\<close> returns names in creation order. \<open>upload_body\<close> models the
    \<open>upload\<close> view, with its \<open>while True\<close> loop as \<open>upload_chunks\<close> and the saving
    loop as \<open>save_blocks\<close>. \<open>download_body\<close> models the \<open>download\<close> view.
    \<open>upload\<close> and \<open>download\<close> fix the code's \<open>k = 512 * 1024\<close>, \<open>m = 3\<close>.
  \<^item> \<open>Media_Features\<close>: the functions of \<open>datamatching.py\<close> up to line 82.
    \<^item> \<open>load_and_preprocess_data\<close> dispatches on the type.
    \<^item> \<open>load_and_preprocess_document\<close> uses \<open>py_split\<close>, which is CPython's
      \<open>str.split()\<close>.
    \<^item> \<open>load_and_preprocess_image\<close> and \<open>load_and_preprocess_video\<close> use
      \<open>prep_frame\<close>, \<open>video_loop\<close> and \<open>np_array\<close>.
    \<^item> \<open>compare_features\<close> uses numpy's broadcasting (\<open>broadcast_shapes\<close>,
      \<open>bcast_elem\<close>) and \<open>np_mean\<close>, whose NaN is a value of \<open>pyfloat\<close>.
    \<^item> \<open>assess_integrity_level\<close>.
  \<^item> \<open>Media_Service\<close>: the two views of \<open>datamatching.py\<close>, \<open>dm_upload\<close> and
    \<open>dm_download\<close>. They act on the record \<open>dm_state\<close>, which holds the file
    system and the global \<open>original_features\<close>. \<open>file_save\<close> and
    \<open>os_remove\<close> model the temporary file. \<open>dm_handle\<close> serves one request,
    \<open>dm_run\<close> serves a sequence of them, and the inductive \<open>dm_reachable\<close> holds
    the states of every run. The invariants are proved by rule induction on it.
  \<^item> \<open>App_Server\<close>: the application of \<open>app.py\<close> with its four routes.
    \<open>index_view\<close> renders \<open>templates/index.html\<close> and \<open>quit_view\<close> returns a
    constant. \<open>app_handle\<close> dispatches a request, \<open>app_run\<close> serves a
    sequence, and \<open>app_reachable\<close> holds the file systems of every run.

  \<^bold>\<open>Modelling choices.\<close>
  \<^item> SHA-256 is a parameter \<open>h :: bytes \<Rightarrow> 'd\<close>. The theorems that need it to tell
    inputs apart assume \<open>inj h\<close>, which is collision freedom. The witnesses
    use the identity.
  \<^item> \<open>random.randint(0, 255)\<close> is a parameter \<open>rnd :: nat \<Rightarrow> byte\<close>, the \<open>i\<close>-th
    draw. Every theorem holds for every sequence of draws.
  \<^item> Python integers are \<^typ>\<open>int\<close>. Bytes are \<^typ>\<open>8 word\<close>, read with
    \<open>uint\<close>. The reduction \<open>% 256\<close> the code writes is kept; where the code
    leaves it out (the XOR in \<open>decode\<close>), the model leaves it out too.
  \<^item> Every loop is structural recursion or a \<open>function\<close> with a measure, so every
    operation is total and no fuel is needed: \<open>range_step\<close>, \<open>chunks\<close>, the
    determinant \<open>det\<close>, and \<open>upload_chunks\<close>, whose measure is the length of
    the remaining data. The \<open>while True\<close> loop of \<open>/upload\<close> is also kept as a
    loop (\<open>upload_while\<close>, a \<open>while_option\<close>). C30 proves that it returns for
    every input, with the result of \<open>upload_chunks\<close>.
  \<^item> \<open>os.listdir\<close> returns names in an order the file system chooses. The
    model lists them in creation order, so the theorems about \<open>download\<close>
    describe a run under that order. The code never sorts the names, and a
    file system that lists them in another order (\<open>block_10.bin\<close> before
    \<open>block_2.bin\<close>, for instance) makes \<open>decode\<close> see the blocks permuted.
  \<^item> In \<open>datamatching.py\<close>, floats are reals or NaN. The rounding of float32
    and float64 is not modelled; the thresholds \<open>1e-6\<close>, \<open>1e-4\<close>, \<open>1e-2\<close> are
    the exact decimals.
  \<^item> The calls into OpenCV, librosa, UTF-8 decoding and werkzeug's
    \<open>secure_filename\<close> are the fields of a record \<open>media_libs\<close>, a parameter
    of every theorem. \<open>cvtColor\<close>, the scaling by 255, the frame loop, the
    stacking of frames, the subtraction, broadcasting and the mean are
    modelled exactly.
  \<^item> Text is over the code points 0 to 255, the characters of Isabelle.
  \<^item> Requests are served one after the other. Flask's threaded server could
    interleave two requests that share \<open>uploads/<name>\<close> or the global.
    These interleavings are not modelled.

  \<^bold>\<open>Claims.\<close>
  C1 to C9, C29 and C32 are about \<open>Codec\<close>.
  \<^item> C1: encoding frames every segment with its parity.
  \<^item> C2: decode only returns blocks whose digests match.
  \<^item> C3: decode raises \<open>ShapeError\<close> from the padding when \<open>0 < m < k\<close>.
  \<^item> C4: the invariant is kept.
  \<^item> C5: the guards of \<open>encode\<close>.
  \<^item> C6: the round trip for the \<open>1 \<times> 1\<close> identity matrix succeeds only when
    the first byte is 0.
  \<^item> C7: the shape of a new instance; with \<open>m = 0 < k\<close> the matrix is 0 by 0
    and \<open>encode\<close> raises \<open>ShapeError\<close>.
  \<^item> C8: bytes appended to any block but the first go undetected.
  \<^item> C9: \<open>decode\<close> grows the parity matrix of a code without parity.
  \<^item> C29: with \<open>k = m\<close>, the inverse of the parity matrix turns the parity
    segment back into the data segment. \<open>decode\<close> multiplies the data matrix by
    the inverse instead.
  \<^item> C32: for \<open>k = m = 1\<close>, decode of an untampered block raises
    \<open>ValueError\<close> exactly when the unreduced reconstructed parity reaches 256.

  C10 to C14 and C30 are about \<open>Service\<close>.
  \<^item> C10: the padding.
  \<^item> C11: the upload loop equals \<open>encode\<close>.
  \<^item> C12: the stored blocks.
  \<^item> C13: the default download always fails.
  \<^item> C14: an upload followed by a download raises \<open>ShapeError\<close>.
  \<^item> C30: the \<open>while True\<close> upload loop returns.

  C15 to C20 are about \<open>Media_Features\<close>.
  \<^item> C15: the grade is monotone in the error.
  \<^item> C16, C17 and C18: the tokens of \<open>str.split()\<close>, their concatenation, and
    the round trip with \<open>' '.join\<close>.
  \<^item> C19: on arrays of one shape, the comparison is the element-wise mean
    squared error.
  \<^item> C20: the comparison is symmetric.

  C21 to C26 are about \<open>Media_Service\<close>.
  \<^item> C21: the upload/download round trip of one file; it fails for documents.
  \<^item> C22: the files outside \<open>uploads/\<close> never change.
  \<^item> C23: an upload deletes an existing file of the same name.
  \<^item> C24: no request succeeds without \<open>uploads/\<close>.
  \<^item> C25: no grade is reported before an upload.
  \<^item> C26: progress to a \<open>Very High\<close> grade.

  C27 and C28 are about \<open>App_Server\<close>.
  \<^item> C27: what a run of the application may change.
  \<^item> C28: a download adds \<open>decoded_file.bin\<close> to the blocks the next one reads.
    The lemma \<open>download_not_idempotent\<close> shows the consequence on a one-block
    store: the second download fails.

  C31 is about \<open>Sympy_Inverse\<close>: \<open>inv_mod(256)\<close> of a square matrix of any
  size returns exactly when the determinant is odd, and then returns a
  two-sided inverse modulo 256.

  \<^bold>\<open>Not modelled.\<close>
  \<^item> Flask's request parsing, \<open>send_file\<close>, Jinja rendering and the server
    start-up in \<open>app.run\<close>: pure I/O.
  \<^item> The internals of SHA-256 and of the random generator: library code.
  \<^item> The internals of OpenCV's decoding and resizing, of librosa's MFCC and of
    UTF-8 decoding: library code, taken as parameters.
  \<^item> sympy computes the determinant and the adjugate in \<open>inv_mod\<close> with its
    own algorithms, not by Laplace expansion. Over the integers they give the
    same values, so the model uses the Laplace form. The running time of
    sympy's algorithms is not modelled.
\<close>

end
